(* ===== verification/Wafie_Prelude.thy ===== *)
theory Wafie_Prelude
  imports Complex_Main "HOL-Library.Word"
begin

text \<open>
  Shared vocabulary of the development: the machine integers of the C headers and of the Go code,
  the faults that the model makes explicit (a failed assertion, an exception, a Go run-time panic,
  a bad memory access), results in which such a fault can occur, decimal printing and reading,
  C strings, substring search, and the object store (\<open>new\<close>, \<open>delete\<close>, pointer reads) with the
  interface that the memory-handling components rely on.
\<close>

section \<open>Collections of rules\<close>

named_theorems fault_simps \<open>rewriting of results that may be faults\<close>
named_theorems store_simps \<open>rewriting of the object store\<close>
named_theorems str_simps \<open>strings, decimal numerals and substring search\<close>

section \<open>Machine integers and pointers\<close>

type_synonym size_t = "64 word"
type_synonym cint = "32 word"
type_synonym int64 = "64 word"
type_synonym uint32 = "32 word"
type_synonym uint8 = "8 word"

type_synonym addr = nat
type_synonym ptr = "addr option"  \<comment> \<open>\<open>None\<close> is the null pointer\<close>

section \<open>Faults and results\<close>

datatype fault =
    Out_Of_Range          \<comment> \<open>\<open>std::out_of_range\<close> of a checked access\<close>
  | Undefined_Index       \<comment> \<open>an unchecked array access outside its bounds\<close>
  | Assertion_Failed      \<comment> \<open>a failed \<open>assert\<close>\<close>
  | Null_Dereference      \<comment> \<open>a read through a null pointer\<close>
  | Use_After_Free        \<comment> \<open>a read through a pointer to no live object\<close>
  | Bad_Free              \<comment> \<open>a release of a pointer to no live object\<close>
  | Slice_Bounds          \<comment> \<open>Go's "index" and "slice bounds out of range" panics\<close>
  | Type_Assertion        \<comment> \<open>Go's panic on a failed type assertion\<close>
  | Explicit_Panic        \<comment> \<open>a call of Go's \<open>panic\<close>\<close>

type_synonym 'a res = "fault + 'a"

definition bind_res :: "('e + 'a) \<Rightarrow> ('a \<Rightarrow> 'e + 'b) \<Rightarrow> 'e + 'b" where
  "bind_res r f = (case r of Inl e \<Rightarrow> Inl e | Inr x \<Rightarrow> f x)"

lemma bind_res_simps [simp, fault_simps]:
  "bind_res (Inl e) f = Inl e"
  "bind_res (Inr x) f = f x"
  by (simp_all add: bind_res_def)

lemma bind_res_eq_Inr_iff:
  "bind_res r f = Inr y \<longleftrightarrow> (\<exists>x. r = Inr x \<and> f x = Inr y)"
  by (cases r) simp_all

lemma bind_res_eq_Inl_iff:
  "bind_res r f = Inl e \<longleftrightarrow> r = Inl e \<or> (\<exists>x. r = Inr x \<and> f x = Inl e)"
  by (cases r) simp_all

lemma bind_res_right [fault_simps]: "bind_res r Inr = r"
  by (cases r) simp_all

lemma bind_res_assoc [fault_simps]:
  "bind_res (bind_res r f) g = bind_res r (\<lambda>x. bind_res (f x) g)"
  by (cases r) simp_all

text \<open>A loop over a list whose body updates a state and may fault.\<close>

fun fold_res :: "('s \<Rightarrow> 'a \<Rightarrow> 'e + 's) \<Rightarrow> 's \<Rightarrow> 'a list \<Rightarrow> 'e + 's" where
  "fold_res f s [] = Inr s"
| "fold_res f s (x # xs) = bind_res (f s x) (\<lambda>s'. fold_res f s' xs)"

lemma fold_res_append [fault_simps]:
  "fold_res f s (xs @ ys) = bind_res (fold_res f s xs) (\<lambda>s'. fold_res f s' ys)"
  by (induction xs arbitrary: s) (auto simp: bind_res_assoc)

section \<open>Strings\<close>

definition NUL :: char where
  "NUL = CHR 0x00"

text \<open>What a C function sees of the bytes behind a \<open>char *\<close>: they end at the first NUL.\<close>

definition c_str :: "string \<Rightarrow> string" where
  "c_str s = takeWhile (\<lambda>c. c \<noteq> NUL) s"

lemma c_str_idem [simp, str_simps]: "c_str (c_str s) = c_str s"
  by (simp add: c_str_def takeWhile_idem)

lemma c_str_id: "NUL \<notin> set s \<Longrightarrow> c_str s = s"
  by (induction s) (auto simp: c_str_def)

lemma NUL_notin_c_str [simp, str_simps]: "NUL \<notin> set (c_str s)"
  by (auto simp: c_str_def dest: set_takeWhileD)

text \<open>\<open>std::string::find\<close> of one character: the first position not before \<open>start\<close>.\<close>

fun find_char_from :: "nat \<Rightarrow> nat \<Rightarrow> char \<Rightarrow> string \<Rightarrow> nat option" where
  "find_char_from i start c [] = None"
| "find_char_from i start c (x # xs) =
     (if start \<le> i \<and> x = c then Some i else find_char_from (Suc i) start c xs)"

definition find_char :: "char \<Rightarrow> string \<Rightarrow> nat option" where
  "find_char c s = find_char_from 0 0 c s"

lemma find_char_from_None:
  "find_char_from i start c s = None \<longleftrightarrow> c \<notin> set (drop (start - i) s)"
proof (induction i start c s rule: find_char_from.induct)
  case (2 i start c x xs)
  then show ?case by (cases "start \<le> i") (auto simp: Suc_diff_le drop_Cons')
qed simp

lemma find_char_from_Some:
  "find_char_from i start c s = Some k \<Longrightarrow>
     start \<le> k \<and> i \<le> k \<and> k - i < length s \<and> s ! (k - i) = c \<and>
     (\<forall>j. start - i \<le> j \<longrightarrow> j < k - i \<longrightarrow> s ! j \<noteq> c)"
proof (induction i start c s arbitrary: k rule: find_char_from.induct)
  case (2 i start c x xs)
  show ?case
  proof (cases "start \<le> i \<and> x = c")
    case True
    with 2(2) show ?thesis by simp
  next
    case False
    with 2 have IH: "start \<le> k \<and> Suc i \<le> k \<and> k - Suc i < length xs \<and> xs ! (k - Suc i) = c \<and>
        (\<forall>j. start - Suc i \<le> j \<longrightarrow> j < k - Suc i \<longrightarrow> xs ! j \<noteq> c)"
      by simp
    then have Suc: "k - i = Suc (k - Suc i)" by linarith
    have "(x # xs) ! j \<noteq> c" if j: "start - i \<le> j" "j < k - i" for j
      using j False IH by (cases j) auto
    with IH Suc show ?thesis by simp
  qed
qed simp

lemma find_char_None: "find_char c s = None \<longleftrightarrow> c \<notin> set s"
  by (simp add: find_char_def find_char_from_None)

lemma find_char_Some:
  assumes "find_char c s = Some k"
  shows "k < length s" and "s ! k = c" and "c \<notin> set (take k s)"
proof -
  note f = find_char_from_Some [OF assms [unfolded find_char_def]]
  then show "k < length s" and "s ! k = c" by auto
  from f show "c \<notin> set (take k s)"
    by (auto simp: in_set_conv_nth)
qed

lemma find_char_from_append:
  "c \<notin> set (drop (start - i) xs) \<Longrightarrow> start \<le> i + length xs \<Longrightarrow>
     find_char_from i start c (xs @ c # ys) = Some (i + length xs)"
proof (induction xs arbitrary: i)
  case (Cons x xs)
  have "\<not> (start \<le> i \<and> x = c)" using Cons.prems(1) by auto
  moreover have "c \<notin> set (drop (start - Suc i) xs)"
    using Cons.prems(1) by (cases "start \<le> i") (auto simp: drop_Cons' Suc_diff_le)
  ultimately show ?case using Cons.IH [of "Suc i"] Cons.prems(2) by auto
qed simp

section \<open>Decimal numerals\<close>

definition digit :: "nat \<Rightarrow> char" where
  "digit d = char_of (48 + d)"

fun dec_nat :: "nat \<Rightarrow> string" where
  "dec_nat n = (if n < 10 then [digit n] else dec_nat (n div 10) @ [digit (n mod 10)])"

declare dec_nat.simps [simp del]

definition dec_int :: "int \<Rightarrow> string" where
  "dec_int i = (if i < 0 then CHR ''-'' # dec_nat (nat (- i)) else dec_nat (nat i))"

definition digit_val :: "char \<Rightarrow> nat option" where
  "digit_val c = (let v = of_char c :: nat in if 48 \<le> v \<and> v \<le> 57 then Some (v - 48) else None)"

text \<open>The value of a non-empty string of decimal digits, \<open>None\<close> for any other string.\<close>

fun dec_acc :: "nat \<Rightarrow> string \<Rightarrow> nat option" where
  "dec_acc n [] = Some n"
| "dec_acc n (c # cs) =
     (case digit_val c of None \<Rightarrow> None | Some d \<Rightarrow> dec_acc (10 * n + d) cs)"

definition dec_val :: "string \<Rightarrow> nat option" where
  "dec_val s = (if s = [] then None else dec_acc 0 s)"

lemma digit_val_digit [simp, str_simps]: "d < 10 \<Longrightarrow> digit_val (digit d) = Some d"
  by (simp add: digit_val_def digit_def)

lemma dec_acc_append:
  "dec_acc n (xs @ ys) = (case dec_acc n xs of None \<Rightarrow> None | Some m \<Rightarrow> dec_acc m ys)"
  by (induction xs arbitrary: n) (auto split: option.splits)

lemma dec_nat_not_Nil [simp, str_simps]: "dec_nat n \<noteq> []"
  by (subst dec_nat.simps) simp

lemma dec_acc_dec_nat: "dec_acc 0 (dec_nat n) = Some n"
proof (induction n rule: dec_nat.induct)
  case (1 n)
  show ?case
  proof (cases "n < 10")
    case True
    then show ?thesis by (simp add: dec_nat.simps [of n])
  next
    case False
    with 1 show ?thesis by (simp add: dec_nat.simps [of n] dec_acc_append)
  qed
qed

lemma dec_val_dec_nat [simp, str_simps]: "dec_val (dec_nat n) = Some n"
  by (simp add: dec_val_def dec_acc_dec_nat)

lemma dec_nat_inject [simp]: "dec_nat m = dec_nat n \<longleftrightarrow> m = n"
  by (metis dec_val_dec_nat option.inject)

lemma digit_val_dec_nat: "c \<in> set (dec_nat n) \<Longrightarrow> digit_val c \<noteq> None"
proof (induction n rule: dec_nat.induct)
  case (1 n)
  then show ?case
    by (cases "n < 10") (auto simp: dec_nat.simps [of n])
qed

lemma dec_nat_chars: "c \<in> set (dec_nat n) \<Longrightarrow> of_char c \<in> {48..57::nat}"
  using digit_val_dec_nat [of c n] by (auto simp: digit_val_def Let_def split: if_splits)

section \<open>The object store\<close>

text \<open>
  \<open>new\<close>/\<open>malloc\<close> hand out an address that was never used before; \<open>delete\<close>/\<open>free\<close> of an address
  that holds no object, and a read through it, are faults.
\<close>

record 'v store =
  cells :: "addr \<rightharpoonup> 'v"
  next_addr :: addr

definition empty_store :: "'v store" where
  "empty_store = \<lparr>cells = Map.empty, next_addr = 0\<rparr>"

definition live :: "'v store \<Rightarrow> addr set" where
  "live h = dom (cells h)"

definition store_ok :: "'v store \<Rightarrow> bool" where
  "store_ok h \<longleftrightarrow> (\<forall>a \<in> live h. a < next_addr h)"

definition new_obj :: "'v store \<Rightarrow> 'v \<Rightarrow> addr \<times> 'v store" where
  "new_obj h v = (next_addr h,
     h\<lparr>cells := (cells h)(next_addr h \<mapsto> v), next_addr := Suc (next_addr h)\<rparr>)"

definition read_obj :: "'v store \<Rightarrow> addr \<Rightarrow> 'v res" where
  "read_obj h a = (case cells h a of None \<Rightarrow> Inl Use_After_Free | Some v \<Rightarrow> Inr v)"

definition write_obj :: "'v store \<Rightarrow> addr \<Rightarrow> 'v \<Rightarrow> 'v store res" where
  "write_obj h a v = (case cells h a of None \<Rightarrow> Inl Use_After_Free
     | Some _ \<Rightarrow> Inr (h\<lparr>cells := (cells h)(a \<mapsto> v)\<rparr>))"

definition delete_obj :: "'v store \<Rightarrow> addr \<Rightarrow> 'v store res" where
  "delete_obj h a = (case cells h a of None \<Rightarrow> Inl Bad_Free
     | Some _ \<Rightarrow> Inr (h\<lparr>cells := (cells h)(a := None)\<rparr>))"

text \<open>\<open>free(NULL)\<close> and \<open>delete nullptr\<close> do nothing.\<close>

definition free_ptr :: "'v store \<Rightarrow> ptr \<Rightarrow> 'v store res" where
  "free_ptr h p = (case p of None \<Rightarrow> Inr h | Some a \<Rightarrow> delete_obj h a)"

text \<open>
  The interface: which objects are live, what they hold, and what allocation and release change.
\<close>

locale object_store =
  fixes alloc :: "'s \<Rightarrow> 'v \<Rightarrow> addr \<times> 's"
    and read :: "'s \<Rightarrow> addr \<Rightarrow> 'v res"
    and put :: "'s \<Rightarrow> addr \<Rightarrow> 'v \<Rightarrow> 's res"
    and dealloc :: "'s \<Rightarrow> addr \<Rightarrow> 's res"
    and lives :: "'s \<Rightarrow> addr set"
    and ok :: "'s \<Rightarrow> bool"
  assumes alloc_fresh: "ok s \<Longrightarrow> alloc s v = (a, s') \<Longrightarrow> a \<notin> lives s"
    and alloc_live: "ok s \<Longrightarrow> alloc s v = (a, s') \<Longrightarrow> lives s' = insert a (lives s)"
    and alloc_ok: "ok s \<Longrightarrow> alloc s v = (a, s') \<Longrightarrow> ok s'"
    and alloc_read: "ok s \<Longrightarrow> alloc s v = (a, s') \<Longrightarrow>
          read s' b = (if b = a then Inr v else read s b)"
    and read_live: "a \<in> lives s \<longleftrightarrow> (\<exists>v. read s a = Inr v)"
    and put_live: "a \<in> lives s \<Longrightarrow> \<exists>s'. put s a v = Inr s' \<and> lives s' = lives s
          \<and> (ok s \<longrightarrow> ok s') \<and> (\<forall>b. read s' b = (if b = a then Inr v else read s b))"
    and dealloc_dead: "a \<notin> lives s \<Longrightarrow> dealloc s a = Inl Bad_Free"
    and dealloc_live: "a \<in> lives s \<Longrightarrow> \<exists>s'. dealloc s a = Inr s' \<and> lives s' = lives s - {a}
          \<and> (ok s \<longrightarrow> ok s') \<and> (\<forall>b. b \<noteq> a \<longrightarrow> read s' b = read s b)"
begin

text \<open>Releasing pairwise different live objects succeeds and removes exactly these.\<close>

lemma dealloc_all:
  assumes "distinct as" and "set as \<subseteq> lives s"
  shows "\<exists>s'. fold_res dealloc s as = Inr s' \<and> lives s' = lives s - set as \<and> (ok s \<longrightarrow> ok s')
    \<and> (\<forall>b. b \<notin> set as \<longrightarrow> read s' b = read s b)"
  using assms
proof (induction as arbitrary: s)
  case (Cons a as)
  from dealloc_live [of a s] Cons.prems obtain s1 where
    s1: "dealloc s a = Inr s1" "lives s1 = lives s - {a}" "ok s \<longrightarrow> ok s1"
      "\<forall>b. b \<noteq> a \<longrightarrow> read s1 b = read s b"
    by auto
  moreover have "set as \<subseteq> lives s1" using Cons.prems s1(2) by auto
  ultimately show ?case
    using Cons.IH [of s1] Cons.prems(1) by auto
qed simp

text \<open>Releasing an object twice is caught, whatever is released in between.\<close>

lemma double_free:
  assumes "dealloc s a = Inr s1" and "fold_res dealloc s1 bs = Inr s2"
  shows "dealloc s2 a = Inl Bad_Free"
proof -
  have a: "a \<in> lives s" using assms(1) dealloc_dead [of a s] by auto
  then have "a \<notin> lives s1" using dealloc_live [OF a] assms(1) by auto
  then have "a \<notin> lives s2" using assms(2)
  proof (induction bs arbitrary: s1)
    case (Cons b bs)
    from Cons.prems(2) obtain s' where s': "dealloc s1 b = Inr s'" "fold_res dealloc s' bs = Inr s2"
      by (auto simp: bind_res_eq_Inr_iff)
    have b: "b \<in> lives s1" using s'(1) dealloc_dead [of b s1] by auto
    have "a \<notin> lives s'" using dealloc_live [OF b] s'(1) Cons.prems(1) by auto
    then show ?case using Cons.IH s'(2) by blast
  qed simp
  then show ?thesis by (rule dealloc_dead)
qed

end

lemma live_simps [simp, store_simps]:
  "live (h\<lparr>cells := (cells h)(a \<mapsto> v)\<rparr>) = insert a (live h)"
  "live (h\<lparr>cells := (cells h)(a := None)\<rparr>) = live h - {a}"
  by (auto simp: live_def)

lemma empty_store_simps [simp, store_simps]: "live empty_store = {}" "store_ok empty_store"
  by (simp_all add: live_def store_ok_def empty_store_def)

interpretation obj: object_store new_obj read_obj write_obj delete_obj live store_ok
proof
  fix s :: "'v store" and v a s'
  assume ok: "store_ok s" and new: "new_obj s v = (a, s')"
  then show "a \<notin> live s" and "live s' = insert a (live s)" and "store_ok s'"
    by (auto simp: new_obj_def store_ok_def live_def less_Suc_eq dom_def split: if_splits)
  show "read_obj s' b = (if b = a then Inr v else read_obj s b)" for b
    using new by (auto simp: new_obj_def read_obj_def)
next
  fix a and s :: "'v store"
  show "a \<in> live s \<longleftrightarrow> (\<exists>v. read_obj s a = Inr v)"
    by (auto simp: read_obj_def live_def split: option.splits)
next
  fix a v and s :: "'v store"
  assume "a \<in> live s"
  then show "\<exists>s'. write_obj s a v = Inr s' \<and> live s' = live s \<and> (store_ok s \<longrightarrow> store_ok s')
      \<and> (\<forall>b. read_obj s' b = (if b = a then Inr v else read_obj s b))"
    by (force simp: write_obj_def live_def store_ok_def read_obj_def insert_absorb)
next
  fix a and s :: "'v store"
  assume "a \<notin> live s"
  then show "delete_obj s a = Inl Bad_Free"
    by (auto simp: delete_obj_def live_def split: option.splits)
next
  fix a and s :: "'v store"
  assume "a \<in> live s"
  then show "\<exists>s'. delete_obj s a = Inr s' \<and> live s' = live s - {a} \<and> (store_ok s \<longrightarrow> store_ok s')
      \<and> (\<forall>b. b \<noteq> a \<longrightarrow> read_obj s' b = read_obj s b)"
    by (auto simp: delete_obj_def live_def store_ok_def read_obj_def)
qed

end
