(* ===== verification/MS_Variables.thy ===== *)
theory MS_Variables
  imports Wafie_Prelude
begin

text \<open>
  The variable layer of the ModSecurity headers: \<open>VariableOrigin\<close> (\<open>variable_origin.h\<close>),
  \<open>VariableValue\<close> (\<open>variable_value.h\<close>), \<open>AnchoredVariable\<close> (\<open>anchored_variable.h\<close>), the key
  comparison and hash of \<open>AnchoredSetVariable\<close> (\<open>anchored_set_variable.h\<close>) and
  \<open>AnchoredSetVariableTranslationProxy\<close> (\<open>anchored_set_variable_translation_proxy.h\<close>), which is
  modelled over the object store because it deletes and replaces the objects behind the pointers it
  is given.  The members of \<open>AnchoredSetVariable\<close> are declared in the header and implemented
  elsewhere: they are the fields of the parameter record \<open>set_variable_ops\<close>.
\<close>

section \<open>VariableOrigin\<close>

record variable_origin =
  vo_length :: size_t
  vo_offset :: size_t

definition VariableOrigin0 :: variable_origin where
  "VariableOrigin0 = \<lparr>vo_length = 0, vo_offset = 0\<rparr>"

definition VariableOrigin :: "size_t \<Rightarrow> size_t \<Rightarrow> variable_origin" where
  "VariableOrigin length' offset = \<lparr>vo_length = length', vo_offset = offset\<rparr>"

definition toText :: "variable_origin \<Rightarrow> string" where
  "toText o' = (let offset = dec_nat (unat (vo_offset o')); len = dec_nat (unat (vo_length o'))
    in ''v'' @ offset @ '','' @ len)"

section \<open>VariableValue\<close>

record variable_value =
  vv_orign :: "variable_origin list"
  vv_collection :: string
  vv_key :: string
  vv_keyWithCollection :: string
  vv_value :: string

text \<open>The three constructors; a null \<open>value\<close> argument of the first one is \<open>None\<close>.\<close>

definition VariableValue_key :: "string \<Rightarrow> string option \<Rightarrow> variable_value" where
  "VariableValue_key key value = \<lparr>vv_orign = [], vv_collection = '''', vv_key = key,
     vv_keyWithCollection = key, vv_value = (case value of None \<Rightarrow> '''' | Some v \<Rightarrow> v)\<rparr>"

definition VariableValue_coll :: "string \<Rightarrow> string \<Rightarrow> string \<Rightarrow> variable_value" where
  "VariableValue_coll collection key value = \<lparr>vv_orign = [], vv_collection = collection,
     vv_key = key, vv_keyWithCollection = collection @ '':'' @ key, vv_value = value\<rparr>"

definition getKey :: "variable_value \<Rightarrow> string" where
  "getKey v = vv_key v"

definition getKeyWithCollection :: "variable_value \<Rightarrow> string" where
  "getKeyWithCollection v = vv_keyWithCollection v"

definition getCollection :: "variable_value \<Rightarrow> string" where
  "getCollection v = vv_collection v"

definition getValue :: "variable_value \<Rightarrow> string" where
  "getValue v = vv_value v"

definition setValue :: "string \<Rightarrow> variable_value \<Rightarrow> variable_value" where
  "setValue value v = v\<lparr>vv_value := value\<rparr>"

definition addOrigin :: "variable_origin \<Rightarrow> variable_value \<Rightarrow> variable_value" where
  "addOrigin origin v = v\<lparr>vv_orign := vv_orign v @ [origin]\<rparr>"

text \<open>The variadic overload constructs the origin in place from a length and an offset.\<close>

definition addOrigin_args :: "size_t \<Rightarrow> size_t \<Rightarrow> variable_value \<Rightarrow> variable_value" where
  "addOrigin_args length' offset v = v\<lparr>vv_orign := vv_orign v @ [VariableOrigin length' offset]\<rparr>"

definition getOrigin :: "variable_value \<Rightarrow> variable_origin list" where
  "getOrigin v = vv_orign v"

text \<open>Reserving capacity leaves the contents of the vector as they are.\<close>

definition reserveOrigin :: "nat \<Rightarrow> variable_value \<Rightarrow> variable_value" where
  "reserveOrigin additionalSize v = v"

definition VariableValue_copy :: "variable_value \<Rightarrow> variable_value" where
  "VariableValue_copy o' =
     (let v = \<lparr>vv_orign = [], vv_collection = vv_collection o', vv_key = vv_key o',
                vv_keyWithCollection = vv_keyWithCollection o', vv_value = vv_value o'\<rparr>;
          v = reserveOrigin (length (vv_orign o')) v
      in fold addOrigin (vv_orign o') v)"

section \<open>AnchoredVariable\<close>

record anchored_variable =
  av_transaction :: ptr
  av_offset :: cint
  av_name :: string
  av_value :: string
  av_var :: variable_value

text \<open>The declared members.\<close>

record anchored_variable_ops =
  av_make :: "ptr \<Rightarrow> string \<Rightarrow> anchored_variable"
  av_unset :: "anchored_variable \<Rightarrow> anchored_variable"
  av_set :: "string \<Rightarrow> size_t \<Rightarrow> anchored_variable \<Rightarrow> anchored_variable"
  av_set_len :: "string \<Rightarrow> size_t \<Rightarrow> size_t \<Rightarrow> anchored_variable \<Rightarrow> anchored_variable"
  av_evaluate :: "anchored_variable \<Rightarrow> addr list \<Rightarrow> addr list"
  av_evaluate_string :: "anchored_variable \<Rightarrow> string option"
  av_resolveFirst :: "anchored_variable \<Rightarrow> string option"

section \<open>AnchoredSetVariable\<close>

text \<open>
  \<open>tolower\<close> in the C locale.  (Where \<open>char\<close> is signed, the source passes a negative number for a byte
  above 127, for which the C standard does not define the function; the model takes the byte unchanged.)
\<close>

definition tolower :: "char \<Rightarrow> nat" where
  "tolower c = (let v = of_char c in if 65 \<le> v \<and> v \<le> 90 then v + 32 else v)"

definition MyEqual :: "string \<Rightarrow> string \<Rightarrow> bool" where
  "MyEqual lhs rhs \<longleftrightarrow> length lhs = length rhs
     \<and> list_all2 (\<lambda>a b. tolower a = tolower b) lhs rhs"

definition MyHash :: "string \<Rightarrow> size_t" where
  "MyHash Keyval = fold (\<lambda>c h. h + word_of_nat (tolower c)) Keyval 0"

text \<open>The multimap's entries, in the order in which the container iterates.\<close>

record anchored_set_variable =
  asv_entries :: "(string \<times> addr) list"
  asv_transaction :: ptr
  asv_name :: string

type_synonym value_store = "variable_value store"
type_synonym resolver = "value_store \<Rightarrow> addr list \<Rightarrow> addr list \<times> value_store"

text \<open>The declared members; \<open>'ke\<close> are key exclusions and \<open>'rx\<close> regular expressions.\<close>

record ('ke, 'rx) set_variable_ops =
  asv_unset :: "anchored_set_variable \<Rightarrow> value_store \<Rightarrow> anchored_set_variable \<times> value_store"
  asv_set :: "anchored_set_variable \<Rightarrow> string \<Rightarrow> string \<Rightarrow> size_t \<Rightarrow> value_store \<Rightarrow>
     anchored_set_variable \<times> value_store"
  asv_set_len :: "anchored_set_variable \<Rightarrow> string \<Rightarrow> string \<Rightarrow> size_t \<Rightarrow> size_t \<Rightarrow> value_store \<Rightarrow>
     anchored_set_variable \<times> value_store"
  asv_setCopy :: "anchored_set_variable \<Rightarrow> string \<Rightarrow> string \<Rightarrow> size_t \<Rightarrow> value_store \<Rightarrow>
     anchored_set_variable \<times> value_store"
  asv_resolve :: "anchored_set_variable \<Rightarrow> resolver"
  asv_resolve_ke :: "anchored_set_variable \<Rightarrow> 'ke \<Rightarrow> resolver"
  asv_resolve_key :: "anchored_set_variable \<Rightarrow> string \<Rightarrow> resolver"
  asv_resolveRegularExpression :: "anchored_set_variable \<Rightarrow> 'rx \<Rightarrow> resolver"
  asv_resolveRegularExpression_ke :: "anchored_set_variable \<Rightarrow> 'rx \<Rightarrow> 'ke \<Rightarrow> resolver"
  asv_resolveFirst :: "anchored_set_variable \<Rightarrow> string \<Rightarrow> value_store \<Rightarrow> string option"

section \<open>AnchoredSetVariableTranslationProxy\<close>

record translation_proxy =
  tp_name :: string
  tp_fount :: anchored_set_variable

text \<open>What one round of the \<open>m_translate\<close> loop builds from an old value.\<close>

definition translated :: "string \<Rightarrow> variable_value \<Rightarrow> variable_value" where
  "translated name oldv =
     (let newv = VariableValue_coll name (getKey oldv) (getKey oldv);
          newv = reserveOrigin (length (getOrigin oldv)) newv;
          ksize = word_of_nat (length (getKey oldv))
      in fold (\<lambda>oldOrigin v. addOrigin_args ksize (vo_offset oldOrigin - ksize - 1) v)
           (getOrigin oldv) newv)"

text \<open>
  One round: read the old value, allocate the new one, store its pointer in the list, copy the
  origins, delete the old value.  The result is the new pointer.
\<close>

definition translate_at :: "string \<Rightarrow> value_store \<Rightarrow> addr \<Rightarrow> (addr \<times> value_store) res" where
  "translate_at name h p =
     bind_res (read_obj h p) (\<lambda>oldv.
       let (q, h1) = new_obj h (VariableValue_coll name (getKey oldv) (getKey oldv)) in
       bind_res (write_obj h1 q (translated name oldv)) (\<lambda>h2.
       bind_res (delete_obj h2 p) (\<lambda>h3. Inr (q, h3))))"

fun translate :: "string \<Rightarrow> value_store \<Rightarrow> addr list \<Rightarrow> (addr list \<times> value_store) res" where
  "translate name h [] = Inr ([], h)"
| "translate name h (p # ps) =
     bind_res (translate_at name h p) (\<lambda>(q, h1).
       bind_res (translate name h1 ps) (\<lambda>(qs, h2). Inr (q # qs, h2)))"

definition tp_resolve :: "('ke, 'rx) set_variable_ops \<Rightarrow> translation_proxy \<Rightarrow> value_store \<Rightarrow>
    addr list \<Rightarrow> (addr list \<times> value_store) res" where
  "tp_resolve ops px h l =
     (let (l1, h1) = asv_resolve ops (tp_fount px) h l in translate (tp_name px) h1 l1)"

definition tp_resolve_ke :: "('ke, 'rx) set_variable_ops \<Rightarrow> translation_proxy \<Rightarrow> 'ke \<Rightarrow>
    value_store \<Rightarrow> addr list \<Rightarrow> (addr list \<times> value_store) res" where
  "tp_resolve_ke ops px ke h l =
     (let (l1, h1) = asv_resolve_ke ops (tp_fount px) ke h l in translate (tp_name px) h1 l1)"

definition tp_resolve_key :: "('ke, 'rx) set_variable_ops \<Rightarrow> translation_proxy \<Rightarrow> string \<Rightarrow>
    value_store \<Rightarrow> addr list \<Rightarrow> (addr list \<times> value_store) res" where
  "tp_resolve_key ops px key h l =
     (let (l1, h1) = asv_resolve_key ops (tp_fount px) key h l in translate (tp_name px) h1 l1)"

definition tp_resolveRegularExpression :: "('ke, 'rx) set_variable_ops \<Rightarrow> translation_proxy \<Rightarrow>
    'rx \<Rightarrow> value_store \<Rightarrow> addr list \<Rightarrow> (addr list \<times> value_store) res" where
  "tp_resolveRegularExpression ops px r h l =
     (let (l1, h1) = asv_resolveRegularExpression ops (tp_fount px) r h l
      in translate (tp_name px) h1 l1)"

definition tp_resolveRegularExpression_ke :: "('ke, 'rx) set_variable_ops \<Rightarrow> translation_proxy \<Rightarrow>
    'rx \<Rightarrow> 'ke \<Rightarrow> value_store \<Rightarrow> addr list \<Rightarrow> (addr list \<times> value_store) res" where
  "tp_resolveRegularExpression_ke ops px r ke h l =
     (let (l1, h1) = asv_resolveRegularExpression_ke ops (tp_fount px) r ke h l
      in translate (tp_name px) h1 l1)"

text \<open>\<open>resolveFirst\<close> calls \<open>resolve(&l)\<close>: its \<open>key\<close> argument is not used.\<close>

definition tp_resolveFirst :: "('ke, 'rx) set_variable_ops \<Rightarrow> translation_proxy \<Rightarrow> string \<Rightarrow>
    value_store \<Rightarrow> (string option \<times> value_store) res" where
  "tp_resolveFirst ops px key h =
     bind_res (tp_resolve ops px h []) (\<lambda>(l, h1).
       case l of [] \<Rightarrow> Inr (None, h1)
       | p # _ \<Rightarrow> bind_res (read_obj h1 p) (\<lambda>v.
           bind_res (fold_res delete_obj h1 l) (\<lambda>h2. Inr (Some (getValue v), h2))))"

section \<open>Origins and values\<close>

lemma comma_notin_dec_nat: "CHR '','' \<notin> set (dec_nat n)"
  using dec_nat_chars [of "CHR '',''" n] by auto

lemma dec_pair_inject:
  assumes "dec_nat a @ '','' @ dec_nat b = dec_nat c @ '','' @ dec_nat d"
  shows "a = c \<and> b = d"
proof -
  have "takeWhile (\<lambda>x. x \<noteq> CHR '','') (dec_nat m @ '','' @ dec_nat n) = dec_nat m"
    "tl (dropWhile (\<lambda>x. x \<noteq> CHR '','') (dec_nat m @ '','' @ dec_nat n)) = dec_nat n" for m n
    using comma_notin_dec_nat [of m] by (auto simp: takeWhile_append dropWhile_append)
  then show ?thesis by (metis assms dec_nat_inject)
qed

lemma toText_inject_iff: "toText a = toText b \<longleftrightarrow> a = (b :: variable_origin)"
proof
  assume "toText a = toText b"
  then have "unat (vo_offset a) = unat (vo_offset b) \<and> unat (vo_length a) = unat (vo_length b)"
    by (intro dec_pair_inject) (simp add: toText_def Let_def)
  then show "a = b" by (simp add: word_unat_eq_iff)
qed simp

lemma fold_addOrigin: "fold addOrigin os v = v\<lparr>vv_orign := vv_orign v @ os\<rparr>"
  by (induction os arbitrary: v) (auto simp: addOrigin_def)

lemma fold_addOrigin_args:
  "fold (\<lambda>x v. addOrigin_args n (f x) v) os v
     = v\<lparr>vv_orign := vv_orign v @ map (\<lambda>x. VariableOrigin n (f x)) os\<rparr>"
  by (induction os arbitrary: v) (auto simp: addOrigin_args_def)

lemma VariableValue_copy_eq: "VariableValue_copy v = v"
  by (simp add: VariableValue_copy_def fold_addOrigin reserveOrigin_def)

text \<open>The stored full key always agrees with the stored collection and key.\<close>

definition value_wf :: "variable_value \<Rightarrow> bool" where
  "value_wf v \<longleftrightarrow> getKeyWithCollection v = getCollection v @ '':'' @ getKey v
     \<or> getCollection v = '''' \<and> getKeyWithCollection v = getKey v"

lemmas value_defs = getKeyWithCollection_def getCollection_def getKey_def getValue_def
  getOrigin_def setValue_def addOrigin_def addOrigin_args_def reserveOrigin_def

lemma value_wf_preserved:
  "value_wf (VariableValue_key k x)"
  "value_wf (VariableValue_coll c k y)"
  "value_wf v \<Longrightarrow> value_wf (VariableValue_copy v)"
  "value_wf v \<Longrightarrow> value_wf (setValue y v)"
  "value_wf v \<Longrightarrow> value_wf (addOrigin o' v)"
  "value_wf v \<Longrightarrow> value_wf (addOrigin_args m n v)"
  "value_wf v \<Longrightarrow> value_wf (reserveOrigin i v)"
  by (auto simp: value_wf_def value_defs VariableValue_key_def VariableValue_coll_def
      VariableValue_copy_eq)

section \<open>Case-insensitive keys\<close>

text \<open>What a hashed container needs of its comparison and its hash.\<close>

locale hashed_keys =
  fixes eq :: "'k \<Rightarrow> 'k \<Rightarrow> bool" and hash :: "'k \<Rightarrow> 'n::len word"
  assumes eq_refl: "eq a a"
    and eq_sym: "eq a b \<Longrightarrow> eq b a"
    and eq_trans: "eq a b \<Longrightarrow> eq b c \<Longrightarrow> eq a c"
    and hash_eq: "eq a b \<Longrightarrow> hash a = hash b"
begin

text \<open>Searching only the key's bucket finds every entry with an equal key.\<close>

lemma bucket_complete:
  "[x \<leftarrow> xs. hash (fst x) mod n = hash k mod n \<and> eq (fst x) k] = [x \<leftarrow> xs. eq (fst x) k]"
  by (rule filter_cong) (auto simp: hash_eq)

lemma eq_class: "eq a b \<Longrightarrow> eq a c \<longleftrightarrow> eq b c"
  using eq_sym eq_trans by blast

end

text \<open>
  What the two functors are meant to compute, without \<open>tolower\<close>: two bytes are the same up to case
  if they are equal or one is a capital letter of ASCII and the other its small one, 32 above it.
\<close>

definition capitals :: "char set" where
  "capitals = set ''ABCDEFGHIJKLMNOPQRSTUVWXYZ''"

definition same_letter :: "char \<Rightarrow> char \<Rightarrow> bool" where
  "same_letter a b \<longleftrightarrow> a = b
     \<or> (a \<in> capitals \<and> of_char b = (of_char a + 32 :: nat))
     \<or> (b \<in> capitals \<and> of_char a = (of_char b + 32 :: nat))"

lemma capitals_codes: "a \<in> capitals \<longleftrightarrow> of_char a \<in> {65..90::nat}"
proof
  have "char_of ` {65..90::nat} = capitals"
    by (simp add: capitals_def atLeastAtMost_upt upt_rec char_of_def bit_iff_odd)
  moreover assume "of_char a \<in> {65..90::nat}"
  then have "char_of (of_char a :: nat) \<in> char_of ` {65..90::nat}" by (rule imageI)
  ultimately show "a \<in> capitals" by simp
qed (auto simp: capitals_def)

lemma tolower_capital: "tolower a = of_char a + (if a \<in> capitals then 32 else 0)"
  unfolding capitals_codes by (simp add: tolower_def Let_def)

lemma tolower_eq_iff: "tolower a = tolower b \<longleftrightarrow> same_letter a b"
  by (auto simp: tolower_def same_letter_def capitals_codes Let_def)

lemma MyEqual_iff: "MyEqual a b \<longleftrightarrow> list_all2 same_letter a b"
  by (auto simp: MyEqual_def tolower_eq_iff list_all2_lengthD)

lemma fold_hash_sum:
  "fold (\<lambda>c h. h + word_of_nat (tolower c)) xs (h :: size_t) = h + word_of_nat (sum_list (map tolower xs))"
  by (induction xs arbitrary: h) (simp_all add: add.assoc)

lemma MyHash_sum: "MyHash k = word_of_nat (sum_list (map tolower k))"
  by (simp add: MyHash_def fold_hash_sum)

lemma tolower_sum:
  "sum_list (map tolower k)
     = (\<Sum>c \<leftarrow> k. of_char c) + 32 * length [c \<leftarrow> k. c \<in> capitals]"
  by (induction k) (simp_all add: tolower_capital)

lemma MyHash_value:
  "unat (MyHash k) = ((\<Sum>c \<leftarrow> k. of_char c) + 32 * length [c \<leftarrow> k. c \<in> capitals]) mod 2 ^ 64"
  unfolding MyHash_sum tolower_sum unat_of_nat by simp

lemma list_all2_map_tolower: "list_all2 same_letter a b \<longleftrightarrow> map tolower a = map tolower b"
  by (auto simp: list_all2_conv_all_nth tolower_eq_iff [symmetric] list_eq_iff_nth_eq)

interpretation ci: hashed_keys MyEqual MyHash
  by unfold_locales (simp_all add: MyEqual_iff MyHash_sum list_all2_map_tolower)

section \<open>The translation proxy\<close>

lemma translated_eq:
  "translated name v = \<lparr>vv_orign = map (\<lambda>x. VariableOrigin (word_of_nat (length (getKey v)))
       (vo_offset x - word_of_nat (length (getKey v)) - 1)) (getOrigin v),
     vv_collection = name, vv_key = getKey v, vv_keyWithCollection = name @ '':'' @ getKey v,
     vv_value = getKey v\<rparr>"
  by (simp add: translated_def reserveOrigin_def Let_def fold_addOrigin_args VariableValue_coll_def)

lemma translated_cases:
  "(\<exists>v. r = Inr v \<and> r' = Inr (translated name v)) \<longleftrightarrow>
   (\<exists>origins collection key kwc value.
      r = Inr \<lparr>vv_orign = origins, vv_collection = collection, vv_key = key,
        vv_keyWithCollection = kwc, vv_value = value\<rparr>
      \<and> r' = Inr \<lparr>
          vv_orign = [\<lparr>vo_length = word_of_nat (length key),
            vo_offset = vo_offset x - word_of_nat (length key) - 1\<rparr>. x \<leftarrow> origins],
          vv_collection = name, vv_key = key,
          vv_keyWithCollection = name @ '':'' @ key, vv_value = key\<rparr>)"
proof -
  have "(\<exists>v. P v) \<longleftrightarrow> (\<exists>os c k kwc x. P \<lparr>vv_orign = os, vv_collection = c, vv_key = k,
      vv_keyWithCollection = kwc, vv_value = x\<rparr>)" for P :: "variable_value \<Rightarrow> bool"
    by (metis variable_value.cases)
  then show ?thesis
    by (simp add: translated_eq getKey_def getOrigin_def VariableOrigin_def)
qed

lemma translate_at_spec:
  assumes ok: "store_ok h" and p: "p \<in> live h"
  shows "\<exists>q h'. translate_at name h p = Inr (q, h') \<and> q \<notin> live h
    \<and> live h' = insert q (live h - {p}) \<and> store_ok h'
    \<and> (\<exists>v. read_obj h p = Inr v \<and> read_obj h' q = Inr (translated name v))
    \<and> (\<forall>b. b \<noteq> q \<longrightarrow> b \<noteq> p \<longrightarrow> read_obj h' b = read_obj h b)"
proof -
  obtain v where v: "read_obj h p = Inr v" using p obj.read_live [of p h] by auto
  obtain q h1 where new: "new_obj h (VariableValue_coll name (getKey v) (getKey v)) = (q, h1)"
    by fastforce
  note a = obj.alloc_fresh [OF ok new] obj.alloc_live [OF ok new] obj.alloc_ok [OF ok new]
    obj.alloc_read [OF ok new]
  obtain h2 where h2: "write_obj h1 q (translated name v) = Inr h2" "live h2 = live h1" "store_ok h2"
      "\<forall>b. read_obj h2 b = (if b = q then Inr (translated name v) else read_obj h1 b)"
    using obj.put_live [of q h1 "translated name v"] a(2,3) by blast
  obtain h3 where h3: "delete_obj h2 p = Inr h3" "live h3 = live h2 - {p}" "store_ok h3"
      "\<forall>b. b \<noteq> p \<longrightarrow> read_obj h3 b = read_obj h2 b"
    using obj.dealloc_live [of p h2] a(2) h2(2,3) p by blast
  have "translate_at name h p = Inr (q, h3)"
    by (simp add: translate_at_def v new h2(1) h3(1))
  moreover have "q \<noteq> p" using a(1) p by auto
  moreover have "live h3 = insert q (live h - {p})" using h3(2) h2(2) a(2) \<open>q \<noteq> p\<close> by auto
  moreover have "read_obj h3 q = Inr (translated name v)" using h3(4) h2(4) \<open>q \<noteq> p\<close> by simp
  moreover have "\<forall>b. b \<noteq> q \<longrightarrow> b \<noteq> p \<longrightarrow> read_obj h3 b = read_obj h b"
    using h3(4) h2(4) a(4) by simp
  ultimately show ?thesis using a(1) h3(3) v by blast
qed

text \<open>
  The whole loop: with pairwise different live pointers nothing faults, every old value is deleted,
  every new one is live and holds the translation of the value at the same position.
\<close>

lemma translate_spec:
  assumes "store_ok h" and "distinct ps" and "set ps \<subseteq> live h"
  shows "\<exists>qs h'. translate name h ps = Inr (qs, h') \<and> distinct qs
    \<and> set qs \<inter> (live h - set ps) = {} \<and> live h' = (live h - set ps) \<union> set qs \<and> store_ok h'
    \<and> list_all2 (\<lambda>p q. \<exists>v. read_obj h p = Inr v \<and> read_obj h' q = Inr (translated name v)) ps qs
    \<and> (\<forall>b \<in> live h - set ps. read_obj h' b = read_obj h b)"
  using assms
proof (induction ps arbitrary: h)
  case (Cons p ps)
  from Cons.prems have p: "p \<in> live h" "p \<notin> set ps" by auto
  from translate_at_spec [OF Cons.prems(1) p(1), of name] obtain q h1 v where
    q: "translate_at name h p = Inr (q, h1)" "q \<notin> live h" "live h1 = insert q (live h - {p})"
      "store_ok h1" "read_obj h p = Inr v" "read_obj h1 q = Inr (translated name v)"
      "\<forall>b. b \<noteq> q \<longrightarrow> b \<noteq> p \<longrightarrow> read_obj h1 b = read_obj h b"
    by blast
  have ps1: "set ps \<subseteq> live h1" using Cons.prems p q(3) by auto
  from Cons.IH [OF q(4) _ ps1] Cons.prems(2) obtain qs h2 where
    qs: "translate name h1 ps = Inr (qs, h2)" "distinct qs"
      "set qs \<inter> (live h1 - set ps) = {}" "live h2 = (live h1 - set ps) \<union> set qs" "store_ok h2"
      "list_all2 (\<lambda>p q. \<exists>v. read_obj h1 p = Inr v \<and> read_obj h2 q = Inr (translated name v)) ps qs"
      "\<forall>b \<in> live h1 - set ps. read_obj h2 b = read_obj h1 b"
    by auto
  have psq: "q \<notin> set ps" using q(2) Cons.prems(3) by auto
  have "read_obj h1 x = read_obj h x" if "x \<in> set ps" for x
    using that psq p(2) q(7) by metis
  then have all2: "list_all2 (\<lambda>p q. \<exists>v. read_obj h p = Inr v \<and> read_obj h2 q = Inr (translated name v)) ps qs"
    using qs(6) by (auto simp: list_all2_conv_all_nth)
  have hd: "read_obj h2 q = Inr (translated name v)"
    using qs(7) q(3,6) psq by auto
  have frame: "\<forall>b \<in> live h - set (p # ps). read_obj h2 b = read_obj h b"
    using qs(7) q(2,3,7) by auto
  have dis: "set (q # qs) \<inter> (live h - set (p # ps)) = {}" "q \<notin> set qs"
      "live h2 = (live h - set (p # ps)) \<union> set (q # qs)"
    using qs(3,4) q(2,3) psq p by auto
  have "translate name h (p # ps) = Inr (q # qs, h2)"
    by (simp add: q(1) qs(1))
  then show ?case
    using dis qs(2,5) all2 hd q(5) frame by (intro exI [of _ "q # qs"] exI [of _ h2]) auto
qed simp

text \<open>
  What the code relies on when it asks the wrapped set variable to resolve: the list of results is
  extended by pointers to new objects, everything that was live stays as it was.
\<close>

definition adds_fresh_values :: "resolver \<Rightarrow> bool" where
  "adds_fresh_values f \<longleftrightarrow> (\<forall>h l. store_ok h \<longrightarrow> distinct l \<longrightarrow> set l \<subseteq> live h \<longrightarrow>
     (let (l', h') = f h l in store_ok h' \<and> distinct l' \<and> set l \<subseteq> set l'
        \<and> set l' \<inter> live h = set l \<and> live h' = live h \<union> set l'
        \<and> (\<forall>b \<in> live h. read_obj h' b = read_obj h b)))"

lemma adds_fresh_valuesD:
  assumes "adds_fresh_values f" and "store_ok h" and "distinct l" and "set l \<subseteq> live h"
    and "f h l = (l', h')"
  shows "store_ok h'" and "distinct l'" and "set l \<subseteq> set l'" and "set l' \<inter> live h = set l"
    and "live h' = live h \<union> set l'" and "\<forall>b \<in> live h. read_obj h' b = read_obj h b"
  using assms unfolding adds_fresh_values_def Let_def by fastforce+

lemma adds_fresh_values_push:
  "adds_fresh_values (\<lambda>h l. let (a, h') = new_obj h v in (a # l, h'))"
  unfolding adds_fresh_values_def
proof (intro allI impI)
  fix h :: value_store and l
  assume ok: "store_ok h" and d: "distinct l" and l: "set l \<subseteq> live h"
  obtain a h' where new: "new_obj h v = (a, h')" by fastforce
  note n = obj.alloc_fresh [OF ok new] obj.alloc_live [OF ok new] obj.alloc_ok [OF ok new]
    obj.alloc_read [OF ok new]
  show "let (l', h') = (let (a, h') = new_obj h v in (a # l, h')) in store_ok h' \<and> distinct l'
      \<and> set l \<subseteq> set l' \<and> set l' \<inter> live h = set l \<and> live h' = live h \<union> set l'
      \<and> (\<forall>b \<in> live h. read_obj h' b = read_obj h b)"
    using n d l by (auto simp: new)
qed

lemma tp_resolve_spec:
  assumes f: "adds_fresh_values (asv_resolve ops (tp_fount px))" and ok: "store_ok h"
    and l: "distinct l" "set l \<subseteq> live h" and r: "asv_resolve ops (tp_fount px) h l = (l1, h1)"
  shows "\<exists>l' h'. tp_resolve ops px h l = Inr (l', h') \<and> distinct l' \<and> store_ok h'
    \<and> live h' = (live h - set l) \<union> set l' \<and> set l' \<inter> (live h - set l) = {}
    \<and> list_all2 (\<lambda>p q. \<exists>v. read_obj h1 p = Inr v
         \<and> read_obj h' q = Inr (translated (tp_name px) v)) l1 l'
    \<and> (\<forall>b \<in> live h - set l. read_obj h' b = read_obj h b)"
proof -
  note r' = adds_fresh_valuesD [OF f ok l r]
  have sub: "set l1 \<subseteq> live h1" using r'(5) by auto
  obtain l' h' where t: "translate (tp_name px) h1 l1 = Inr (l', h')" "distinct l'"
      "set l' \<inter> (live h1 - set l1) = {}" "live h' = (live h1 - set l1) \<union> set l'" "store_ok h'"
      "list_all2 (\<lambda>p q. \<exists>v. read_obj h1 p = Inr v \<and> read_obj h' q = Inr (translated (tp_name px) v)) l1 l'"
      "\<forall>b \<in> live h1 - set l1. read_obj h' b = read_obj h1 b"
    using translate_spec [OF r'(1,2) sub, of "tp_name px"] by blast
  have dom: "live h1 - set l1 = live h - set l" using r'(3,4,5) l(2) by auto
  have "tp_resolve ops px h l = Inr (l', h')" by (simp add: tp_resolve_def r t(1))
  then show ?thesis using t r'(6) unfolding dom by auto
qed

section \<open>Properties\<close>

text \<open>
  C36: the case-insensitive comparison and the hash of \<open>AnchoredSetVariable\<close> fit together: for any
  number \<open>n\<close> of buckets, looking only at the entries of the key's own bucket finds, in the same order,
  exactly the entries whose key is as long as the sought one and agrees with it in every byte up to
  the case of an ASCII letter.  The hash that chooses the bucket is the sum, modulo \<open>2\<^sup>6\<^sup>4\<close>, of the byte
  codes with 32 added for every capital letter.
\<close>

theorem anchored_set_bucket_search_complete:
  "[x \<leftarrow> xs. MyHash (fst x) mod n = MyHash k mod n \<and> MyEqual (fst x) k]
     = [x \<leftarrow> xs. list_all2 same_letter (fst x) k]
   \<and> unat (MyHash k) = ((\<Sum>c \<leftarrow> k. of_char c)
       + 32 * length [c \<leftarrow> k. c \<in> capitals]) mod 2 ^ 64"
  using ci.bucket_complete [of n k xs]
  by (simp add: MyEqual_iff MyHash_value)

text \<open>
  the textual form \<open>v<offset>,<length>\<close> of an origin determines the origin: two origins have the
  same text only if they have the same offset and the same length.
\<close>

theorem origin_text_determines_origin:
  "toText a = toText b \<longleftrightarrow> vo_offset a = vo_offset b \<and> vo_length a = vo_length (b :: variable_origin)"
  unfolding toText_inject_iff by auto

text \<open>
  C26: \<open>resolve\<close> of the translation proxy never touches freed memory and never frees twice, provided
  the wrapped set variable adds pointers to new objects to the list.  Every entry of the list,
  also an entry that was there before the call, is replaced by a new object: its collection is the
  proxy's name, its key and its value are both the old entry's key, and for every origin of the old
  entry it has one of the key's length that starts the key's length and one byte earlier.  The old
  objects are released, every other object is left as it was.
\<close>

theorem translation_proxy_resolve:
  assumes "adds_fresh_values (asv_resolve ops (tp_fount px))" and "store_ok h"
    and "distinct l" and "set l \<subseteq> live h" and "asv_resolve ops (tp_fount px) h l = (l1, h1)"
  shows "\<exists>l' h'. tp_resolve ops px h l = Inr (l', h') \<and> distinct l' \<and> store_ok h'
    \<and> live h' = (live h - set l) \<union> set l' \<and> set l' \<inter> (live h - set l) = {}
    \<and> list_all2 (\<lambda>p q. \<exists>origins collection key kwc value.
         read_obj h1 p = Inr \<lparr>vv_orign = origins, vv_collection = collection, vv_key = key,
           vv_keyWithCollection = kwc, vv_value = value\<rparr>
         \<and> read_obj h' q = Inr \<lparr>
             vv_orign = [\<lparr>vo_length = word_of_nat (length key),
               vo_offset = vo_offset x - word_of_nat (length key) - 1\<rparr>. x \<leftarrow> origins],
             vv_collection = tp_name px, vv_key = key,
             vv_keyWithCollection = tp_name px @ '':'' @ key, vv_value = key\<rparr>) l1 l'
    \<and> (\<forall>b \<in> live h - set l. read_obj h' b = read_obj h b)"
  using tp_resolve_spec [OF assms] unfolding translated_cases by blast

definition push_ops :: "variable_value \<Rightarrow> (unit, unit) set_variable_ops" where
  "push_ops v = (let push = (\<lambda>h l. let (a, h') = new_obj h v in (a # l, h')) in
     \<lparr>asv_unset = \<lambda>s h. (s, h), asv_set = \<lambda>s k x n h. (s, h), asv_set_len = \<lambda>s k x n m h. (s, h),
      asv_setCopy = \<lambda>s k x n h. (s, h), asv_resolve = \<lambda>s. push, asv_resolve_ke = \<lambda>s ke. push,
      asv_resolve_key = \<lambda>s k. push, asv_resolveRegularExpression = \<lambda>s r. push,
      asv_resolveRegularExpression_ke = \<lambda>s r ke. push, asv_resolveFirst = \<lambda>s k h. None\<rparr>)"

definition sample_proxy :: translation_proxy where
  "sample_proxy = \<lparr>tp_name = ''ARGS_NAMES'',
     tp_fount = \<lparr>asv_entries = [], asv_transaction = None, asv_name = ''ARGS''\<rparr>\<rparr>"

definition sample_value :: variable_value where
  "sample_value = addOrigin (VariableOrigin 4 9) (VariableValue_coll ''ARGS'' ''id'' ''1234'')"

lemma push_ops_fresh: "adds_fresh_values (asv_resolve (push_ops v) s)"
  using adds_fresh_values_push by (simp add: push_ops_def Let_def)

lemma push_ops_empty:
  "asv_resolve (push_ops v) s empty_store [] = ([0], snd (new_obj empty_store v))"
  by (simp add: push_ops_def new_obj_def empty_store_def Let_def)

lemma tp_name_sample: "tp_name sample_proxy = ''ARGS_NAMES''"
  by (simp add: sample_proxy_def)

lemma read_sample: "read_obj (snd (new_obj empty_store sample_value)) 0 = Inr \<lparr>
    vv_orign = [\<lparr>vo_length = 4, vo_offset = 9\<rparr>], vv_collection = ''ARGS'', vv_key = ''id'',
    vv_keyWithCollection = ''ARGS:id'', vv_value = ''1234''\<rparr>"
  by (simp add: read_obj_def new_obj_def empty_store_def sample_value_def addOrigin_def
      VariableValue_coll_def VariableOrigin_def)

theorem translation_proxy_resolve_witness:
  "\<exists>q h'. tp_resolve (push_ops sample_value) sample_proxy empty_store [] = Inr ([q], h')
    \<and> store_ok h' \<and> live h' = {q} \<and> read_obj h' q = Inr \<lparr>
        vv_orign = [\<lparr>vo_length = 2, vo_offset = 6\<rparr>], vv_collection = ''ARGS_NAMES'',
        vv_key = ''id'', vv_keyWithCollection = ''ARGS_NAMES:id'', vv_value = ''id''\<rparr>"
  using translation_proxy_resolve [OF push_ops_fresh _ _ _ push_ops_empty, of sample_value sample_proxy]
  by (auto simp: tp_name_sample read_sample list_all2_Cons1)

text \<open>
  \<open>resolveFirst\<close> of the translation proxy is memory safe and leaks nothing: afterwards exactly
  the objects that were live before are live, with the same contents.  It returns nothing if the
  wrapped variable resolves to nothing, and otherwise the key of the first resolved value, whatever
  key it was asked for.
\<close>

theorem translation_proxy_resolveFirst:
  assumes f: "adds_fresh_values (asv_resolve ops (tp_fount px))" and ok: "store_ok h"
    and r: "asv_resolve ops (tp_fount px) h [] = (l1, h1)"
  shows "\<exists>h'. tp_resolveFirst ops px key h
      = Inr (case l1 of [] \<Rightarrow> None | p # _ \<Rightarrow> map_option getKey (cells h1 p), h')
    \<and> store_ok h' \<and> live h' = live h \<and> (\<forall>b \<in> live h. read_obj h' b = read_obj h b)"
proof -
  from tp_resolve_spec [OF f ok _ _ r] obtain l' h2 where
    l': "tp_resolve ops px h [] = Inr (l', h2)" "distinct l'" "store_ok h2"
      "live h2 = live h \<union> set l'" "set l' \<inter> live h = {}"
      "list_all2 (\<lambda>p q. \<exists>v. read_obj h1 p = Inr v
         \<and> read_obj h2 q = Inr (translated (tp_name px) v)) l1 l'"
      "\<forall>b \<in> live h. read_obj h2 b = read_obj h b"
    by auto
  show ?thesis
  proof (cases l1)
    case Nil
    with l' show ?thesis by (auto simp: tp_resolveFirst_def)
  next
    case (Cons p ps)
    with l'(6) obtain q qs v where q: "l' = q # qs" "read_obj h1 p = Inr v"
        "read_obj h2 q = Inr (translated (tp_name px) v)"
      by (auto simp: list_all2_Cons1)
    from obj.dealloc_all [OF l'(2), of h2] l'(4) obtain h3 where
      h3: "fold_res delete_obj h2 l' = Inr h3" "live h3 = live h2 - set l'" "store_ok h3"
        "\<forall>b. b \<notin> set l' \<longrightarrow> read_obj h3 b = read_obj h2 b"
      using l'(3) by auto
    have "cells h1 p = Some v" using q(2) by (auto simp: read_obj_def split: option.splits)
    moreover have "tp_resolveFirst ops px key h = Inr (Some (getKey v), h3)"
      using q(3) h3(1) by (simp add: tp_resolveFirst_def l'(1) q(1) translated_eq getValue_def)
    moreover have "live h3 = live h" using h3(2) l'(4,5) by auto
    ultimately show ?thesis using Cons h3(3,4) l'(5,7) by auto
  qed
qed

theorem translation_proxy_resolveFirst_witness:
  "\<exists>h'. tp_resolveFirst (push_ops sample_value) sample_proxy ''other'' empty_store
      = Inr (Some ''id'', h') \<and> store_ok h' \<and> live h' = {}"
  using translation_proxy_resolveFirst [OF push_ops_fresh _ push_ops_empty, of sample_value sample_proxy
      "''other''"]
  by (simp add: new_obj_def empty_store_simps [unfolded empty_store_def] empty_store_def
      sample_value_def getKey_def addOrigin_def VariableValue_coll_def)

text \<open>
  C37: the offsets that the proxy computes are those of the name in front of the value: for an origin
  whose offset lies beyond the key and its separator, the new origin starts the key's length plus
  one byte earlier and has the key's length.  For a smaller offset the unsigned subtraction wraps
  around to a position near \<open>2\<^sup>6\<^sup>4\<close>.
\<close>

theorem translated_origin_offsets:
  assumes "i < length (getOrigin v)" and "length (getKey v) < 2 ^ 64 - 1"
  shows "unat (vo_length (getOrigin (translated name v) ! i)) = length (getKey v)
    \<and> unat (vo_offset (getOrigin (translated name v) ! i)) =
      (if length (getKey v) < unat (vo_offset (getOrigin v ! i))
       then unat (vo_offset (getOrigin v ! i)) - (length (getKey v) + 1)
       else 2 ^ 64 + unat (vo_offset (getOrigin v ! i)) - (length (getKey v) + 1))"
proof
  let ?n = "length (getKey v)" and ?o = "vo_offset (getOrigin v ! i)"
  have n: "unat (word_of_nat ?n + 1 :: size_t) = ?n + 1"
    using assms(2) by (simp add: unat_word_ariths unat_of_nat)
  have n0: "unat (word_of_nat ?n :: size_t) = ?n"
    using assms(2) by (simp add: unat_of_nat)
  then show "unat (vo_length (getOrigin (translated name v) ! i)) = ?n"
    using assms(1) by (simp add: translated_eq getOrigin_def VariableOrigin_def)
  have o': "vo_offset (getOrigin (translated name v) ! i) = ?o - (word_of_nat ?n + 1)"
    using assms(1) by (simp add: translated_eq getOrigin_def VariableOrigin_def)
  show "unat (vo_offset (getOrigin (translated name v) ! i)) =
      (if ?n < unat ?o then unat ?o - (?n + 1) else 2 ^ 64 + unat ?o - (?n + 1))"
    unfolding o' using n
    by (auto simp: unat_sub_if' n)
qed

theorem translated_origin_offsets_witness:
  "unat (vo_offset (getOrigin (translated ''ARGS_NAMES'' sample_value) ! 0)) = 6
   \<and> unat (vo_length (getOrigin (translated ''ARGS_NAMES'' sample_value) ! 0)) = 2"
  using translated_origin_offsets [of 0 sample_value "''ARGS_NAMES''"]
  by (simp add: sample_value_def value_defs VariableValue_coll_def VariableOrigin_def)

lemma tp_resolveFirst_ignores_key: "tp_resolveFirst ops px k h = tp_resolveFirst ops px k' h"
  by (simp add: tp_resolveFirst_def)

end
