(* ===== verification/MS_Engine.thy ===== *)
theory MS_Engine
  imports Wafie_Prelude
begin

text \<open>
  The engine-wide headers: the phases, version, log properties and engine object of
  \<open>modsecurity.h\<close>, the intervention record of \<open>intervention.h\<close> with its pointer handling (over the
  store of C strings), the debug log of \<open>debug_log.h\<close> and the audit log of \<open>audit_log.h\<close>.
  Members that the headers only declare are fields of the parameter records \<open>engine_ops\<close>,
  \<open>debug_log_ops\<close> and \<open>audit_log_ops\<close>.
\<close>

unbundle bit_operations_syntax

section \<open>modsecurity.h\<close>

datatype phases =
    ConnectionPhase
  | UriPhase
  | RequestHeadersPhase
  | RequestBodyPhase
  | ResponseHeadersPhase
  | ResponseBodyPhase
  | LoggingPhase
  | NUMBER_OF_PHASES

text \<open>The enumerators count from 0.\<close>

fun phase_num :: "phases \<Rightarrow> nat" where
  "phase_num ConnectionPhase = 0"
| "phase_num UriPhase = 1"
| "phase_num RequestHeadersPhase = 2"
| "phase_num RequestBodyPhase = 3"
| "phase_num ResponseHeadersPhase = 4"
| "phase_num ResponseBodyPhase = 5"
| "phase_num LoggingPhase = 6"
| "phase_num NUMBER_OF_PHASES = 7"

lemma phase_num_inject [simp]: "phase_num p = phase_num q \<longleftrightarrow> p = q"
  by (cases p; cases q) simp_all

instantiation phases :: linorder
begin

definition less_eq_phases :: "phases \<Rightarrow> phases \<Rightarrow> bool" where
  "less_eq_phases p q \<longleftrightarrow> phase_num p \<le> phase_num q"

definition less_phases :: "phases \<Rightarrow> phases \<Rightarrow> bool" where
  "less_phases p q \<longleftrightarrow> phase_num p < phase_num q"

instance
  by standard (auto simp: less_eq_phases_def less_phases_def)

end

definition MODSECURITY_VERSION :: string where
  "MODSECURITY_VERSION = ''3'' @ ''.'' @ ''0'' @ ''.'' @ ''14'' @ ''''"

definition MODSECURITY_VERSION_NUM :: int where
  "MODSECURITY_VERSION_NUM = 30140100"

definition MODSECURITY_CHECK_VERSION :: "int \<Rightarrow> bool" where
  "MODSECURITY_CHECK_VERSION a \<longleftrightarrow> MODSECURITY_VERSION_NUM \<le> a"

datatype LogProperty = TextLogProperty | RuleMessageLogProperty | IncludeFullHighlightLogProperty

fun log_property_num :: "LogProperty \<Rightarrow> cint" where
  "log_property_num TextLogProperty = 1"
| "log_property_num RuleMessageLogProperty = 2"
| "log_property_num IncludeFullHighlightLogProperty = 4"

record ModSecurity =
  ms_global_collection :: ptr
  ms_resource_collection :: ptr
  ms_ip_collection :: ptr
  ms_session_collection :: ptr
  ms_user_collection :: ptr
  ms_connector :: string
  ms_whoami :: string
  ms_logCb :: ptr
  ms_logProperties :: cint

text \<open>The members of the class; \<open>'msg\<close> are rule messages.\<close>

record 'msg engine_ops =
  op_ModSecurity :: ModSecurity
  op_whoAmI :: "ModSecurity \<Rightarrow> string"
  op_setConnectorInformation :: "string \<Rightarrow> ModSecurity \<Rightarrow> ModSecurity"
  op_setServerLogCb :: "ptr \<Rightarrow> ModSecurity \<Rightarrow> ModSecurity"
  op_setServerLogCb_props :: "ptr \<Rightarrow> cint \<Rightarrow> ModSecurity \<Rightarrow> ModSecurity"
  op_serverLog :: "ptr \<Rightarrow> 'msg \<Rightarrow> ModSecurity \<Rightarrow> ModSecurity"
  op_getConnectorInformation :: "ModSecurity \<Rightarrow> string"
  op_processContentOffset :: "string \<Rightarrow> size_t \<Rightarrow> string \<Rightarrow> cint \<times> string \<times> string option"

section \<open>intervention.h\<close>

record ModSecurityIntervention =
  it_status :: cint
  it_pause :: cint
  it_url :: ptr
  it_log :: ptr
  it_disruptive :: cint

type_synonym cstring_store = "string store"

definition reset :: "ModSecurityIntervention \<Rightarrow> ModSecurityIntervention" where
  "reset i = i\<lparr>it_status := 200, it_pause := 0, it_disruptive := 0\<rparr>"

definition clean :: "ModSecurityIntervention \<Rightarrow> ModSecurityIntervention" where
  "clean i = reset (i\<lparr>it_url := None, it_log := None\<rparr>)"

definition freeUrl :: "cstring_store \<Rightarrow> ModSecurityIntervention \<Rightarrow>
    (cstring_store \<times> ModSecurityIntervention) res" where
  "freeUrl h i = (case it_url i of None \<Rightarrow> Inr (h, i)
     | Some p \<Rightarrow> bind_res (delete_obj h p) (\<lambda>h'. Inr (h', i\<lparr>it_url := None\<rparr>)))"

definition freeLog :: "cstring_store \<Rightarrow> ModSecurityIntervention \<Rightarrow>
    (cstring_store \<times> ModSecurityIntervention) res" where
  "freeLog h i = (case it_log i of None \<Rightarrow> Inr (h, i)
     | Some p \<Rightarrow> bind_res (delete_obj h p) (\<lambda>h'. Inr (h', i\<lparr>it_log := None\<rparr>)))"

definition free_intervention :: "cstring_store \<Rightarrow> ModSecurityIntervention \<Rightarrow>
    (cstring_store \<times> ModSecurityIntervention) res" where
  "free_intervention h i = bind_res (freeUrl h i) (\<lambda>(h1, i1). freeLog h1 i1)"

section \<open>debug_log.h\<close>

record DebugLog =
  dl_debugLevel :: cint
  dl_fileName :: string

definition DebugLog0 :: DebugLog where
  "DebugLog0 = \<lparr>dl_debugLevel = -1, dl_fileName = ''''\<rparr>"

text \<open>The virtual members; a setter that reports through \<open>error\<close> returns the text it appended.\<close>

record debug_log_ops =
  dl_write :: "cint \<Rightarrow> string \<Rightarrow> DebugLog \<Rightarrow> DebugLog"
  dl_write_uri :: "cint \<Rightarrow> string \<Rightarrow> string \<Rightarrow> string \<Rightarrow> DebugLog \<Rightarrow> DebugLog"
  dl_isLogFileSet :: "DebugLog \<Rightarrow> bool"
  dl_isLogLevelSet :: "DebugLog \<Rightarrow> bool"
  dl_setDebugLogLevel :: "cint \<Rightarrow> DebugLog \<Rightarrow> DebugLog"
  dl_setDebugLogFile :: "string \<Rightarrow> DebugLog \<Rightarrow> DebugLog \<times> string"
  dl_getDebugLogFile :: "DebugLog \<Rightarrow> string"
  dl_getDebugLogLevel :: "DebugLog \<Rightarrow> cint"

section \<open>audit_log.h\<close>

datatype AuditLogType =
    NotSetAuditLogType | SerialAuditLogType | ParallelAuditLogType | HttpsAuditLogType

datatype AuditLogStatus =
    NotSetLogStatus | OnAuditLogStatus | OffAuditLogStatus | RelevantOnlyAuditLogStatus

datatype AuditLogFormat = NotSetAuditLogFormat | JSONAuditLogFormat | NativeAuditLogFormat

datatype AuditLogParts =
    AAuditLogPart | BAuditLogPart | CAuditLogPart | DAuditLogPart | EAuditLogPart
  | FAuditLogPart | GAuditLogPart | HAuditLogPart | IAuditLogPart | JAuditLogPart
  | KAuditLogPart | ZAuditLogPart

fun part_num :: "AuditLogParts \<Rightarrow> cint" where
  "part_num AAuditLogPart = 2"
| "part_num BAuditLogPart = 4"
| "part_num CAuditLogPart = 8"
| "part_num DAuditLogPart = 16"
| "part_num EAuditLogPart = 32"
| "part_num FAuditLogPart = 64"
| "part_num GAuditLogPart = 128"
| "part_num HAuditLogPart = 256"
| "part_num IAuditLogPart = 512"
| "part_num JAuditLogPart = 1024"
| "part_num KAuditLogPart = 2048"
| "part_num ZAuditLogPart = 4096"

record AuditLog =
  al_path1 :: string
  al_path2 :: string
  al_storage_dir :: string
  al_format :: AuditLogFormat
  al_parts :: cint
  al_filePermission :: cint
  al_directoryPermission :: cint
  al_status :: AuditLogStatus
  al_type :: AuditLogType
  al_relevant :: string
  al_writer :: ptr
  al_ctlAuditEngineActive :: bool

text \<open>The in-class initialisers of the default members.\<close>

definition m_defaultParts :: cint where
  "m_defaultParts = part_num AAuditLogPart OR part_num BAuditLogPart OR part_num CAuditLogPart
     OR part_num FAuditLogPart OR part_num HAuditLogPart OR part_num ZAuditLogPart"

definition m_defaultFilePermission :: cint where
  "m_defaultFilePermission = 6 * 8 ^ 2 + 4 * 8"  \<comment> \<open>the octal literal \<open>0640\<close>\<close>

definition m_defaultDirectoryPermission :: cint where
  "m_defaultDirectoryPermission = 7 * 8 ^ 2 + 5 * 8"  \<comment> \<open>the octal literal \<open>0750\<close>\<close>

definition setCtlAuditEngineActive :: "AuditLog \<Rightarrow> AuditLog" where
  "setCtlAuditEngineActive a = a\<lparr>al_ctlAuditEngineActive := True\<rparr>"

text \<open>
  The declared members; \<open>merge\<close> and \<open>init\<close> return the text they leave in \<open>error\<close>, and the
  argument of \<open>merge\<close> is a pointer, which may be null.
\<close>

record audit_log_ops =
  op_AuditLog :: AuditLog
  op_setStorageDirMode :: "cint \<Rightarrow> AuditLog \<Rightarrow> bool \<times> AuditLog"
  op_setFileMode :: "cint \<Rightarrow> AuditLog \<Rightarrow> bool \<times> AuditLog"
  op_setStatus :: "AuditLogStatus \<Rightarrow> AuditLog \<Rightarrow> bool \<times> AuditLog"
  op_setRelevantStatus :: "string \<Rightarrow> AuditLog \<Rightarrow> bool \<times> AuditLog"
  op_setFilePath1 :: "string \<Rightarrow> AuditLog \<Rightarrow> bool \<times> AuditLog"
  op_setFilePath2 :: "string \<Rightarrow> AuditLog \<Rightarrow> bool \<times> AuditLog"
  op_setStorageDir :: "string \<Rightarrow> AuditLog \<Rightarrow> bool \<times> AuditLog"
  op_setFormat :: "AuditLogFormat \<Rightarrow> AuditLog \<Rightarrow> bool \<times> AuditLog"
  op_getDirectoryPermission :: "AuditLog \<Rightarrow> cint"
  op_getFilePermission :: "AuditLog \<Rightarrow> cint"
  op_getParts :: "AuditLog \<Rightarrow> cint"
  op_setParts :: "string \<Rightarrow> AuditLog \<Rightarrow> bool \<times> AuditLog"
  op_setType :: "AuditLogType \<Rightarrow> AuditLog \<Rightarrow> bool \<times> AuditLog"
  op_init :: "AuditLog \<Rightarrow> bool \<times> AuditLog \<times> string"
  op_close :: "AuditLog \<Rightarrow> bool \<times> AuditLog"
  op_saveIfRelevant :: "ptr \<Rightarrow> AuditLog \<Rightarrow> bool \<times> AuditLog"
  op_saveIfRelevant_parts :: "ptr \<Rightarrow> cint \<Rightarrow> AuditLog \<Rightarrow> bool \<times> AuditLog"
  op_isRelevant :: "cint \<Rightarrow> AuditLog \<Rightarrow> bool"
  op_addParts :: "cint \<Rightarrow> string \<Rightarrow> cint"
  op_removeParts :: "cint \<Rightarrow> string \<Rightarrow> cint"
  op_merge :: "AuditLog option \<Rightarrow> AuditLog \<Rightarrow> bool \<times> AuditLog \<times> string"

section \<open>Helper lemmas\<close>

text \<open>The pointers of an intervention that own a live string each.\<close>

definition owned :: "ModSecurityIntervention \<Rightarrow> addr set" where
  "owned i = set_option (it_url i) \<union> set_option (it_log i)"

definition owns :: "cstring_store \<Rightarrow> ModSecurityIntervention \<Rightarrow> bool" where
  "owns h i \<longleftrightarrow> owned i \<subseteq> live h \<and> (it_url i = it_log i \<longrightarrow> it_url i = None)"

lemma freeUrl_spec:
  assumes "owns h i" and "store_ok h"
  shows "\<exists>h'. freeUrl h i = Inr (h', i\<lparr>it_url := None\<rparr>) \<and> store_ok h'
    \<and> live h' = live h - set_option (it_url i) \<and> owns h' (i\<lparr>it_url := None\<rparr>)"
proof (cases "it_url i")
  case (Some p)
  with assms have "p \<in> live h" by (auto simp: owns_def owned_def)
  from obj.dealloc_live [OF this] obtain h' where
    "delete_obj h p = Inr h'" "live h' = live h - {p}" "store_ok h \<longrightarrow> store_ok h'"
    by blast
  with Some assms show ?thesis
    by (auto simp: freeUrl_def owns_def owned_def)
qed (use assms in \<open>auto simp: freeUrl_def owns_def owned_def\<close>)

lemma freeLog_spec:
  assumes "owns h i" and "store_ok h"
  shows "\<exists>h'. freeLog h i = Inr (h', i\<lparr>it_log := None\<rparr>) \<and> store_ok h'
    \<and> live h' = live h - set_option (it_log i)"
proof (cases "it_log i")
  case (Some p)
  with assms have "p \<in> live h" by (auto simp: owns_def owned_def)
  from obj.dealloc_live [OF this] obtain h' where
    "delete_obj h p = Inr h'" "live h' = live h - {p}" "store_ok h \<longrightarrow> store_ok h'"
    by blast
  with Some assms show ?thesis
    by (auto simp: freeLog_def)
qed (use assms in \<open>auto simp: freeLog_def\<close>)

lemma free_intervention_null: "it_url i = None \<Longrightarrow> it_log i = None \<Longrightarrow> free_intervention h i = Inr (h, i)"
  by (simp add: free_intervention_def freeUrl_def freeLog_def)

section \<open>Properties\<close>

text \<open>
  C27: releasing an intervention that owns its strings releases exactly these strings, once, and
  leaves null pointers behind, so that releasing it a second time does nothing.
\<close>

theorem free_intervention_releases_once:
  assumes "owns h i" and "store_ok h"
  shows "\<exists>h'. free_intervention h i = Inr (h', i\<lparr>it_url := None, it_log := None\<rparr>)
    \<and> live h' = live h - owned i
    \<and> free_intervention h' (i\<lparr>it_url := None, it_log := None\<rparr>)
        = Inr (h', i\<lparr>it_url := None, it_log := None\<rparr>)"
proof -
  obtain h1 where h1: "freeUrl h i = Inr (h1, i\<lparr>it_url := None\<rparr>)" "store_ok h1"
      "live h1 = live h - set_option (it_url i)" "owns h1 (i\<lparr>it_url := None\<rparr>)"
    using freeUrl_spec [OF assms] by blast
  obtain h2 where h2: "freeLog h1 (i\<lparr>it_url := None\<rparr>) = Inr (h2, i\<lparr>it_url := None, it_log := None\<rparr>)"
      "live h2 = live h1 - set_option (it_log i)"
    using freeLog_spec [OF h1(4,2)] by auto
  show ?thesis
    using h1 h2 by (auto simp: free_intervention_def owned_def freeUrl_def freeLog_def)
qed

definition sample_it :: ModSecurityIntervention where
  "sample_it = \<lparr>it_status = 403, it_pause = 0, it_url = Some 0, it_log = Some 1, it_disruptive = 1\<rparr>"

definition sample_strings :: cstring_store where
  "sample_strings = \<lparr>cells = [0 \<mapsto> ''sys?status=403'', 1 \<mapsto> ''denied''], next_addr = 2\<rparr>"

theorem free_intervention_releases_once_witness:
  "\<exists>h'. free_intervention sample_strings sample_it
      = Inr (h', sample_it\<lparr>it_url := None, it_log := None\<rparr>) \<and> live h' = {}"
  using free_intervention_releases_once [of sample_strings sample_it]
  by (auto simp: owns_def owned_def sample_strings_def sample_it_def live_def store_ok_def)

text \<open>
  every audit-log part is a bit of its own, and the default parts are exactly the header, the
  request headers, the request body, the response headers, the trailer and the final boundary.
\<close>

theorem audit_log_parts_are_bits:
  "(part_num p AND part_num q \<noteq> 0 \<longleftrightarrow> p = q)
   \<and> (m_defaultParts AND part_num p \<noteq> 0 \<longleftrightarrow>
        p \<in> {AAuditLogPart, BAuditLogPart, CAuditLogPart, FAuditLogPart, HAuditLogPart, ZAuditLogPart})"
  by (cases p; cases q) (simp_all add: m_defaultParts_def)

end
