(* ===== verification/MS_Properties.thy ===== *)
theory MS_Properties
  imports MS_Engine
begin

text \<open>
  The configuration of a rule set: \<open>RulesExceptions\<close> (\<open>rules_exceptions.h\<close>) and
  \<open>RulesSetProperties\<close> (\<open>rules_set_properties.h\<close>) with the configuration values, the merge macros
  and \<open>mergeProperties\<close>.  The members of \<open>RulesExceptions\<close>, \<open>AuditLog\<close> and \<open>DebugLog\<close> that the headers
  only declare are parameters.  The locale \<open>first_set_wins\<close> states the contract of a merge in which
  the target's own setting has precedence; every kind of configuration value satisfies it, and so
  does \<open>mergeProperties\<close> as a whole.
\<close>

section \<open>rules_exceptions.h\<close>

text \<open>The multimaps hold pointers to variables and actions; they are lists of pairs.\<close>

record RulesExceptions =
  re_variable_update_target_by_tag :: "(string \<times> addr) list"
  re_variable_update_target_by_msg :: "(string \<times> addr) list"
  re_variable_update_target_by_id :: "(real \<times> addr) list"
  re_action_pre_update_target_by_id :: "(real \<times> addr) list"
  re_action_pos_update_target_by_id :: "(real \<times> addr) list"
  re_remove_rule_by_msg :: "string list"
  re_remove_rule_by_tag :: "string list"
  re_ranges :: "(cint \<times> cint) list"
  re_numbers :: "cint list"

record exceptions_ops =
  op_RulesExceptions :: RulesExceptions
  re_load :: "string \<Rightarrow> RulesExceptions \<Rightarrow> bool \<times> RulesExceptions \<times> string"
  re_addRange :: "cint \<Rightarrow> cint \<Rightarrow> RulesExceptions \<Rightarrow> bool \<times> RulesExceptions"
  re_addNumber :: "cint \<Rightarrow> RulesExceptions \<Rightarrow> bool \<times> RulesExceptions"
  re_contains :: "cint \<Rightarrow> RulesExceptions \<Rightarrow> bool"
  re_merge :: "RulesExceptions \<Rightarrow> RulesExceptions \<Rightarrow> bool \<times> RulesExceptions"
  re_loadRemoveRuleByMsg :: "string \<Rightarrow> RulesExceptions \<Rightarrow> bool \<times> RulesExceptions"
  re_loadRemoveRuleByTag :: "string \<Rightarrow> RulesExceptions \<Rightarrow> bool \<times> RulesExceptions"
  re_loadUpdateTargetByMsg :: "string \<Rightarrow> addr list \<Rightarrow> RulesExceptions \<Rightarrow> bool \<times> RulesExceptions \<times> string"
  re_loadUpdateTargetByTag :: "string \<Rightarrow> addr list \<Rightarrow> RulesExceptions \<Rightarrow> bool \<times> RulesExceptions \<times> string"
  re_loadUpdateTargetById :: "real \<Rightarrow> addr list \<Rightarrow> RulesExceptions \<Rightarrow> bool \<times> RulesExceptions \<times> string"
  re_loadUpdateActionById :: "real \<Rightarrow> addr list \<Rightarrow> RulesExceptions \<Rightarrow> bool \<times> RulesExceptions \<times> string"

section \<open>Enumerations of rules_set_properties.h\<close>

datatype ConfigBoolean = TrueConfigBoolean | FalseConfigBoolean | PropertyNotSetConfigBoolean

datatype ConfigXMLParseXmlIntoArgs =
    TrueConfigXMLParseXmlIntoArgs
  | FalseConfigXMLParseXmlIntoArgs
  | OnlyArgsConfigXMLParseXmlIntoArgs
  | PropertyNotSetConfigXMLParseXmlIntoArgs

datatype RuleEngine =
    DisabledRuleEngine
  | EnabledRuleEngine
  | DetectionOnlyRuleEngine
  | PropertyNotSetRuleEngine

datatype BodyLimitAction =
    ProcessPartialBodyLimitAction
  | RejectBodyLimitAction
  | PropertyNotSetBodyLimitAction

datatype OnFailedRemoteRulesAction =
    AbortOnFailedRemoteRulesAction
  | WarnOnFailedRemoteRulesAction
  | PropertyNotSetRemoteRulesAction

fun ruleEngineStateString :: "RuleEngine \<Rightarrow> string" where
  "ruleEngineStateString DisabledRuleEngine = ''Disabled''"
| "ruleEngineStateString EnabledRuleEngine = ''Enabled''"
| "ruleEngineStateString DetectionOnlyRuleEngine = ''DetectionOnly''"
| "ruleEngineStateString PropertyNotSetRuleEngine = ''PropertyNotSet/DetectionOnly''"

fun configBooleanString :: "ConfigBoolean \<Rightarrow> string" where
  "configBooleanString TrueConfigBoolean = ''True''"
| "configBooleanString FalseConfigBoolean = ''False''"
| "configBooleanString PropertyNotSetConfigBoolean = ''Not set''"

fun configXMLParseXmlIntoArgsString :: "ConfigXMLParseXmlIntoArgs \<Rightarrow> string" where
  "configXMLParseXmlIntoArgsString TrueConfigXMLParseXmlIntoArgs = ''True''"
| "configXMLParseXmlIntoArgsString FalseConfigXMLParseXmlIntoArgs = ''False''"
| "configXMLParseXmlIntoArgsString OnlyArgsConfigXMLParseXmlIntoArgs = ''OnlyArgs''"
| "configXMLParseXmlIntoArgsString PropertyNotSetConfigXMLParseXmlIntoArgs = ''Not set''"

section \<open>The merge macros\<close>

definition merge_boolean_value :: "ConfigBoolean \<Rightarrow> ConfigBoolean \<Rightarrow> ConfigBoolean \<Rightarrow> ConfigBoolean" where
  "merge_boolean_value to from dflt =
     (if to = PropertyNotSetConfigBoolean
      then (if from = PropertyNotSetConfigBoolean then dflt else from) else to)"

definition merge_ruleengine_value :: "RuleEngine \<Rightarrow> RuleEngine \<Rightarrow> RuleEngine \<Rightarrow> RuleEngine" where
  "merge_ruleengine_value to from dflt =
     (if to = PropertyNotSetRuleEngine
      then (if from = PropertyNotSetRuleEngine then dflt else from) else to)"

definition merge_bodylimitaction_value ::
    "BodyLimitAction \<Rightarrow> BodyLimitAction \<Rightarrow> BodyLimitAction \<Rightarrow> BodyLimitAction" where
  "merge_bodylimitaction_value to from dflt =
     (if to = PropertyNotSetBodyLimitAction
      then (if from = PropertyNotSetBodyLimitAction then dflt else from) else to)"

definition merge_xmlargparse_value :: "ConfigXMLParseXmlIntoArgs \<Rightarrow> ConfigXMLParseXmlIntoArgs \<Rightarrow>
    ConfigXMLParseXmlIntoArgs \<Rightarrow> ConfigXMLParseXmlIntoArgs" where
  "merge_xmlargparse_value to from dflt =
     (if to = PropertyNotSetConfigXMLParseXmlIntoArgs
      then (if from = PropertyNotSetConfigXMLParseXmlIntoArgs then dflt else from) else to)"

section \<open>Configuration values\<close>

record ConfigInt =
  ci_set :: bool
  ci_value :: cint

definition ConfigInt0 :: ConfigInt where
  "ConfigInt0 = \<lparr>ci_set = False, ci_value = 0\<rparr>"

definition ConfigInt_merge :: "ConfigInt \<Rightarrow> ConfigInt \<Rightarrow> ConfigInt" where
  "ConfigInt_merge this from =
     (if ci_set this \<or> \<not> ci_set from then this
      else this\<lparr>ci_set := True, ci_value := ci_value from\<rparr>)"

record ConfigDouble =
  cd_set :: bool
  cd_value :: real

definition ConfigDouble0 :: ConfigDouble where
  "ConfigDouble0 = \<lparr>cd_set = False, cd_value = 0\<rparr>"

definition ConfigDouble_merge :: "ConfigDouble \<Rightarrow> ConfigDouble \<Rightarrow> ConfigDouble" where
  "ConfigDouble_merge this from =
     (if cd_set this \<or> \<not> cd_set from then this
      else this\<lparr>cd_set := True, cd_value := cd_value from\<rparr>)"

record ConfigString =
  cs_set :: bool
  cs_value :: string

definition ConfigString0 :: ConfigString where
  "ConfigString0 = \<lparr>cs_set = False, cs_value = ''''\<rparr>"

definition ConfigString_merge :: "ConfigString \<Rightarrow> ConfigString \<Rightarrow> ConfigString" where
  "ConfigString_merge this from =
     (if cs_set this \<or> \<not> cs_set from then this
      else this\<lparr>cs_set := True, cs_value := cs_value from\<rparr>)"

record ConfigSet =
  cset_set :: bool
  cset_clear :: bool
  cset_value :: "string set"

definition ConfigSet0 :: ConfigSet where
  "ConfigSet0 = \<lparr>cset_set = False, cset_clear = False, cset_value = {}\<rparr>"

text \<open>The code page table: 65536 integers, an unchecked array.\<close>

record UnicodeMapHolder =
  um_data :: "nat \<Rightarrow> cint"

definition UnicodeMapHolder0 :: UnicodeMapHolder where
  "UnicodeMapHolder0 = \<lparr>um_data = (\<lambda>_. - 1)\<rparr>"  \<comment> \<open>\<open>memset\<close> with all bits set\<close>

definition um_at :: "UnicodeMapHolder \<Rightarrow> int \<Rightarrow> cint res" where
  "um_at m index = (if 0 \<le> index \<and> index < 65536 then Inr (um_data m (nat index))
     else Inl Undefined_Index)"

definition um_change :: "int \<Rightarrow> cint \<Rightarrow> UnicodeMapHolder \<Rightarrow> UnicodeMapHolder res" where
  "um_change i a m = (if 0 \<le> i \<and> i < 65536 then Inr (m\<lparr>um_data := (um_data m)(nat i := a)\<rparr>)
     else Inl Undefined_Index)"

record ConfigUnicodeMap =
  cu_set :: bool
  cu_unicodeCodePage :: real
  cu_unicodeMapTable :: ptr

definition ConfigUnicodeMap0 :: ConfigUnicodeMap where
  "ConfigUnicodeMap0 = \<lparr>cu_set = False, cu_unicodeCodePage = 0, cu_unicodeMapTable = None\<rparr>"

definition ConfigUnicodeMap_merge :: "ConfigUnicodeMap \<Rightarrow> ConfigUnicodeMap \<Rightarrow> ConfigUnicodeMap" where
  "ConfigUnicodeMap_merge this from =
     (if \<not> cu_set from then this
      else this\<lparr>cu_set := True, cu_unicodeCodePage := cu_unicodeCodePage from,
             cu_unicodeMapTable := cu_unicodeMapTable from\<rparr>)"

section \<open>RulesSetProperties\<close>

text \<open>The two logs are pointers; the default actions are one vector of actions per phase.\<close>

record RulesSetProperties =
  m_auditLog :: "AuditLog option"
  m_requestBodyLimitAction :: BodyLimitAction
  m_responseBodyLimitAction :: BodyLimitAction
  m_secRequestBodyAccess :: ConfigBoolean
  m_secResponseBodyAccess :: ConfigBoolean
  m_secXMLExternalEntity :: ConfigBoolean
  m_secXMLParseXmlIntoArgs :: ConfigXMLParseXmlIntoArgs
  m_tmpSaveUploadedFiles :: ConfigBoolean
  m_uploadKeepFiles :: ConfigBoolean
  m_argumentsLimit :: ConfigDouble
  m_requestBodyJsonDepthLimit :: ConfigDouble
  m_requestBodyLimit :: ConfigDouble
  m_requestBodyNoFilesLimit :: ConfigDouble
  m_responseBodyLimit :: ConfigDouble
  m_pcreMatchLimit :: ConfigInt
  m_uploadFileLimit :: ConfigInt
  m_uploadFileMode :: ConfigInt
  m_debugLog :: "DebugLog option"
  m_remoteRulesActionOnFailed :: OnFailedRemoteRulesAction
  m_secRuleEngine :: RuleEngine
  m_exceptions :: RulesExceptions
  m_components :: "string list"
  m_parserError :: string
  m_responseBodyTypeToBeInspected :: ConfigSet
  m_httpblKey :: ConfigString
  m_uploadDirectory :: ConfigString
  m_uploadTmpDirectory :: ConfigString
  m_secArgumentSeparator :: ConfigString
  m_secWebAppId :: ConfigString
  m_defaultActions :: "addr list list"
  m_unicodeMapTable :: ConfigUnicodeMap

text \<open>The constructor that takes a debug log, and the one that makes its own.\<close>

definition RulesSetProperties_debug :: "audit_log_ops \<Rightarrow> exceptions_ops \<Rightarrow> DebugLog option \<Rightarrow>
    RulesSetProperties" where
  "RulesSetProperties_debug aops eops debugLog = \<lparr>
     m_auditLog = Some (op_AuditLog aops),
     m_requestBodyLimitAction = PropertyNotSetBodyLimitAction,
     m_responseBodyLimitAction = PropertyNotSetBodyLimitAction,
     m_secRequestBodyAccess = PropertyNotSetConfigBoolean,
     m_secResponseBodyAccess = PropertyNotSetConfigBoolean,
     m_secXMLExternalEntity = PropertyNotSetConfigBoolean,
     m_secXMLParseXmlIntoArgs = PropertyNotSetConfigXMLParseXmlIntoArgs,
     m_tmpSaveUploadedFiles = PropertyNotSetConfigBoolean,
     m_uploadKeepFiles = PropertyNotSetConfigBoolean,
     m_argumentsLimit = ConfigDouble0, m_requestBodyJsonDepthLimit = ConfigDouble0,
     m_requestBodyLimit = ConfigDouble0, m_requestBodyNoFilesLimit = ConfigDouble0,
     m_responseBodyLimit = ConfigDouble0,
     m_pcreMatchLimit = ConfigInt0, m_uploadFileLimit = ConfigInt0, m_uploadFileMode = ConfigInt0,
     m_debugLog = debugLog,
     m_remoteRulesActionOnFailed = PropertyNotSetRemoteRulesAction,
     m_secRuleEngine = PropertyNotSetRuleEngine,
     m_exceptions = op_RulesExceptions eops, m_components = [], m_parserError = '''',
     m_responseBodyTypeToBeInspected = ConfigSet0,
     m_httpblKey = ConfigString0, m_uploadDirectory = ConfigString0,
     m_uploadTmpDirectory = ConfigString0, m_secArgumentSeparator = ConfigString0,
     m_secWebAppId = ConfigString0,
     m_defaultActions = replicate (phase_num NUMBER_OF_PHASES) [],
     m_unicodeMapTable = ConfigUnicodeMap0\<rparr>"

definition RulesSetProperties0 :: "audit_log_ops \<Rightarrow> exceptions_ops \<Rightarrow> RulesSetProperties" where
  "RulesSetProperties0 aops eops = RulesSetProperties_debug aops eops (Some DebugLog0)"

text \<open>The destructor pops every vector of default actions empty and deletes the two logs.\<close>

fun pop_all :: "addr list \<Rightarrow> addr list" where
  "pop_all v = (if v = [] then [] else pop_all (butlast v))"

declare pop_all.simps [simp del]

definition RulesSetProperties_destroy :: "RulesSetProperties \<Rightarrow> RulesSetProperties" where
  "RulesSetProperties_destroy p =
     p\<lparr>m_defaultActions := map (\<lambda>i. pop_all (m_defaultActions p ! i)) [0..<phase_num NUMBER_OF_PHASES],
       m_debugLog := None, m_auditLog := None\<rparr>"

section \<open>mergeProperties\<close>

text \<open>The assignments that cannot fail: settings, exceptions and components.\<close>

definition merge_settings ::
    "exceptions_ops \<Rightarrow> RulesSetProperties \<Rightarrow> RulesSetProperties \<Rightarrow> RulesSetProperties" where
  "merge_settings eops from to = to\<lparr>
     m_secRuleEngine := merge_ruleengine_value (m_secRuleEngine to) (m_secRuleEngine from)
       PropertyNotSetRuleEngine,
     m_secRequestBodyAccess := merge_boolean_value (m_secRequestBodyAccess to)
       (m_secRequestBodyAccess from) PropertyNotSetConfigBoolean,
     m_secResponseBodyAccess := merge_boolean_value (m_secResponseBodyAccess to)
       (m_secResponseBodyAccess from) PropertyNotSetConfigBoolean,
     m_secXMLExternalEntity := merge_boolean_value (m_secXMLExternalEntity to)
       (m_secXMLExternalEntity from) PropertyNotSetConfigBoolean,
     m_secXMLParseXmlIntoArgs := merge_xmlargparse_value (m_secXMLParseXmlIntoArgs to)
       (m_secXMLParseXmlIntoArgs from) PropertyNotSetConfigXMLParseXmlIntoArgs,
     m_uploadKeepFiles := merge_boolean_value (m_uploadKeepFiles to)
       (m_uploadKeepFiles from) PropertyNotSetConfigBoolean,
     m_tmpSaveUploadedFiles := merge_boolean_value (m_tmpSaveUploadedFiles to)
       (m_tmpSaveUploadedFiles from) PropertyNotSetConfigBoolean,
     m_argumentsLimit := ConfigDouble_merge (m_argumentsLimit to) (m_argumentsLimit from),
     m_requestBodyJsonDepthLimit := ConfigDouble_merge (m_requestBodyJsonDepthLimit to)
       (m_requestBodyJsonDepthLimit from),
     m_requestBodyLimit := ConfigDouble_merge (m_requestBodyLimit to) (m_requestBodyLimit from),
     m_requestBodyNoFilesLimit := ConfigDouble_merge (m_requestBodyNoFilesLimit to)
       (m_requestBodyNoFilesLimit from),
     m_responseBodyLimit := ConfigDouble_merge (m_responseBodyLimit to) (m_responseBodyLimit from),
     m_requestBodyLimitAction := merge_bodylimitaction_value (m_requestBodyLimitAction to)
       (m_requestBodyLimitAction from) PropertyNotSetBodyLimitAction,
     m_responseBodyLimitAction := merge_bodylimitaction_value (m_responseBodyLimitAction to)
       (m_responseBodyLimitAction from) PropertyNotSetBodyLimitAction,
     m_pcreMatchLimit := ConfigInt_merge (m_pcreMatchLimit to) (m_pcreMatchLimit from),
     m_uploadFileLimit := ConfigInt_merge (m_uploadFileLimit to) (m_uploadFileLimit from),
     m_uploadFileMode := ConfigInt_merge (m_uploadFileMode to) (m_uploadFileMode from),
     m_uploadDirectory := ConfigString_merge (m_uploadDirectory to) (m_uploadDirectory from),
     m_uploadTmpDirectory := ConfigString_merge (m_uploadTmpDirectory to) (m_uploadTmpDirectory from),
     m_secArgumentSeparator := ConfigString_merge (m_secArgumentSeparator to)
       (m_secArgumentSeparator from),
     m_secWebAppId := ConfigString_merge (m_secWebAppId to) (m_secWebAppId from),
     m_unicodeMapTable := ConfigUnicodeMap_merge (m_unicodeMapTable to) (m_unicodeMapTable from),
     m_httpblKey := ConfigString_merge (m_httpblKey to) (m_httpblKey from),
     m_exceptions := snd (re_merge eops (m_exceptions from) (m_exceptions to)),
     m_components := m_components to @ m_components from\<rparr>"

text \<open>The response body types; a clearing source also empties its own set.\<close>

definition merge_body_types :: "ConfigSet \<Rightarrow> ConfigSet \<Rightarrow> ConfigSet \<times> ConfigSet" where
  "merge_body_types from to =
     (if cset_set from
      then (if cset_clear from
            then (from\<lparr>cset_value := {}\<rparr>, to\<lparr>cset_value := {}, cset_set := True\<rparr>)
            else (from, to\<lparr>cset_value := cset_value to \<union> cset_value from, cset_set := True\<rparr>))
      else (from, to))"

text \<open>The default actions, phase by phase.\<close>

definition merge_default_actions :: "addr list list \<Rightarrow> addr list list \<Rightarrow> addr list list" where
  "merge_default_actions from to = map (\<lambda>i. to ! i @ from ! i) [0..<phase_num NUMBER_OF_PHASES]"

text \<open>The audit log; the second component is the error text.\<close>

definition merge_audit_log :: "audit_log_ops \<Rightarrow> AuditLog option \<Rightarrow> AuditLog option \<Rightarrow>
    AuditLog option \<times> string" where
  "merge_audit_log aops from to = (case to of None \<Rightarrow> (None, '''')
     | Some a \<Rightarrow> (case op_merge aops from a of (_, a', error) \<Rightarrow> (Some a', error)))"

definition merge_debug_file :: "debug_log_ops \<Rightarrow> DebugLog option \<Rightarrow> DebugLog option \<Rightarrow>
    DebugLog option \<times> string" where
  "merge_debug_file dops from to = (case (from, to) of
       (Some f, Some t) \<Rightarrow>
         if dl_isLogFileSet dops f \<and> \<not> dl_isLogFileSet dops t
         then (case dl_setDebugLogFile dops (dl_getDebugLogFile dops f) t of (t', error) \<Rightarrow> (Some t', error))
         else (to, '''')
     | _ \<Rightarrow> (to, ''''))"

definition merge_debug_level :: "debug_log_ops \<Rightarrow> DebugLog option \<Rightarrow> DebugLog option \<Rightarrow> DebugLog option" where
  "merge_debug_level dops from to = (case (from, to) of
       (Some f, Some t) \<Rightarrow>
         if dl_isLogLevelSet dops f \<and> \<not> dl_isLogLevelSet dops t
         then Some (dl_setDebugLogLevel dops (dl_getDebugLogLevel dops f) t)
         else to
     | _ \<Rightarrow> to)"

text \<open>
  The whole function: the return value, \<open>from\<close> and \<open>to\<close> afterwards (they are different objects)
  and the error stream.
\<close>

definition mergeProperties :: "debug_log_ops \<Rightarrow> audit_log_ops \<Rightarrow> exceptions_ops \<Rightarrow>
    RulesSetProperties \<Rightarrow> RulesSetProperties \<Rightarrow> string \<Rightarrow>
    cint \<times> RulesSetProperties \<times> RulesSetProperties \<times> string" where
  "mergeProperties dops aops eops from to err =
     (let to1 = merge_settings eops from to;
          (ftypes, ttypes) = merge_body_types (m_responseBodyTypeToBeInspected from)
             (m_responseBodyTypeToBeInspected to1);
          from1 = from\<lparr>m_responseBodyTypeToBeInspected := ftypes\<rparr>;
          to2 = to1\<lparr>m_responseBodyTypeToBeInspected := ttypes\<rparr>;
          to3 = to2\<lparr>m_defaultActions := merge_default_actions (m_defaultActions from) (m_defaultActions to2)\<rparr>;
          (alog, aerror) = merge_audit_log aops (m_auditLog from) (m_auditLog to3);
          to4 = to3\<lparr>m_auditLog := alog\<rparr>
      in if aerror \<noteq> '''' then (- 1, from1, to4, err @ aerror)
         else let (dlog, derror) = merge_debug_file dops (m_debugLog from) (m_debugLog to4);
                  to5 = to4\<lparr>m_debugLog := dlog\<rparr>
              in if derror \<noteq> '''' then (- 1, from1, to5, err @ derror)
                 else (1, from1, to5\<lparr>m_debugLog := merge_debug_level dops (m_debugLog from) (m_debugLog to5)\<rparr>,
                       err))"

text \<open>Several property sets merged into one, in order, as successive rule files are; it stops at an error.\<close>

fun merge_sequence :: "debug_log_ops \<Rightarrow> audit_log_ops \<Rightarrow> exceptions_ops \<Rightarrow>
    RulesSetProperties list \<Rightarrow> RulesSetProperties \<Rightarrow> string \<Rightarrow> cint \<times> RulesSetProperties \<times> string" where
  "merge_sequence dops aops eops [] to err = (1, to, err)"
| "merge_sequence dops aops eops (f # fs) to err =
     (case mergeProperties dops aops eops f to err of (rc, _, to', err') \<Rightarrow>
        if rc = - 1 then (- 1, to', err') else merge_sequence dops aops eops fs to' err')"

section \<open>Precedence of settings\<close>

text \<open>
  A merge in which the target keeps what it has set and takes over what it has not.  \<open>view\<close> is the
  setting that a configuration value stands for, if it is set.
\<close>

locale first_set_wins =
  fixes merge :: "'c \<Rightarrow> 'c \<Rightarrow> 'c"  \<comment> \<open>target first, then source\<close>
    and view :: "'c \<Rightarrow> 'v option"
  assumes merge_view: "view (merge to from) = (case view to of None \<Rightarrow> view from | Some v \<Rightarrow> Some v)"
begin

lemma merge_set: "view to = Some v \<Longrightarrow> view (merge to from) = Some v"
  by (simp add: merge_view)

lemma merge_idem: "view (merge c c) = view c"
  by (simp add: merge_view split: option.splits)

lemma merge_assoc: "view (merge (merge a b) c) = view (merge a (merge b c))"
  by (simp add: merge_view split: option.splits)

text \<open>After merging a sequence of sources, the first one that sets the value has decided it.\<close>

lemma merge_all_first:
  "view (foldl merge to fs) =
     (case find (\<lambda>c. view c \<noteq> None) (to # fs) of None \<Rightarrow> None | Some c \<Rightarrow> view c)"
proof (induction fs arbitrary: to)
  case (Cons f fs)
  then show ?case
    by (auto simp: merge_view split: option.splits)
qed (simp split: option.splits)

end

definition view_boolean :: "ConfigBoolean \<Rightarrow> ConfigBoolean option" where
  "view_boolean c = (if c = PropertyNotSetConfigBoolean then None else Some c)"

definition view_ruleengine :: "RuleEngine \<Rightarrow> RuleEngine option" where
  "view_ruleengine c = (if c = PropertyNotSetRuleEngine then None else Some c)"

definition view_limit :: "BodyLimitAction \<Rightarrow> BodyLimitAction option" where
  "view_limit c = (if c = PropertyNotSetBodyLimitAction then None else Some c)"

definition view_xml :: "ConfigXMLParseXmlIntoArgs \<Rightarrow> ConfigXMLParseXmlIntoArgs option" where
  "view_xml c = (if c = PropertyNotSetConfigXMLParseXmlIntoArgs then None else Some c)"

definition view_int :: "ConfigInt \<Rightarrow> cint option" where
  "view_int c = (if ci_set c then Some (ci_value c) else None)"

definition view_double :: "ConfigDouble \<Rightarrow> real option" where
  "view_double c = (if cd_set c then Some (cd_value c) else None)"

definition view_string :: "ConfigString \<Rightarrow> string option" where
  "view_string c = (if cs_set c then Some (cs_value c) else None)"

lemmas view_defs = view_boolean_def view_ruleengine_def view_limit_def view_xml_def view_int_def
  view_double_def view_string_def

lemmas merge_value_defs = merge_boolean_value_def merge_ruleengine_value_def
  merge_bodylimitaction_value_def merge_xmlargparse_value_def ConfigInt_merge_def
  ConfigDouble_merge_def ConfigString_merge_def

interpretation boolean: first_set_wins
  "\<lambda>to from. merge_boolean_value to from PropertyNotSetConfigBoolean" view_boolean
  by unfold_locales (simp add: view_defs merge_value_defs)

interpretation ruleengine: first_set_wins
  "\<lambda>to from. merge_ruleengine_value to from PropertyNotSetRuleEngine" view_ruleengine
  by unfold_locales (simp add: view_defs merge_value_defs)

interpretation limit: first_set_wins
  "\<lambda>to from. merge_bodylimitaction_value to from PropertyNotSetBodyLimitAction" view_limit
  by unfold_locales (simp add: view_defs merge_value_defs)

interpretation xml: first_set_wins
  "\<lambda>to from. merge_xmlargparse_value to from PropertyNotSetConfigXMLParseXmlIntoArgs" view_xml
  by unfold_locales (simp add: view_defs merge_value_defs)

interpretation cint: first_set_wins ConfigInt_merge view_int
  by unfold_locales (simp add: view_defs merge_value_defs)

interpretation cdouble: first_set_wins ConfigDouble_merge view_double
  by unfold_locales (simp add: view_defs merge_value_defs)

interpretation cstring: first_set_wins ConfigString_merge view_string
  by unfold_locales (simp add: view_defs merge_value_defs)

lemmas merge_views = boolean.merge_view ruleengine.merge_view limit.merge_view xml.merge_view
  cint.merge_view cdouble.merge_view cstring.merge_view

text \<open>
  The settings of a property set as one partial function: the abstract configuration.  It holds the
  settings for which the target of a merge has precedence; the code page table is merged with a
  \<open>merge\<close> of its own, which prefers the source, and is not one of them.
\<close>

datatype setting =
    S_RuleEngine | S_RequestBodyAccess | S_ResponseBodyAccess | S_XMLExternalEntity
  | S_XMLParseXmlIntoArgs | S_UploadKeepFiles | S_TmpSaveUploadedFiles | S_ArgumentsLimit
  | S_RequestBodyJsonDepthLimit | S_RequestBodyLimit | S_RequestBodyNoFilesLimit
  | S_ResponseBodyLimit | S_RequestBodyLimitAction | S_ResponseBodyLimitAction
  | S_PcreMatchLimit | S_UploadFileLimit | S_UploadFileMode | S_UploadDirectory
  | S_UploadTmpDirectory | S_ArgumentSeparator | S_WebAppId | S_HttpblKey

datatype setting_value =
    V_Engine RuleEngine | V_Boolean ConfigBoolean | V_Xml ConfigXMLParseXmlIntoArgs
  | V_Action BodyLimitAction | V_Double real | V_Int cint | V_String string

fun settings :: "RulesSetProperties \<Rightarrow> setting \<rightharpoonup> setting_value" where
  "settings p S_RuleEngine = map_option V_Engine (view_ruleengine (m_secRuleEngine p))"
| "settings p S_RequestBodyAccess = map_option V_Boolean (view_boolean (m_secRequestBodyAccess p))"
| "settings p S_ResponseBodyAccess = map_option V_Boolean (view_boolean (m_secResponseBodyAccess p))"
| "settings p S_XMLExternalEntity = map_option V_Boolean (view_boolean (m_secXMLExternalEntity p))"
| "settings p S_XMLParseXmlIntoArgs = map_option V_Xml (view_xml (m_secXMLParseXmlIntoArgs p))"
| "settings p S_UploadKeepFiles = map_option V_Boolean (view_boolean (m_uploadKeepFiles p))"
| "settings p S_TmpSaveUploadedFiles = map_option V_Boolean (view_boolean (m_tmpSaveUploadedFiles p))"
| "settings p S_ArgumentsLimit = map_option V_Double (view_double (m_argumentsLimit p))"
| "settings p S_RequestBodyJsonDepthLimit = map_option V_Double (view_double (m_requestBodyJsonDepthLimit p))"
| "settings p S_RequestBodyLimit = map_option V_Double (view_double (m_requestBodyLimit p))"
| "settings p S_RequestBodyNoFilesLimit = map_option V_Double (view_double (m_requestBodyNoFilesLimit p))"
| "settings p S_ResponseBodyLimit = map_option V_Double (view_double (m_responseBodyLimit p))"
| "settings p S_RequestBodyLimitAction = map_option V_Action (view_limit (m_requestBodyLimitAction p))"
| "settings p S_ResponseBodyLimitAction = map_option V_Action (view_limit (m_responseBodyLimitAction p))"
| "settings p S_PcreMatchLimit = map_option V_Int (view_int (m_pcreMatchLimit p))"
| "settings p S_UploadFileLimit = map_option V_Int (view_int (m_uploadFileLimit p))"
| "settings p S_UploadFileMode = map_option V_Int (view_int (m_uploadFileMode p))"
| "settings p S_UploadDirectory = map_option V_String (view_string (m_uploadDirectory p))"
| "settings p S_UploadTmpDirectory = map_option V_String (view_string (m_uploadTmpDirectory p))"
| "settings p S_ArgumentSeparator = map_option V_String (view_string (m_secArgumentSeparator p))"
| "settings p S_WebAppId = map_option V_String (view_string (m_secWebAppId p))"
| "settings p S_HttpblKey = map_option V_String (view_string (m_httpblKey p))"

lemma settings_merge_settings:
  "settings (merge_settings eops from to) s
     = (case settings to s of None \<Rightarrow> settings from s | Some v \<Rightarrow> Some v)"
  by (cases s) (simp_all add: merge_settings_def merge_views split: option.split)

text \<open>The target after the merge, whatever the return value.\<close>

definition merged :: "debug_log_ops \<Rightarrow> audit_log_ops \<Rightarrow> exceptions_ops \<Rightarrow>
    RulesSetProperties \<Rightarrow> RulesSetProperties \<Rightarrow> RulesSetProperties" where
  "merged dops aops eops to from = fst (snd (snd (mergeProperties dops aops eops from to '''')))"

lemma settings_frame [simp]:
  "settings (p\<lparr>m_responseBodyTypeToBeInspected := t\<rparr>) = settings p"
  "settings (p\<lparr>m_defaultActions := d\<rparr>) = settings p"
  "settings (p\<lparr>m_auditLog := a\<rparr>) = settings p"
  "settings (p\<lparr>m_debugLog := l\<rparr>) = settings p"
  by (rule ext, case_tac x; simp)+

lemma merge_settings_proj [simp]:
  "m_responseBodyTypeToBeInspected (merge_settings eops from to) = m_responseBodyTypeToBeInspected to"
  "m_defaultActions (merge_settings eops from to) = m_defaultActions to"
  "m_auditLog (merge_settings eops from to) = m_auditLog to"
  "m_debugLog (merge_settings eops from to) = m_debugLog to"
  "m_remoteRulesActionOnFailed (merge_settings eops from to) = m_remoteRulesActionOnFailed to"
  by (simp_all add: merge_settings_def)

text \<open>The result of the function, by cases of its two error checks.\<close>

lemma mergeProperties_cases:
  obtains (audit_error) aerror where
      "snd (merge_audit_log aops (m_auditLog from) (m_auditLog to)) = aerror" "aerror \<noteq> ''''"
      "fst (mergeProperties dops aops eops from to err) = - 1"
      "snd (snd (snd (mergeProperties dops aops eops from to err))) = err @ aerror"
  | (debug_error) derror where
      "snd (merge_audit_log aops (m_auditLog from) (m_auditLog to)) = ''''"
      "snd (merge_debug_file dops (m_debugLog from) (m_debugLog to)) = derror" "derror \<noteq> ''''"
      "fst (mergeProperties dops aops eops from to err) = - 1"
      "snd (snd (snd (mergeProperties dops aops eops from to err))) = err @ derror"
  | (no_error)
      "snd (merge_audit_log aops (m_auditLog from) (m_auditLog to)) = ''''"
      "snd (merge_debug_file dops (m_debugLog from) (m_debugLog to)) = ''''"
      "fst (mergeProperties dops aops eops from to err) = 1"
      "snd (snd (snd (mergeProperties dops aops eops from to err))) = err"
  by (atomize_elim) (auto simp: mergeProperties_def Let_def split: prod.splits)

lemma mergeProperties_to:
  assumes "mergeProperties dops aops eops from to err = (rc, from', to', err')"
  shows "settings to' = settings (merge_settings eops from to)"
    and "m_defaultActions to' = merge_default_actions (m_defaultActions from) (m_defaultActions to)"
    and "m_unicodeMapTable to' = ConfigUnicodeMap_merge (m_unicodeMapTable to) (m_unicodeMapTable from)"
    and "m_components to' = m_components to @ m_components from"
    and "merge_body_types (m_responseBodyTypeToBeInspected from) (m_responseBodyTypeToBeInspected to)
      = (m_responseBodyTypeToBeInspected from', m_responseBodyTypeToBeInspected to')"
  using assms
  by (auto simp: mergeProperties_def Let_def merge_settings_def split: prod.splits if_splits)

lemma settings_merged:
  "settings (merged dops aops eops to from) s
     = (case settings to s of None \<Rightarrow> settings from s | Some v \<Rightarrow> Some v)"
proof -
  obtain rc from' to' err' where
    m: "mergeProperties dops aops eops from to '''' = (rc, from', to', err')"
    by (metis surj_pair)
  show ?thesis
    by (simp add: merged_def m mergeProperties_to(1) [OF m] settings_merge_settings)
qed

interpretation props: first_set_wins "merged dops aops eops" "\<lambda>p. settings p s" for dops aops eops s
  by unfold_locales (rule settings_merged)

lemma mergeProperties_err_irrelevant:
  "mergeProperties dops aops eops from to err = (rc, from', to', err') \<Longrightarrow>
     to' = merged dops aops eops to from"
  by (auto simp: merged_def mergeProperties_def Let_def split: prod.splits if_splits)

lemma merge_sequence_foldl:
  "merge_sequence dops aops eops fs to err = (1, to', err') \<Longrightarrow>
     to' = foldl (merged dops aops eops) to fs"
proof (induction fs arbitrary: to err)
  case (Cons f fs)
  obtain rc f' t' e' where m: "mergeProperties dops aops eops f to err = (rc, f', t', e')"
    by (metis surj_pair)
  from Cons.prems m have "rc \<noteq> - 1" "merge_sequence dops aops eops fs t' e' = (1, to', err')"
    by (auto split: if_splits)
  with Cons.IH mergeProperties_err_irrelevant [OF m] show ?case by simp
qed simp

lemma pop_all_Nil [simp]: "pop_all v = []"
  by (induction v rule: pop_all.induct) (simp add: pop_all.simps)

section \<open>Properties\<close>


text \<open>
  after a sequence of successful merges the value of a setting is the one of the first property
  set, starting with the target itself, that sets it; it is unset if none of them sets it.
\<close>

theorem merge_sequence_first_set:
  assumes "merge_sequence dops aops eops fs to err = (1, to', err')"
  shows "settings to' s =
    (case find (\<lambda>p. settings p s \<noteq> None) (to # fs) of None \<Rightarrow> None | Some p \<Rightarrow> settings p s)"
  unfolding merge_sequence_foldl [OF assms] by (rule props.merge_all_first)

text \<open>
  \<open>mergeProperties\<close> returns -1 exactly if merging the audit logs or setting the debug log file
  reports an error, and then this error (and nothing else) has been appended to the error stream;
  otherwise it returns 1 and leaves the error stream as it was.
\<close>

theorem mergeProperties_error_report:
  "let (rc, _, _, err') = mergeProperties dops aops eops from to err;
       aerror = snd (merge_audit_log aops (m_auditLog from) (m_auditLog to));
       derror = snd (merge_debug_file dops (m_debugLog from) (m_debugLog to));
       error = (if aerror \<noteq> '''' then aerror else derror)
   in rc = (if error = '''' then 1 else - 1) \<and> err' = err @ error"
  by (cases rule: mergeProperties_cases [of aops "from" to dops eops err])
     (auto simp: Let_def split: prod.splits)

text \<open>
  merging keeps one vector of default actions per phase; the vector of a phase is the target's
  followed by the source's.  The components are concatenated in the same order, and (unlike the
  other settings) a code page table that the source has set replaces the target's.
\<close>

theorem mergeProperties_appends:
  assumes "mergeProperties dops aops eops from to err = (rc, from', to', err')"
  shows "length (m_defaultActions to') = 7 \<and> m_components to' = m_components to @ m_components from
    \<and> (i < 7 \<longrightarrow> m_defaultActions to' ! i = m_defaultActions to ! i @ m_defaultActions from ! i)
    \<and> (cu_set (m_unicodeMapTable from) \<longrightarrow> m_unicodeMapTable to' = m_unicodeMapTable from)"
  using mergeProperties_to(2-4) [OF assms]
  by (auto simp: merge_default_actions_def ConfigUnicodeMap_merge_def)

text \<open>
  merging from a property set that clears the response body types empties the set of types in
  the target, but also in the source, and the target does not take over the request to clear: when
  the target is merged into a third property set, that one keeps its types.
\<close>

theorem clearing_body_types_is_not_passed_on:
  assumes "cset_set (m_responseBodyTypeToBeInspected from)"
    and "cset_clear (m_responseBodyTypeToBeInspected from)"
    and "\<not> cset_clear (m_responseBodyTypeToBeInspected to)"
    and m: "mergeProperties dops aops eops from to err = (rc, from', to', err')"
    and m': "mergeProperties dops aops eops to' third err2 = (rc2, to'', third', err3)"
  shows "cset_value (m_responseBodyTypeToBeInspected from') = {}
    \<and> cset_value (m_responseBodyTypeToBeInspected to') = {}
    \<and> cset_value (m_responseBodyTypeToBeInspected third') = cset_value (m_responseBodyTypeToBeInspected third)"
proof -
  have 1: "m_responseBodyTypeToBeInspected from' = m_responseBodyTypeToBeInspected from\<lparr>cset_value := {}\<rparr>"
      "m_responseBodyTypeToBeInspected to' =
         m_responseBodyTypeToBeInspected to\<lparr>cset_value := {}, cset_set := True\<rparr>"
    using mergeProperties_to(5) [OF m, symmetric] assms(1-3) by (simp_all add: merge_body_types_def)
  have "m_responseBodyTypeToBeInspected third' = m_responseBodyTypeToBeInspected third
      \<lparr>cset_value := cset_value (m_responseBodyTypeToBeInspected third)
         \<union> cset_value (m_responseBodyTypeToBeInspected to'), cset_set := True\<rparr>"
    using mergeProperties_to(5) [OF m', symmetric] assms(1-3) by (simp add: merge_body_types_def 1)
  then show ?thesis by (simp add: 1)
qed

section \<open>Concrete instances\<close>

definition sample_dops :: debug_log_ops where
  "sample_dops = \<lparr>dl_write = \<lambda>l m d. d, dl_write_uri = \<lambda>l i u m d. d,
     dl_isLogFileSet = \<lambda>d. dl_fileName d \<noteq> '''', dl_isLogLevelSet = \<lambda>d. dl_debugLevel d \<noteq> - 1,
     dl_setDebugLogLevel = \<lambda>l d. d\<lparr>dl_debugLevel := l\<rparr>,
     dl_setDebugLogFile = \<lambda>f d. (d\<lparr>dl_fileName := f\<rparr>, ''''),
     dl_getDebugLogFile = dl_fileName, dl_getDebugLogLevel = dl_debugLevel\<rparr>"

definition sample_alog :: AuditLog where
  "sample_alog = \<lparr>al_path1 = '''', al_path2 = '''', al_storage_dir = '''',
     al_format = NotSetAuditLogFormat, al_parts = - 1, al_filePermission = - 1,
     al_directoryPermission = - 1, al_status = NotSetLogStatus, al_type = NotSetAuditLogType,
     al_relevant = '''', al_writer = None, al_ctlAuditEngineActive = False\<rparr>"

definition sample_aops :: audit_log_ops where
  "sample_aops = \<lparr>op_AuditLog = sample_alog, op_setStorageDirMode = \<lambda>p a. (True, a),
     op_setFileMode = \<lambda>p a. (True, a), op_setStatus = \<lambda>s a. (True, a\<lparr>al_status := s\<rparr>),
     op_setRelevantStatus = \<lambda>s a. (True, a), op_setFilePath1 = \<lambda>s a. (True, a),
     op_setFilePath2 = \<lambda>s a. (True, a), op_setStorageDir = \<lambda>s a. (True, a),
     op_setFormat = \<lambda>f a. (True, a), op_getDirectoryPermission = al_directoryPermission,
     op_getFilePermission = al_filePermission, op_getParts = al_parts,
     op_setParts = \<lambda>s a. (True, a), op_setType = \<lambda>t a. (True, a), op_init = \<lambda>a. (True, a, ''''),
     op_close = \<lambda>a. (True, a), op_saveIfRelevant = \<lambda>t a. (True, a),
     op_saveIfRelevant_parts = \<lambda>t p a. (True, a), op_isRelevant = \<lambda>s a. False,
     op_addParts = \<lambda>p s. p, op_removeParts = \<lambda>p s. p, op_merge = \<lambda>f a. (True, a, '''')\<rparr>"

definition sample_exceptions :: RulesExceptions where
  "sample_exceptions = \<lparr>re_variable_update_target_by_tag = [], re_variable_update_target_by_msg = [],
     re_variable_update_target_by_id = [], re_action_pre_update_target_by_id = [],
     re_action_pos_update_target_by_id = [], re_remove_rule_by_msg = [], re_remove_rule_by_tag = [],
     re_ranges = [], re_numbers = []\<rparr>"

definition sample_eops :: exceptions_ops where
  "sample_eops = \<lparr>op_RulesExceptions = sample_exceptions, re_load = \<lambda>d e. (True, e, ''''),
     re_addRange = \<lambda>a b e. (True, e), re_addNumber = \<lambda>a e. (True, e), re_contains = \<lambda>a e. False,
     re_merge = \<lambda>f e. (True, e), re_loadRemoveRuleByMsg = \<lambda>m e. (True, e),
     re_loadRemoveRuleByTag = \<lambda>m e. (True, e), re_loadUpdateTargetByMsg = \<lambda>m v e. (True, e, ''''),
     re_loadUpdateTargetByTag = \<lambda>m v e. (True, e, ''''),
     re_loadUpdateTargetById = \<lambda>m v e. (True, e, ''''),
     re_loadUpdateActionById = \<lambda>m v e. (True, e, '''')\<rparr>"

definition base_props :: RulesSetProperties where
  "base_props = RulesSetProperties0 sample_aops sample_eops"

definition on_props :: RulesSetProperties where
  "on_props = base_props\<lparr>m_secRuleEngine := EnabledRuleEngine, m_components := [''crs'']\<rparr>"

definition detect_props :: RulesSetProperties where
  "detect_props = base_props\<lparr>m_secRuleEngine := DetectionOnlyRuleEngine\<rparr>"

definition clear_props :: RulesSetProperties where
  "clear_props = base_props\<lparr>m_responseBodyTypeToBeInspected :=
     \<lparr>cset_set = True, cset_clear = True, cset_value = {''text/html''}\<rparr>\<rparr>"

definition xml_props :: RulesSetProperties where
  "xml_props = base_props\<lparr>m_responseBodyTypeToBeInspected :=
     \<lparr>cset_set = True, cset_clear = False, cset_value = {''text/xml''}\<rparr>\<rparr>"

lemmas sample_props_defs = on_props_def detect_props_def clear_props_def xml_props_def base_props_def
  RulesSetProperties0_def RulesSetProperties_debug_def

lemma sample_merge_ok: "fst (mergeProperties sample_dops sample_aops eops from to err) = 1"
  by (cases rule: mergeProperties_cases [of sample_aops "from" to sample_dops eops err])
     (auto simp: merge_audit_log_def merge_debug_file_def sample_aops_def sample_dops_def
       split: option.splits if_splits)

lemma sample_sequence_ok: "fst (merge_sequence sample_dops sample_aops eops fs to err) = 1"
proof (induction fs arbitrary: to err)
  case (Cons f fs)
  then show ?case
    using sample_merge_ok [of eops f to err] by (auto split: prod.splits)
qed simp

theorem merge_sequence_first_set_witness:
  "let (rc, to', _) = merge_sequence sample_dops sample_aops sample_eops [on_props, detect_props] base_props ''''
   in settings to' S_RuleEngine = Some (V_Engine EnabledRuleEngine)"
proof -
  obtain to' err' where
    m: "merge_sequence sample_dops sample_aops sample_eops [on_props, detect_props] base_props '''' = (1, to', err')"
    by (metis sample_sequence_ok prod.collapse)
  have "settings base_props S_RuleEngine = None"
      "settings on_props S_RuleEngine = Some (V_Engine EnabledRuleEngine)"
    by (simp_all add: sample_props_defs view_ruleengine_def)
  then show ?thesis
    unfolding m using merge_sequence_first_set [OF m, of S_RuleEngine] by simp
qed

theorem mergeProperties_appends_witness:
  "let (_, _, to', _) = mergeProperties sample_dops sample_aops sample_eops on_props detect_props ''''
   in length (m_defaultActions to') = 7 \<and> m_components to' = [''crs'']"
proof -
  obtain rc from' to' err' where
    m: "mergeProperties sample_dops sample_aops sample_eops on_props detect_props '''' = (rc, from', to', err')"
    by (metis surj_pair)
  show ?thesis
    unfolding m using mergeProperties_appends [OF m, of 0] by (simp add: sample_props_defs)
qed

theorem clearing_body_types_is_not_passed_on_witness:
  "let (_, _, to', _) = mergeProperties sample_dops sample_aops sample_eops clear_props base_props '''';
       (_, _, third', _) = mergeProperties sample_dops sample_aops sample_eops to' xml_props ''''
   in cset_value (m_responseBodyTypeToBeInspected third') = {''text/xml''}"
proof -
  obtain rc from' to' err' where
    m: "mergeProperties sample_dops sample_aops sample_eops clear_props base_props '''' = (rc, from', to', err')"
    by (metis surj_pair)
  obtain rc2 to'' third' err2 where
    m': "mergeProperties sample_dops sample_aops sample_eops to' xml_props '''' = (rc2, to'', third', err2)"
    by (metis surj_pair)
  show ?thesis
    unfolding m using clearing_body_types_is_not_passed_on [OF _ _ _ m m'] m'
    by (simp add: sample_props_defs ConfigSet0_def)
qed

end
