(* ===== verification/MS_Collection.thy ===== *)
theory MS_Collection
  imports Wafie_Prelude
begin

text \<open>
  \<open>Collection\<close> (\<open>collection/collection.h\<close>) and \<open>Collections\<close> (\<open>collection/collections.h\<close>).  The
  pure virtual members of \<open>Collection\<close> are the fields of the parameter record \<open>collection_ops\<close> (the
  storage back ends are implemented elsewhere); the overloads with one or two compartments, which
  the header implements, are definitions over it.
\<close>

text \<open>
  \<open>'c\<close> is the state of a collection, \<open>'ke\<close> are key exclusions; the resolving members append to a
  vector of values.
\<close>

record ('c, 'ke) collection_ops =
  op_storeOrUpdateFirst :: "string \<Rightarrow> string \<Rightarrow> 'c \<Rightarrow> bool \<times> 'c"
  op_updateFirst :: "string \<Rightarrow> string \<Rightarrow> 'c \<Rightarrow> bool \<times> 'c"
  op_del :: "string \<Rightarrow> 'c \<Rightarrow> 'c"
  op_setExpiry :: "string \<Rightarrow> 32 word \<Rightarrow> 'c \<Rightarrow> 'c"
  op_resolveFirst :: "string \<Rightarrow> 'c \<Rightarrow> string option"
  op_resolveSingleMatch :: "string \<Rightarrow> addr list \<Rightarrow> 'c \<Rightarrow> addr list"
  op_resolveMultiMatches :: "string \<Rightarrow> addr list \<Rightarrow> 'ke \<Rightarrow> 'c \<Rightarrow> addr list"
  op_resolveRegularExpression :: "string \<Rightarrow> addr list \<Rightarrow> 'ke \<Rightarrow> 'c \<Rightarrow> addr list"

section \<open>Overloads with compartments\<close>

definition storeOrUpdateFirst1 :: "('c, 'ke) collection_ops \<Rightarrow> string \<Rightarrow> string \<Rightarrow> string \<Rightarrow> 'c \<Rightarrow> bool \<times> 'c" where
  "storeOrUpdateFirst1 ops key compartment value c =
     (let nkey = compartment @ ''::'' @ key in op_storeOrUpdateFirst ops nkey value c)"

definition storeOrUpdateFirst2 :: "('c, 'ke) collection_ops \<Rightarrow> string \<Rightarrow> string \<Rightarrow> string \<Rightarrow> string \<Rightarrow> 'c \<Rightarrow> bool \<times> 'c" where
  "storeOrUpdateFirst2 ops key compartment compartment2 value c =
     (let nkey = compartment @ ''::'' @ compartment2 @ ''::'' @ key
      in op_storeOrUpdateFirst ops nkey value c)"

definition updateFirst1 :: "('c, 'ke) collection_ops \<Rightarrow> string \<Rightarrow> string \<Rightarrow> string \<Rightarrow> 'c \<Rightarrow> bool \<times> 'c" where
  "updateFirst1 ops key compartment value c =
     (let nkey = compartment @ ''::'' @ key in op_updateFirst ops nkey value c)"

definition updateFirst2 :: "('c, 'ke) collection_ops \<Rightarrow> string \<Rightarrow> string \<Rightarrow> string \<Rightarrow> string \<Rightarrow> 'c \<Rightarrow> bool \<times> 'c" where
  "updateFirst2 ops key compartment compartment2 value c =
     (let nkey = compartment @ ''::'' @ compartment2 @ ''::'' @ key
      in op_updateFirst ops nkey value c)"

definition del1 :: "('c, 'ke) collection_ops \<Rightarrow> string \<Rightarrow> string \<Rightarrow> 'c \<Rightarrow> 'c" where
  "del1 ops key compartment c = (let nkey = compartment @ ''::'' @ key in op_del ops nkey c)"

definition del2 :: "('c, 'ke) collection_ops \<Rightarrow> string \<Rightarrow> string \<Rightarrow> string \<Rightarrow> 'c \<Rightarrow> 'c" where
  "del2 ops key compartment compartment2 c =
     (let nkey = compartment @ ''::'' @ compartment2 @ ''::'' @ key in op_del ops nkey c)"

definition setExpiry1 :: "('c, 'ke) collection_ops \<Rightarrow> string \<Rightarrow> string \<Rightarrow> 32 word \<Rightarrow> 'c \<Rightarrow> 'c" where
  "setExpiry1 ops key compartment expiry_seconds c =
     (let nkey = compartment @ ''::'' @ key in op_setExpiry ops nkey expiry_seconds c)"

definition setExpiry2 :: "('c, 'ke) collection_ops \<Rightarrow> string \<Rightarrow> string \<Rightarrow> string \<Rightarrow> 32 word \<Rightarrow> 'c \<Rightarrow> 'c" where
  "setExpiry2 ops key compartment compartment2 expiry_seconds c =
     (let nkey = compartment @ ''::'' @ compartment2 @ ''::'' @ key
      in op_setExpiry ops nkey expiry_seconds c)"

definition resolveFirst1 :: "('c, 'ke) collection_ops \<Rightarrow> string \<Rightarrow> string \<Rightarrow> 'c \<Rightarrow> string option" where
  "resolveFirst1 ops var compartment c =
     (let nkey = compartment @ ''::'' @ var in op_resolveFirst ops nkey c)"

definition resolveFirst2 :: "('c, 'ke) collection_ops \<Rightarrow> string \<Rightarrow> string \<Rightarrow> string \<Rightarrow> 'c \<Rightarrow> string option" where
  "resolveFirst2 ops var compartment compartment2 c =
     (let nkey = compartment @ ''::'' @ compartment2 @ ''::'' @ var in op_resolveFirst ops nkey c)"

definition resolveSingleMatch1 :: "('c, 'ke) collection_ops \<Rightarrow> string \<Rightarrow> string \<Rightarrow> addr list \<Rightarrow>
    'c \<Rightarrow> addr list" where
  "resolveSingleMatch1 ops var compartment l c =
     (let nkey = compartment @ ''::'' @ var in op_resolveSingleMatch ops nkey l c)"

definition resolveSingleMatch2 :: "('c, 'ke) collection_ops \<Rightarrow> string \<Rightarrow> string \<Rightarrow> string \<Rightarrow> addr list \<Rightarrow>
    'c \<Rightarrow> addr list" where
  "resolveSingleMatch2 ops var compartment compartment2 l c =
     (let nkey = compartment @ ''::'' @ compartment2 @ ''::'' @ var
      in op_resolveSingleMatch ops nkey l c)"

definition resolveMultiMatches1 :: "('c, 'ke) collection_ops \<Rightarrow> string \<Rightarrow> string \<Rightarrow> addr list \<Rightarrow>
    'ke \<Rightarrow> 'c \<Rightarrow> addr list" where
  "resolveMultiMatches1 ops var compartment l ke c =
     (let nkey = compartment @ ''::'' @ var in op_resolveMultiMatches ops nkey l ke c)"

definition resolveMultiMatches2 :: "('c, 'ke) collection_ops \<Rightarrow> string \<Rightarrow> string \<Rightarrow> string \<Rightarrow> addr list \<Rightarrow>
    'ke \<Rightarrow> 'c \<Rightarrow> addr list" where
  "resolveMultiMatches2 ops var compartment compartment2 l ke c =
     (let nkey = compartment @ ''::'' @ compartment2 @ ''::'' @ var
      in op_resolveMultiMatches ops nkey l ke c)"

definition resolveRegularExpression1 :: "('c, 'ke) collection_ops \<Rightarrow> string \<Rightarrow> string \<Rightarrow> addr list \<Rightarrow>
    'ke \<Rightarrow> 'c \<Rightarrow> addr list" where
  "resolveRegularExpression1 ops var compartment l ke c =
     (let nkey = compartment @ ''::'' @ var in op_resolveRegularExpression ops nkey l ke c)"

definition resolveRegularExpression2 :: "('c, 'ke) collection_ops \<Rightarrow> string \<Rightarrow> string \<Rightarrow> string \<Rightarrow> addr list \<Rightarrow>
    'ke \<Rightarrow> 'c \<Rightarrow> addr list" where
  "resolveRegularExpression2 ops var compartment compartment2 l ke c =
     (let nkey = compartment @ ''::'' @ compartment2 @ ''::'' @ var
      in op_resolveRegularExpression ops nkey l ke c)"

lemmas overload_defs = storeOrUpdateFirst1_def storeOrUpdateFirst2_def updateFirst1_def updateFirst2_def
  del1_def del2_def setExpiry1_def setExpiry2_def resolveFirst1_def resolveFirst2_def
  resolveSingleMatch1_def resolveSingleMatch2_def resolveMultiMatches1_def resolveMultiMatches2_def
  resolveRegularExpression1_def resolveRegularExpression2_def Let_def

section \<open>Collections\<close>

record Collections =
  m_global_collection_key :: string
  m_ip_collection_key :: string
  m_session_collection_key :: string
  m_user_collection_key :: string
  m_resource_collection_key :: string
  m_global_collection :: ptr
  m_ip_collection :: ptr
  m_session_collection :: ptr
  m_user_collection :: ptr
  m_resource_collection :: ptr
  m_tx_collection :: ptr

section \<open>Helper lemmas\<close>

text \<open>
  An address moved over one separator: the rest of the longer compartment stands in front of the
  other key.  In the second case the two separators overlap in one colon.
\<close>

definition shifted_address :: "string \<Rightarrow> string \<Rightarrow> string \<Rightarrow> string \<Rightarrow> bool" where
  "shifted_address cmp key cmp' key' \<longleftrightarrow>
     (\<exists>m. cmp' = cmp @ ''::'' @ m \<and> key = m @ ''::'' @ key')
     \<or> (cmp' = cmp @ '':'' \<and> key = '':'' @ key')"

lemma separator_prefix:
  "''::'' @ key = us @ ''::'' @ key' \<longleftrightarrow> us = [] \<and> key = key'
     \<or> us = '':'' \<and> key = '':'' @ key' \<or> (\<exists>m. us = ''::'' @ m \<and> key = m @ ''::'' @ key')"
proof (cases us)
  case (Cons x xs)
  then show ?thesis by (cases xs) auto
qed auto

lemma compartment_key_eq_iff:
  "cmp @ ''::'' @ key = cmp' @ ''::'' @ key' \<longleftrightarrow>
     cmp = cmp' \<and> key = key' \<or> shifted_address cmp key cmp' key' \<or> shifted_address cmp' key' cmp key"
proof -
  have "cmp @ ''::'' @ key = cmp' @ ''::'' @ key' \<longleftrightarrow> (\<exists>us.
      cmp = cmp' @ us \<and> ''::'' @ key' = us @ ''::'' @ key \<or> cmp' = cmp @ us \<and> ''::'' @ key = us @ ''::'' @ key')"
    using append_eq_append_conv2 [of cmp "''::'' @ key" cmp' "''::'' @ key'"] by metis
  then show ?thesis unfolding separator_prefix by (auto simp: shifted_address_def)
qed

lemma shifted_address_colon: "shifted_address cmp key cmp' key' \<Longrightarrow> CHR '':'' \<in> set cmp'"
  by (auto simp: shifted_address_def)

section \<open>Properties\<close>

text \<open>
  C25: every overload with compartments, whether it stores, updates, deletes, expires or resolves,
  reaches the back end under one and the same entry for a compartment and a key, and two nested
  compartments are the first compartment with an entry of the second one as its key.  Two addresses
  share an entry exactly if they are equal or one is the other moved over a separator; therefore
  compartments without a colon never share an entry, and a compartment with one does so with another
  compartment (the address of an IPv6 client contains \<open>::\<close>).
\<close>

theorem compartments_share_an_entry_iff:
  "\<exists>entry :: string \<Rightarrow> string \<Rightarrow> string.
     (\<forall>(ops :: ('c, 'ke) collection_ops) cmp key v n l ke c.
        storeOrUpdateFirst1 ops key cmp v c = op_storeOrUpdateFirst ops (entry cmp key) v c
      \<and> updateFirst1 ops key cmp v c = op_updateFirst ops (entry cmp key) v c
      \<and> del1 ops key cmp c = op_del ops (entry cmp key) c
      \<and> setExpiry1 ops key cmp n c = op_setExpiry ops (entry cmp key) n c
      \<and> resolveFirst1 ops key cmp c = op_resolveFirst ops (entry cmp key) c
      \<and> resolveSingleMatch1 ops key cmp l c = op_resolveSingleMatch ops (entry cmp key) l c
      \<and> resolveMultiMatches1 ops key cmp l ke c = op_resolveMultiMatches ops (entry cmp key) l ke c
      \<and> resolveRegularExpression1 ops key cmp l ke c
          = op_resolveRegularExpression ops (entry cmp key) l ke c)
   \<and> (\<forall>(ops :: ('c, 'ke) collection_ops) cmp cmp2 key v n l ke c.
        storeOrUpdateFirst2 ops key cmp cmp2 v c = storeOrUpdateFirst1 ops (entry cmp2 key) cmp v c
      \<and> updateFirst2 ops key cmp cmp2 v c = updateFirst1 ops (entry cmp2 key) cmp v c
      \<and> del2 ops key cmp cmp2 c = del1 ops (entry cmp2 key) cmp c
      \<and> setExpiry2 ops key cmp cmp2 n c = setExpiry1 ops (entry cmp2 key) cmp n c
      \<and> resolveFirst2 ops key cmp cmp2 c = resolveFirst1 ops (entry cmp2 key) cmp c
      \<and> resolveSingleMatch2 ops key cmp cmp2 l c = resolveSingleMatch1 ops (entry cmp2 key) cmp l c
      \<and> resolveMultiMatches2 ops key cmp cmp2 l ke c
          = resolveMultiMatches1 ops (entry cmp2 key) cmp l ke c
      \<and> resolveRegularExpression2 ops key cmp cmp2 l ke c
          = resolveRegularExpression1 ops (entry cmp2 key) cmp l ke c)
   \<and> (\<forall>cmp key cmp' key'. entry cmp key = entry cmp' key' \<longleftrightarrow>
        cmp = cmp' \<and> key = key' \<or> shifted_address cmp key cmp' key' \<or> shifted_address cmp' key' cmp key)
   \<and> inj_on (\<lambda>(cmp, key). entry cmp key) {(cmp, key). CHR '':'' \<notin> set cmp}
   \<and> (\<forall>cmp m key. entry (cmp @ ''::'' @ m) key = entry cmp (entry m key))"
proof (rule exI [of _ "\<lambda>cmp key. cmp @ ''::'' @ key"], intro conjI allI)
  show "inj_on (\<lambda>(cmp, key). cmp @ ''::'' @ key) {(cmp, key). CHR '':'' \<notin> set cmp}"
    by (rule inj_onI) (use compartment_key_eq_iff shifted_address_colon in fastforce)
qed (rule compartment_key_eq_iff | simp add: overload_defs)+

text \<open>
  compartments that contain the separator are not isolated, for any back end: the entry of key
  \<open>k\<close> in compartment \<open>a::b\<close> is the entry of key \<open>b::k\<close> in compartment \<open>a\<close>, and also the entry of
  key \<open>k\<close> in the nested compartments \<open>a\<close> and \<open>b\<close>.  (The address of an IPv6 client contains \<open>::\<close>.)
\<close>

theorem compartments_with_separator_collide:
  "resolveFirst1 ops k (a @ ''::'' @ b) c = resolveFirst1 ops (b @ ''::'' @ k) a c
   \<and> resolveFirst1 ops k (a @ ''::'' @ b) c = resolveFirst2 ops k a b c
   \<and> storeOrUpdateFirst1 ops k (a @ ''::'' @ b) v c = storeOrUpdateFirst1 ops (b @ ''::'' @ k) a v c
   \<and> storeOrUpdateFirst1 ops k (a @ ''::'' @ b) v c = storeOrUpdateFirst2 ops k a b v c"
  by (simp add: overload_defs)

end
