(* ===== verification/MS_Transaction.thy ===== *)
theory MS_Transaction
  imports MS_Variables MS_Properties MS_Collection
begin

text \<open>
  \<open>transaction.h\<close>: the macros for debug and audit messages, the anchored variables of a transaction
  (\<open>TransactionAnchoredVariables\<close>), the marker of a skipped section
  (\<open>TransactionSecMarkerManagement\<close>) and the class \<open>Transaction\<close>, whose two base classes are the
  records it extends.  The constructors of the variables and the members of \<open>Transaction\<close>, which the
  header declares only, are parameters (\<open>transaction_ops\<close>).
\<close>

section \<open>Macros\<close>

text \<open>
  The calls of \<open>debug\<close> that \<open>ms_dbg(b, c)\<close> makes, from the pointer to the rules: none if a pointer on
  the way to the level is null or the level is lower than \<open>b\<close>.
\<close>

definition ms_dbg :: "RulesSetProperties option \<Rightarrow> string \<Rightarrow> string \<Rightarrow> cint \<Rightarrow> string \<Rightarrow>
    (cint \<times> string \<times> string \<times> string) list" where
  "ms_dbg rules ident uri b c = (case rules of None \<Rightarrow> []
     | Some r \<Rightarrow> (case m_debugLog r of None \<Rightarrow> []
       | Some d \<Rightarrow> if sint (dl_debugLevel d) \<ge> sint b then [(b, ident, uri, c)] else []))"

definition ms_dbg_a :: "('t \<Rightarrow> RulesSetProperties option) \<Rightarrow> 't option \<Rightarrow> cint \<Rightarrow> string \<Rightarrow>
    (cint \<times> string) list" where
  "ms_dbg_a rules_of t b c = (case t of None \<Rightarrow> []
     | Some t' \<Rightarrow> (case rules_of t' of None \<Rightarrow> []
       | Some r \<Rightarrow> (case m_debugLog r of None \<Rightarrow> []
         | Some d \<Rightarrow> if sint (dl_debugLevel d) \<ge> sint b then [(b, c)] else [])))"

text \<open>The calls of the JSON generator that the \<open>LOGFY\<close> macros make.\<close>

datatype yajl_call = Yajl_String string | Yajl_Number string | Yajl_Integer int

definition LOGFY_ADD :: "string \<Rightarrow> string option \<Rightarrow> yajl_call list" where
  "LOGFY_ADD a b = [Yajl_String (c_str a),
     (case b of None \<Rightarrow> Yajl_String (c_str '''') | Some d \<Rightarrow> Yajl_String d)]"

definition LOGFY_ADD_INT :: "string \<Rightarrow> string \<Rightarrow> yajl_call list" where
  "LOGFY_ADD_INT a b = [Yajl_String (c_str a), Yajl_Number (c_str b)]"

definition LOGFY_ADD_NUM :: "string \<Rightarrow> int \<Rightarrow> yajl_call list" where
  "LOGFY_ADD_NUM a b = [Yajl_String (c_str a), Yajl_Integer b]"

section \<open>TransactionAnchoredVariables\<close>

text \<open>A translation proxy of the transaction points to one of its own set variables.\<close>

datatype fount_member = Fount_Args | Fount_ArgsGet | Fount_ArgsPost

record proxy_ref =
  pr_name :: string
  pr_fount :: fount_member

record TransactionAnchoredVariables =
  m_variableRequestHeadersNames :: anchored_set_variable
  m_variableResponseContentType :: anchored_variable
  m_variableResponseHeadersNames :: anchored_set_variable
  m_variableARGScombinedSize :: anchored_variable
  m_variableAuthType :: anchored_variable
  m_variableFilesCombinedSize :: anchored_variable
  m_variableFullRequest :: anchored_variable
  m_variableFullRequestLength :: anchored_variable
  m_variableInboundDataError :: anchored_variable
  m_variableMatchedVar :: anchored_variable
  m_variableMatchedVarName :: anchored_variable
  m_variableMscPcreError :: anchored_variable
  m_variableMscPcreLimitsExceeded :: anchored_variable
  m_variableMultipartBoundaryQuoted :: anchored_variable
  m_variableMultipartBoundaryWhiteSpace :: anchored_variable
  m_variableMultipartCrlfLFLines :: anchored_variable
  m_variableMultipartDataAfter :: anchored_variable
  m_variableMultipartDataBefore :: anchored_variable
  m_variableMultipartFileLimitExceeded :: anchored_variable
  m_variableMultipartHeaderFolding :: anchored_variable
  m_variableMultipartInvalidHeaderFolding :: anchored_variable
  m_variableMultipartInvalidPart :: anchored_variable
  m_variableMultipartInvalidQuoting :: anchored_variable
  m_variableMultipartLFLine :: anchored_variable
  m_variableMultipartMissingSemicolon :: anchored_variable
  m_variableMultipartStrictError :: anchored_variable
  m_variableMultipartUnmatchedBoundary :: anchored_variable
  m_variableOutboundDataError :: anchored_variable
  m_variablePathInfo :: anchored_variable
  m_variableQueryString :: anchored_variable
  m_variableRemoteAddr :: anchored_variable
  m_variableRemoteHost :: anchored_variable
  m_variableRemotePort :: anchored_variable
  m_variableReqbodyError :: anchored_variable
  m_variableReqbodyErrorMsg :: anchored_variable
  m_variableReqbodyProcessorError :: anchored_variable
  m_variableReqbodyProcessorErrorMsg :: anchored_variable
  m_variableReqbodyProcessor :: anchored_variable
  m_variableRequestBasename :: anchored_variable
  m_variableRequestBody :: anchored_variable
  m_variableRequestBodyLength :: anchored_variable
  m_variableRequestFilename :: anchored_variable
  m_variableRequestLine :: anchored_variable
  m_variableRequestMethod :: anchored_variable
  m_variableRequestProtocol :: anchored_variable
  m_variableRequestURI :: anchored_variable
  m_variableRequestURIRaw :: anchored_variable
  m_variableResource :: anchored_variable
  m_variableResponseBody :: anchored_variable
  m_variableResponseContentLength :: anchored_variable
  m_variableResponseProtocol :: anchored_variable
  m_variableResponseStatus :: anchored_variable
  m_variableServerAddr :: anchored_variable
  m_variableServerName :: anchored_variable
  m_variableServerPort :: anchored_variable
  m_variableSessionID :: anchored_variable
  m_variableUniqueID :: anchored_variable
  m_variableUrlEncodedError :: anchored_variable
  m_variableUserID :: anchored_variable
  m_variableArgs :: anchored_set_variable
  m_variableArgsGet :: anchored_set_variable
  m_variableArgsPost :: anchored_set_variable
  m_variableFilesSizes :: anchored_set_variable
  m_variableFilesNames :: anchored_set_variable
  m_variableFilesTmpContent :: anchored_set_variable
  m_variableMultipartFileName :: anchored_set_variable
  m_variableMultipartName :: anchored_set_variable
  m_variableMatchedVarsNames :: anchored_set_variable
  m_variableMatchedVars :: anchored_set_variable
  m_variableFiles :: anchored_set_variable
  m_variableRequestCookies :: anchored_set_variable
  m_variableRequestHeaders :: anchored_set_variable
  m_variableResponseHeaders :: anchored_set_variable
  m_variableGeo :: anchored_set_variable
  m_variableRequestCookiesNames :: anchored_set_variable
  m_variableFilesTmpNames :: anchored_set_variable
  m_variableMultipartPartHeaders :: anchored_set_variable
  m_variableOffset :: cint
  m_variableArgsNames :: proxy_ref
  m_variableArgsGetNames :: proxy_ref
  m_variableArgsPostNames :: proxy_ref

text \<open>
  The constructor; \<open>mkVar\<close> and \<open>mkSet\<close> are the constructors of the two kinds of variables.
\<close>

definition TransactionAnchoredVariables_init :: "(ptr \<Rightarrow> string \<Rightarrow> anchored_variable) \<Rightarrow>
    (ptr \<Rightarrow> string \<Rightarrow> anchored_set_variable) \<Rightarrow> ptr \<Rightarrow> TransactionAnchoredVariables" where
  "TransactionAnchoredVariables_init mkVar mkSet t = \<lparr>
     m_variableRequestHeadersNames = mkSet t ''REQUEST_HEADERS_NAMES'',
     m_variableResponseContentType = mkVar t ''RESPONSE_CONTENT_TYPE'',
     m_variableResponseHeadersNames = mkSet t ''RESPONSE_HEADERS_NAMES'',
     m_variableARGScombinedSize = mkVar t ''ARGS_COMBINED_SIZE'',
     m_variableAuthType = mkVar t ''AUTH_TYPE'',
     m_variableFilesCombinedSize = mkVar t ''FILES_COMBINED_SIZE'',
     m_variableFullRequest = mkVar t ''FULL_REQUEST'',
     m_variableFullRequestLength = mkVar t ''FULL_REQUEST_LENGTH'',
     m_variableInboundDataError = mkVar t ''INBOUND_DATA_ERROR'',
     m_variableMatchedVar = mkVar t ''MATCHED_VAR'',
     m_variableMatchedVarName = mkVar t ''MATCHED_VAR_NAME'',
     m_variableMscPcreError = mkVar t ''MSC_PCRE_ERROR'',
     m_variableMscPcreLimitsExceeded = mkVar t ''MSC_PCRE_LIMITS_EXCEEDED'',
     m_variableMultipartBoundaryQuoted = mkVar t ''MULTIPART_BOUNDARY_QUOTED'',
     m_variableMultipartBoundaryWhiteSpace = mkVar t ''MULTIPART_BOUNDARY_WHITESPACE'',
     m_variableMultipartCrlfLFLines = mkVar t ''MULTIPART_CRLF_LF_LINES'',
     m_variableMultipartDataAfter = mkVar t ''MULTIPART_DATA_AFTER'',
     m_variableMultipartDataBefore = mkVar t ''MULTIPART_DATA_BEFORE'',
     m_variableMultipartFileLimitExceeded = mkVar t ''MULTIPART_FILE_LIMIT_EXCEEDED'',
     m_variableMultipartHeaderFolding = mkVar t ''MULTIPART_HEADER_FOLDING'',
     m_variableMultipartInvalidHeaderFolding = mkVar t ''MULTIPART_INVALID_HEADER_FOLDING'',
     m_variableMultipartInvalidPart = mkVar t ''MULTIPART_INVALID_PART'',
     m_variableMultipartInvalidQuoting = mkVar t ''MULTIPART_INVALID_QUOTING'',
     m_variableMultipartLFLine = mkVar t ''MULTIPART_LF_LINE'',
     m_variableMultipartMissingSemicolon = mkVar t ''MULTIPART_MISSING_SEMICOLON'',
     m_variableMultipartStrictError = mkVar t ''MULTIPART_STRICT_ERROR'',
     m_variableMultipartUnmatchedBoundary = mkVar t ''MULTIPART_UNMATCHED_BOUNDARY'',
     m_variableOutboundDataError = mkVar t ''OUTBOUND_DATA_ERROR'',
     m_variablePathInfo = mkVar t ''PATH_INFO'',
     m_variableQueryString = mkVar t ''QUERY_STRING'',
     m_variableRemoteAddr = mkVar t ''REMOTE_ADDR'',
     m_variableRemoteHost = mkVar t ''REMOTE_HOST'',
     m_variableRemotePort = mkVar t ''REMOTE_PORT'',
     m_variableReqbodyError = mkVar t ''REQBODY_ERROR'',
     m_variableReqbodyErrorMsg = mkVar t ''REQBODY_ERROR_MSG'',
     m_variableReqbodyProcessorError = mkVar t ''REQBODY_PROCESSOR_ERROR'',
     m_variableReqbodyProcessorErrorMsg = mkVar t ''REQBODY_PROCESSOR_ERROR_MSG'',
     m_variableReqbodyProcessor = mkVar t ''REQBODY_PROCESSOR'',
     m_variableRequestBasename = mkVar t ''REQUEST_BASENAME'',
     m_variableRequestBody = mkVar t ''REQUEST_BODY'',
     m_variableRequestBodyLength = mkVar t ''REQUEST_BODY_LENGTH'',
     m_variableRequestFilename = mkVar t ''REQUEST_FILENAME'',
     m_variableRequestLine = mkVar t ''REQUEST_LINE'',
     m_variableRequestMethod = mkVar t ''REQUEST_METHOD'',
     m_variableRequestProtocol = mkVar t ''REQUEST_PROTOCOL'',
     m_variableRequestURI = mkVar t ''REQUEST_URI'',
     m_variableRequestURIRaw = mkVar t ''REQUEST_URI_RAW'',
     m_variableResource = mkVar t ''RESOURCE'',
     m_variableResponseBody = mkVar t ''RESPONSE_BODY'',
     m_variableResponseContentLength = mkVar t ''RESPONSE_CONTENT_LENGTH'',
     m_variableResponseProtocol = mkVar t ''RESPONSE_PROTOCOL'',
     m_variableResponseStatus = mkVar t ''RESPONSE_STATUS'',
     m_variableServerAddr = mkVar t ''SERVER_ADDR'',
     m_variableServerName = mkVar t ''SERVER_NAME'',
     m_variableServerPort = mkVar t ''SERVER_PORT'',
     m_variableSessionID = mkVar t ''SESSIONID'',
     m_variableUniqueID = mkVar t ''UNIQUE_ID'',
     m_variableUrlEncodedError = mkVar t ''URLENCODED_ERROR'',
     m_variableUserID = mkVar t ''USERID'',
     m_variableArgs = mkSet t ''ARGS'',
     m_variableArgsGet = mkSet t ''ARGS_GET'',
     m_variableArgsPost = mkSet t ''ARGS_POST'',
     m_variableFilesSizes = mkSet t ''FILES_SIZES'',
     m_variableFilesNames = mkSet t ''FILES_NAMES'',
     m_variableFilesTmpContent = mkSet t ''FILES_TMP_CONTENT'',
     m_variableMultipartFileName = mkSet t ''MULTIPART_FILENAME'',
     m_variableMultipartName = mkSet t ''MULTIPART_NAME'',
     m_variableMatchedVarsNames = mkSet t ''MATCHED_VARS_NAMES'',
     m_variableMatchedVars = mkSet t ''MATCHED_VARS'',
     m_variableFiles = mkSet t ''FILES'',
     m_variableRequestCookies = mkSet t ''REQUEST_COOKIES'',
     m_variableRequestHeaders = mkSet t ''REQUEST_HEADERS'',
     m_variableResponseHeaders = mkSet t ''RESPONSE_HEADERS'',
     m_variableGeo = mkSet t ''GEO'',
     m_variableRequestCookiesNames = mkSet t ''REQUEST_COOKIES_NAMES'',
     m_variableFilesTmpNames = mkSet t ''FILES_TMPNAMES'',
     m_variableMultipartPartHeaders = mkSet t ''MULTIPART_PART_HEADERS'',
     m_variableOffset = 0,
     m_variableArgsNames = \<lparr>pr_name = ''ARGS_NAMES'', pr_fount = Fount_Args\<rparr>,
     m_variableArgsGetNames = \<lparr>pr_name = ''ARGS_GET_NAMES'', pr_fount = Fount_ArgsGet\<rparr>,
     m_variableArgsPostNames = \<lparr>pr_name = ''ARGS_POST_NAMES'', pr_fount = Fount_ArgsPost\<rparr>\<rparr>"

text \<open>The set variable behind a proxy, as it is now.\<close>

fun fount_of :: "'a TransactionAnchoredVariables_scheme \<Rightarrow> fount_member \<Rightarrow> anchored_set_variable" where
  "fount_of v Fount_Args = m_variableArgs v"
| "fount_of v Fount_ArgsGet = m_variableArgsGet v"
| "fount_of v Fount_ArgsPost = m_variableArgsPost v"

definition proxy_in :: "'a TransactionAnchoredVariables_scheme \<Rightarrow> proxy_ref \<Rightarrow> translation_proxy" where
  "proxy_in v pr = \<lparr>tp_name = pr_name pr, tp_fount = fount_of v (pr_fount pr)\<rparr>"

section \<open>TransactionSecMarkerManagement\<close>

record TransactionSecMarkerManagement = TransactionAnchoredVariables +
  m_marker :: "string option"  \<comment> \<open>a shared pointer\<close>

definition isInsideAMarker :: "'a TransactionSecMarkerManagement_scheme \<Rightarrow> bool" where
  "isInsideAMarker t = (case m_marker t of Some _ \<Rightarrow> True | None \<Rightarrow> False)"

definition getCurrentMarker :: "'a TransactionSecMarkerManagement_scheme \<Rightarrow> string res" where
  "getCurrentMarker t = (case m_marker t of None \<Rightarrow> Inl Assertion_Failed | Some m \<Rightarrow> Inr m)"

definition removeMarker ::
    "'a TransactionSecMarkerManagement_scheme \<Rightarrow> 'a TransactionSecMarkerManagement_scheme" where
  "removeMarker t = t\<lparr>m_marker := None\<rparr>"

definition addMarker ::
    "string \<Rightarrow> 'a TransactionSecMarkerManagement_scheme \<Rightarrow> 'a TransactionSecMarkerManagement_scheme" where
  "addMarker name t = t\<lparr>m_marker := Some name\<rparr>"

section \<open>Transaction\<close>

datatype RequestBodyType =
    UnknownFormat
  | MultiPartRequestBody
  | WWWFormUrlEncoded
  | JSONRequestBody
  | XMLRequestBody

text \<open>The data members, in two parts; \<open>'msg\<close> are rule messages.\<close>

record 'msg Transaction_request = TransactionSecMarkerManagement +
  tx_creationTimeStamp :: int
  tx_clientIpAddress :: string
  tx_httpVersion :: string
  tx_serverIpAddress :: string
  tx_requestHostName :: string
  tx_uri :: string
  tx_uri_no_query_string_decoded :: string
  tx_ARGScombinedSizeDouble :: real
  tx_clientPort :: cint
  tx_highestSeverityAction :: cint
  tx_httpCodeReturned :: cint
  tx_serverPort :: cint
  tx_ms :: ptr
  tx_requestBodyType :: RequestBodyType
  tx_requestBodyProcessor :: RequestBodyType
  tx_rules :: ptr
  tx_ruleRemoveById :: "cint list"
  tx_ruleRemoveByIdRange :: "(cint \<times> cint) list"
  tx_ruleRemoveByTag :: "string list"
  tx_ruleRemoveTargetByTag :: "(string \<times> string) list"
  tx_ruleRemoveTargetById :: "(cint \<times> string) list"
  tx_requestBodyAccess :: cint
  tx_auditLogModifier :: "(cint \<times> string) list"
  tx_ctlAuditEngine :: AuditLogStatus
  tx_rulesMessages :: "'msg list"

record 'msg Transaction = "'msg Transaction_request" +
  tx_requestBody :: string
  tx_responseBody :: string
  tx_id :: string
  tx_skip_next :: cint
  tx_allowType :: cint
  tx_uri_decoded :: string
  tx_actions :: "ModSecurityIntervention list"
  tx_it :: ModSecurityIntervention
  tx_timeStamp :: int
  tx_collections :: Collections
  tx_matched :: "string list"
  tx_xml :: ptr
  tx_json :: ptr
  tx_secRuleEngine :: cint
  tx_secXMLParseXmlIntoArgs :: cint
  tx_variableDuration :: string
  tx_variableEnvs :: "string \<rightharpoonup> string"
  tx_variableHighestSeverityAction :: string
  tx_variableRemoteUser :: string
  tx_variableTime :: string
  tx_variableTimeDay :: string
  tx_variableTimeEpoch :: string
  tx_variableTimeHour :: string
  tx_variableTimeMin :: string
  tx_variableTimeSec :: string
  tx_variableTimeWDay :: string
  tx_variableTimeYear :: string
  tx_multipartPartTmpFiles :: "addr list"
  tx_logCbData :: ptr

text \<open>Comparison of transactions is \<open>false\<close>, even with itself.\<close>

definition Transaction_eq :: "'msg Transaction \<Rightarrow> 'msg Transaction \<Rightarrow> bool" where
  "Transaction_eq a b = False"

text \<open>
  The declared members over a state \<open>'t\<close> (a transaction and what it can reach); each returns its
  result and the new state.
\<close>

record ('t, 'msg) transaction_ops =
  op_Transaction :: "ptr \<Rightarrow> ptr \<Rightarrow> ptr \<Rightarrow> 't"
  op_Transaction_id :: "ptr \<Rightarrow> ptr \<Rightarrow> string \<Rightarrow> ptr \<Rightarrow> 't"
  op_processConnection :: "string \<Rightarrow> cint \<Rightarrow> string \<Rightarrow> cint \<Rightarrow> 't \<Rightarrow> cint \<times> 't"
  op_processURI :: "string \<Rightarrow> string \<Rightarrow> string \<Rightarrow> 't \<Rightarrow> cint \<times> 't"
  op_processRequestHeaders :: "'t \<Rightarrow> cint \<times> 't"
  op_addRequestHeader :: "string \<Rightarrow> string \<Rightarrow> 't \<Rightarrow> cint \<times> 't"
  op_processRequestBody :: "'t \<Rightarrow> cint \<times> 't"
  op_appendRequestBody :: "string \<Rightarrow> size_t \<Rightarrow> 't \<Rightarrow> cint \<times> 't"
  op_requestBodyFromFile :: "string \<Rightarrow> 't \<Rightarrow> cint \<times> 't"
  op_processResponseHeaders :: "cint \<Rightarrow> string \<Rightarrow> 't \<Rightarrow> cint \<times> 't"
  op_addResponseHeader :: "string \<Rightarrow> string \<Rightarrow> 't \<Rightarrow> cint \<times> 't"
  op_processResponseBody :: "'t \<Rightarrow> cint \<times> 't"
  op_appendResponseBody :: "string \<Rightarrow> size_t \<Rightarrow> 't \<Rightarrow> cint \<times> 't"
  op_processLogging :: "'t \<Rightarrow> cint \<times> 't"
  op_updateStatusCode :: "cint \<Rightarrow> 't \<Rightarrow> cint \<times> 't"
  op_setRequestHostName :: "string \<Rightarrow> 't \<Rightarrow> cint \<times> 't"
  op_intervention :: "'t \<Rightarrow> bool \<times> ModSecurityIntervention \<times> 't"
  op_addArgument :: "string \<Rightarrow> string \<Rightarrow> string \<Rightarrow> size_t \<Rightarrow> 't \<Rightarrow> bool \<times> 't"
  op_extractArguments :: "string \<Rightarrow> string \<Rightarrow> size_t \<Rightarrow> 't \<Rightarrow> bool \<times> 't"
  op_getResponseBody :: "'t \<Rightarrow> string"
  op_getResponseBodyLength :: "'t \<Rightarrow> size_t"
  op_getRequestBodyLength :: "'t \<Rightarrow> size_t"
  op_debug :: "cint \<Rightarrow> string \<Rightarrow> 't \<Rightarrow> 't"
  op_tx_serverLog :: "'msg \<Rightarrow> 't \<Rightarrow> 't"
  op_getRuleEngineState :: "'t \<Rightarrow> cint"
  op_toJSON :: "cint \<Rightarrow> 't \<Rightarrow> string"
  op_toOldAuditLogFormat :: "cint \<Rightarrow> string \<Rightarrow> 't \<Rightarrow> string"
  op_toOldAuditLogFormatIndex :: "string \<Rightarrow> real \<Rightarrow> string \<Rightarrow> 't \<Rightarrow> string"

end
