(* ===== verification/MS_Transaction_Facts.thy ===== *)
theory MS_Transaction_Facts
  imports MS_Transaction
begin

text \<open>
  What the constructor and the macros of \<open>transaction.h\<close> guarantee: the names of the anchored
  variables, the proxies for argument names, and when a debug message is produced.
\<close>

section \<open>Names of the anchored variables\<close>

text \<open>The names by which rules refer to the members, in the order of their declaration.\<close>

definition anchored_names :: "'a TransactionAnchoredVariables_scheme \<Rightarrow> string list" where
  "anchored_names v = [
     asv_name (m_variableRequestHeadersNames v),
     av_name (m_variableResponseContentType v),
     asv_name (m_variableResponseHeadersNames v),
     av_name (m_variableARGScombinedSize v),
     av_name (m_variableAuthType v),
     av_name (m_variableFilesCombinedSize v),
     av_name (m_variableFullRequest v),
     av_name (m_variableFullRequestLength v),
     av_name (m_variableInboundDataError v),
     av_name (m_variableMatchedVar v),
     av_name (m_variableMatchedVarName v),
     av_name (m_variableMscPcreError v),
     av_name (m_variableMscPcreLimitsExceeded v),
     av_name (m_variableMultipartBoundaryQuoted v),
     av_name (m_variableMultipartBoundaryWhiteSpace v),
     av_name (m_variableMultipartCrlfLFLines v),
     av_name (m_variableMultipartDataAfter v),
     av_name (m_variableMultipartDataBefore v),
     av_name (m_variableMultipartFileLimitExceeded v),
     av_name (m_variableMultipartHeaderFolding v),
     av_name (m_variableMultipartInvalidHeaderFolding v),
     av_name (m_variableMultipartInvalidPart v),
     av_name (m_variableMultipartInvalidQuoting v),
     av_name (m_variableMultipartLFLine v),
     av_name (m_variableMultipartMissingSemicolon v),
     av_name (m_variableMultipartStrictError v),
     av_name (m_variableMultipartUnmatchedBoundary v),
     av_name (m_variableOutboundDataError v),
     av_name (m_variablePathInfo v),
     av_name (m_variableQueryString v),
     av_name (m_variableRemoteAddr v),
     av_name (m_variableRemoteHost v),
     av_name (m_variableRemotePort v),
     av_name (m_variableReqbodyError v),
     av_name (m_variableReqbodyErrorMsg v),
     av_name (m_variableReqbodyProcessorError v),
     av_name (m_variableReqbodyProcessorErrorMsg v),
     av_name (m_variableReqbodyProcessor v),
     av_name (m_variableRequestBasename v),
     av_name (m_variableRequestBody v),
     av_name (m_variableRequestBodyLength v),
     av_name (m_variableRequestFilename v),
     av_name (m_variableRequestLine v),
     av_name (m_variableRequestMethod v),
     av_name (m_variableRequestProtocol v),
     av_name (m_variableRequestURI v),
     av_name (m_variableRequestURIRaw v),
     av_name (m_variableResource v),
     av_name (m_variableResponseBody v),
     av_name (m_variableResponseContentLength v),
     av_name (m_variableResponseProtocol v),
     av_name (m_variableResponseStatus v),
     av_name (m_variableServerAddr v),
     av_name (m_variableServerName v),
     av_name (m_variableServerPort v),
     av_name (m_variableSessionID v),
     av_name (m_variableUniqueID v),
     av_name (m_variableUrlEncodedError v),
     av_name (m_variableUserID v),
     asv_name (m_variableArgs v),
     asv_name (m_variableArgsGet v),
     asv_name (m_variableArgsPost v),
     asv_name (m_variableFilesSizes v),
     asv_name (m_variableFilesNames v),
     asv_name (m_variableFilesTmpContent v),
     asv_name (m_variableMultipartFileName v),
     asv_name (m_variableMultipartName v),
     asv_name (m_variableMatchedVarsNames v),
     asv_name (m_variableMatchedVars v),
     asv_name (m_variableFiles v),
     asv_name (m_variableRequestCookies v),
     asv_name (m_variableRequestHeaders v),
     asv_name (m_variableResponseHeaders v),
     asv_name (m_variableGeo v),
     asv_name (m_variableRequestCookiesNames v),
     asv_name (m_variableFilesTmpNames v),
     asv_name (m_variableMultipartPartHeaders v),
     pr_name (m_variableArgsNames v),
     pr_name (m_variableArgsGetNames v),
     pr_name (m_variableArgsPostNames v)]"

text \<open>What the code relies on in the constructors of the variables: they keep the given name.\<close>

definition keeps_names :: "(ptr \<Rightarrow> string \<Rightarrow> anchored_variable) \<Rightarrow>
    (ptr \<Rightarrow> string \<Rightarrow> anchored_set_variable) \<Rightarrow> bool" where
  "keeps_names mkVar mkSet \<longleftrightarrow> (\<forall>t n. av_name (mkVar t n) = n) \<and> (\<forall>t n. asv_name (mkSet t n) = n)"

definition sample_mkVar :: "ptr \<Rightarrow> string \<Rightarrow> anchored_variable" where
  "sample_mkVar t n = \<lparr>av_transaction = t, av_offset = 0, av_name = n, av_value = '''',
     av_var = VariableValue_key n None\<rparr>"

definition sample_mkSet :: "ptr \<Rightarrow> string \<Rightarrow> anchored_set_variable" where
  "sample_mkSet t n = \<lparr>asv_entries = [], asv_transaction = t, asv_name = n\<rparr>"

lemma keeps_names_sample: "keeps_names sample_mkVar sample_mkSet"
  by (simp add: keeps_names_def sample_mkVar_def sample_mkSet_def)

text \<open>
  the constructor gives the eighty variables of a transaction pairwise different names, so that
  a name in a rule stands for at most one member.
\<close>

theorem anchored_variable_names_distinct:
  assumes "keeps_names mkVar mkSet"
  shows "distinct (anchored_names (TransactionAnchoredVariables_init mkVar mkSet t))
    \<and> length (anchored_names (TransactionAnchoredVariables_init mkVar mkSet t)) = 80"
proof
  have n: "anchored_names (TransactionAnchoredVariables_init mkVar mkSet t)
      = anchored_names (TransactionAnchoredVariables_init sample_mkVar sample_mkSet None)"
    using assms
    by (simp add: keeps_names_def anchored_names_def TransactionAnchoredVariables_init_def
        sample_mkVar_def sample_mkSet_def)
  show "distinct (anchored_names (TransactionAnchoredVariables_init mkVar mkSet t))"
    unfolding n by code_simp
  show "length (anchored_names (TransactionAnchoredVariables_init mkVar mkSet t)) = 80"
    by (simp add: anchored_names_def)
qed

theorem anchored_variable_names_distinct_witness:
  "distinct (anchored_names (TransactionAnchoredVariables_init sample_mkVar sample_mkSet (Some 7)))"
  using anchored_variable_names_distinct [OF keeps_names_sample] by blast

section \<open>Proxies for argument names\<close>

text \<open>
  the three proxies for argument names read the transaction's own arguments, not a copy made
  when the transaction was constructed: after any change to the arguments, the proxy with the name
  \<open>ARGS_NAMES\<close> (\<open>ARGS_GET_NAMES\<close>, \<open>ARGS_POST_NAMES\<close>) resolves from the changed set variable.
\<close>

theorem argument_name_proxies_follow_arguments:
  assumes "v0 = TransactionAnchoredVariables_init mkVar mkSet t"
    and "v = v0\<lparr>m_variableArgs := a, m_variableArgsGet := g, m_variableArgsPost := p\<rparr>"
  shows "proxy_in v (m_variableArgsNames v) = \<lparr>tp_name = ''ARGS_NAMES'', tp_fount = a\<rparr>
    \<and> proxy_in v (m_variableArgsGetNames v) = \<lparr>tp_name = ''ARGS_GET_NAMES'', tp_fount = g\<rparr>
    \<and> proxy_in v (m_variableArgsPostNames v) = \<lparr>tp_name = ''ARGS_POST_NAMES'', tp_fount = p\<rparr>"
  using assms by (simp_all add: proxy_in_def TransactionAnchoredVariables_init_def)

theorem argument_name_proxies_follow_arguments_witness:
  "let v = (TransactionAnchoredVariables_init sample_mkVar sample_mkSet None)
         \<lparr>m_variableArgs := \<lparr>asv_entries = [(''id'', 3)], asv_transaction = None, asv_name = ''ARGS''\<rparr>,
          m_variableArgsGet := sample_mkSet None ''ARGS_GET'', m_variableArgsPost := sample_mkSet None ''ARGS_POST''\<rparr>
   in asv_entries (tp_fount (proxy_in v (m_variableArgsNames v))) = [(''id'', 3)]"
  unfolding Let_def
  by (subst argument_name_proxies_follow_arguments [OF refl refl, THEN conjunct1]) simp

section \<open>Debug messages\<close>

text \<open>
  a debug message is produced exactly if there are rules with a debug log whose level is at
  least the level of the message; in particular the log that a new rule set starts with (level -1)
  never produces a message of a level from 0 on.
\<close>

theorem debug_messages_by_level:
  "(ms_dbg rules ident uri b c \<noteq> [] \<longleftrightarrow>
      (\<exists>r d. rules = Some r \<and> m_debugLog r = Some d \<and> sint b \<le> sint (dl_debugLevel d)))
   \<and> (0 \<le> sint b \<longrightarrow> ms_dbg (Some (RulesSetProperties0 aops eops)) ident uri b c = [])"
  by (auto simp: ms_dbg_def RulesSetProperties0_def RulesSetProperties_debug_def DebugLog0_def
      split: option.splits)

theorem debug_messages_by_level_witness:
  "ms_dbg (Some (RulesSetProperties0 sample_aops sample_eops)) ''id'' ''/'' 4 ''x'' = []"
  using debug_messages_by_level [of None "''id''" "''/''" 4 "''x''" sample_aops sample_eops]
  by simp

end
