(* ===== verification/MS_Actions.thy ===== *)
theory MS_Actions
  imports Wafie_Prelude
begin

text \<open>
  \<open>Action\<close> (\<open>actions/action.h\<close>): how the text of an action of a rule is split into a name and a
  payload, with the exception that the checked access \<open>at(0)\<close> throws on an empty payload.
  \<open>evaluate\<close> is implemented elsewhere; the defaults of \<open>init\<close> and \<open>isDisruptive\<close> are constants.
\<close>

datatype Kind = ConfigurationKind | RunTimeBeforeMatchAttemptKind | RunTimeOnlyIfMatchKind

record Action =
  a_isNone :: bool
  a_temporaryAction :: bool
  a_action_kind :: Kind
  a_name :: "string option"  \<comment> \<open>a shared pointer\<close>
  a_parser_payload :: string

definition set_name_and_payload :: "string \<Rightarrow> Action \<Rightarrow> Action res" where
  "set_name_and_payload data a =
     (let pos = find_char (CHR '':'') data;
          pos = (if take 2 data = ''t:'' then find_char_from 0 2 (CHR '':'') data else pos)
      in case pos of
           None \<Rightarrow> Inr (a\<lparr>a_name := Some data\<rparr>)
         | Some p \<Rightarrow>
             let a1 = a\<lparr>a_name := Some (take p data), a_parser_payload := drop (p + 1) data\<rparr>;
                 payload = a_parser_payload a1
             in if payload = [] then Inl Out_Of_Range
                else if payload ! 0 = CHR 0x27 \<and> length payload > 2
                then Inr (a1\<lparr>a_parser_payload := butlast (drop 1 payload)\<rparr>)
                else Inr a1)"

definition Action_kind :: "string \<Rightarrow> Kind \<Rightarrow> Action res" where
  "Action_kind action kind = set_name_and_payload action
     \<lparr>a_isNone = False, a_temporaryAction = False, a_action_kind = kind, a_name = None,
      a_parser_payload = ''''\<rparr>"

definition Action0 :: "string \<Rightarrow> Action res" where
  "Action0 action = set_name_and_payload action
     \<lparr>a_isNone = False, a_temporaryAction = False, a_action_kind = RunTimeOnlyIfMatchKind,
      a_name = None, a_parser_payload = ''''\<rparr>"

text \<open>
  The virtual members with a default body.  \<open>evaluate\<close> with a message passes on to \<open>evaluate\<close>
  without one, which is the parameter.
\<close>

definition Action_evaluate_msg :: "('rule \<Rightarrow> 'trans \<Rightarrow> bool) \<Rightarrow> 'rule \<Rightarrow> 'trans \<Rightarrow> 'msg \<Rightarrow> bool" where
  "Action_evaluate_msg evaluate rule transaction ruleMessage = evaluate rule transaction"

definition Action_init :: "Action \<Rightarrow> bool" where
  "Action_init a = True"

definition Action_isDisruptive :: "Action \<Rightarrow> bool" where
  "Action_isDisruptive a = False"

section \<open>Helper lemmas\<close>

text \<open>The quotes that the code removes.\<close>

definition unquote :: "string \<Rightarrow> string" where
  "unquote p = (if p \<noteq> [] \<and> hd p = CHR 0x27 \<and> length p > 2 then butlast (tl p) else p)"

text \<open>Names end at the first colon, except that a transformation keeps its leading \<open>t:\<close>.\<close>

definition plain_name :: "string \<Rightarrow> bool" where
  "plain_name n \<longleftrightarrow> (CHR '':'' \<notin> set n \<and> n \<noteq> ''t'')
     \<or> (\<exists>m. n = ''t:'' @ m \<and> CHR '':'' \<notin> set m)"

lemma name_position:
  assumes "plain_name n"
  shows "(if take 2 (n @ CHR '':'' # p) = ''t:'' then find_char_from 0 2 (CHR '':'') (n @ CHR '':'' # p)
          else find_char (CHR '':'') (n @ CHR '':'' # p)) = Some (length n)"
proof (cases "take 2 (n @ CHR '':'' # p) = ''t:''")
  case True
  then obtain m where m: "n = ''t:'' @ m"
    using assms by (cases n; cases "tl n") (auto simp: plain_name_def)
  then have "CHR '':'' \<notin> set m" using assms by (auto simp: plain_name_def)
  with m True show ?thesis
    using find_char_from_append [of "CHR '':''" 2 0 n p] by simp
next
  case False
  then have "CHR '':'' \<notin> set n" using assms by (auto simp: plain_name_def)
  with False show ?thesis
    using find_char_from_append [of "CHR '':''" 0 0 n p] by (simp add: find_char_def)
qed

lemma set_name_and_payload_split:
  assumes "plain_name n"
  shows "set_name_and_payload (n @ CHR '':'' # p) a =
    (if p = [] then Inl Out_Of_Range else Inr (a\<lparr>a_name := Some n, a_parser_payload := unquote p\<rparr>))"
  unfolding set_name_and_payload_def Let_def name_position [OF assms]
  by (cases p) (auto simp: unquote_def)

lemma set_name_and_payload_whole:
  assumes "CHR '':'' \<notin> set n \<or> (\<exists>m. n = ''t:'' @ m \<and> CHR '':'' \<notin> set m)"
  shows "set_name_and_payload n a = Inr (a\<lparr>a_name := Some n\<rparr>)"
proof (cases "take 2 n = ''t:''")
  case True
  then obtain m where m: "n = ''t:'' @ m" using append_take_drop_id [of 2 n] by metis
  with assms have "CHR '':'' \<notin> set (drop 2 n)" by auto
  then have "find_char_from 0 2 (CHR '':'') n = None" by (simp add: find_char_from_None)
  with True show ?thesis by (simp add: set_name_and_payload_def Let_def)
next
  case False
  with assms have "find_char (CHR '':'') n = None" by (auto simp: find_char_None)
  with False show ?thesis by (simp add: set_name_and_payload_def Let_def)
qed

text \<open>Every text is a plain name, or a plain name, a colon and a payload.\<close>

lemma action_text_cases:
  obtains (whole) "CHR '':'' \<notin> set d \<or> (\<exists>m. d = ''t:'' @ m \<and> CHR '':'' \<notin> set m)"
  | (split) n p where "d = n @ '':'' @ p" "plain_name n"
proof (cases "take 2 d = ''t:''")
  case True
  then obtain m where m: "d = ''t:'' @ m" using append_take_drop_id [of 2 d] by metis
  show ?thesis
  proof (cases "CHR '':'' \<in> set m")
    case False
    then show ?thesis using m whole by blast
  next
    case True
    then obtain x y where "m = x @ CHR '':'' # y" "CHR '':'' \<notin> set x"
      using split_list_first by metis
    then show ?thesis using m split [of "''t:'' @ x" y] by (auto simp: plain_name_def)
  qed
next
  case False
  show ?thesis
  proof (cases "CHR '':'' \<in> set d")
    case True
    then obtain x y where xy: "d = x @ CHR '':'' # y" "CHR '':'' \<notin> set x"
      using split_list_first by metis
    with False have "x \<noteq> ''t''" by auto
    then show ?thesis using xy split [of x y] by (auto simp: plain_name_def)
  qed (use whole in blast)
qed

section \<open>Properties\<close>

text \<open>
  an action text \<open>name:payload\<close> is split at the first colon (at the first one after \<open>t:\<close> for a
  transformation), a payload of more than two characters that starts with a single quote loses its
  first and its last character, and an empty payload raises \<open>std::out_of_range\<close>.
\<close>

theorem action_name_and_payload:
  assumes "plain_name n"
  shows "Action_kind (n @ '':'' @ p) kind =
    (if p = [] then Inl Out_Of_Range
     else Inr \<lparr>a_isNone = False, a_temporaryAction = False, a_action_kind = kind,
                a_name = Some n, a_parser_payload = unquote p\<rparr>)"
  using assms by (simp add: Action_kind_def set_name_and_payload_split)

theorem action_name_and_payload_witness:
  "Action_kind ''msg:'' ConfigurationKind = Inl Out_Of_Range
   \<and> Action_kind ''msg:'' RunTimeOnlyIfMatchKind = Action0 ''msg:''
   \<and> map_sum id a_parser_payload (Action_kind ''t:none:x'' ConfigurationKind) = Inr ''x''"
proof -
  have n: "plain_name ''msg''" "plain_name ''t:none''" by (auto simp: plain_name_def)
  show ?thesis
    using action_name_and_payload [OF n(1), of "[]"] action_name_and_payload [OF n(2), of "''x''"]
    by (simp add: unquote_def Action_kind_def Action0_def)
qed

text \<open>
  constructing an action raises an exception exactly for the texts that end right after the
  colon that separates name and payload; for every other text the name and the payload, joined
  again, give the text (a payload in quotes up to its quotes).
\<close>

theorem action_construction_total:
  "case Action0 d of
     Inl e \<Rightarrow> e = Out_Of_Range \<and> (\<exists>n. plain_name n \<and> d = n @ '':'')
   | Inr a \<Rightarrow> (\<exists>n. a_name a = Some n \<and>
       (d = n \<and> a_parser_payload a = ''''
        \<or> (\<exists>p. p \<noteq> [] \<and> plain_name n \<and> d = n @ '':'' @ p \<and> a_parser_payload a = unquote p)))"
proof (cases d rule: action_text_cases)
  case whole
  then show ?thesis by (simp add: Action0_def set_name_and_payload_whole)
next
  case (split n p)
  then show ?thesis
    by (cases "p = []") (auto simp: Action0_def set_name_and_payload_split split: if_splits)
qed

text \<open>
  C38: printing and parsing agree: a non-empty value without a leading quote comes back from
  \<open>name:value\<close>, and any non-empty value comes back from \<open>name:'value'\<close>.
\<close>

theorem action_payload_roundtrip:
  assumes "plain_name n" and "v \<noteq> []"
  shows "map_sum id a_parser_payload (Action0 (n @ '':'' @ [CHR 0x27] @ v @ [CHR 0x27])) = Inr v
    \<and> (hd v \<noteq> CHR 0x27 \<longrightarrow> map_sum id a_parser_payload (Action0 (n @ '':'' @ v)) = Inr v)"
  using assms
  by (auto simp: Action0_def set_name_and_payload_split unquote_def
      length_greater_0_conv [symmetric] simp del: length_greater_0_conv)

theorem action_payload_roundtrip_witness:
  "map_sum id a_parser_payload (Action0 (''msg'' @ '':'' @ [CHR 0x27] @ ''a,b'' @ [CHR 0x27])) = Inr ''a,b''
   \<and> map_sum id a_parser_payload (Action0 (''id'' @ '':'' @ ''1'')) = Inr ''1''"
proof -
  have n: "plain_name ''msg''" "plain_name ''id''" by (auto simp: plain_name_def)
  show ?thesis
    using action_payload_roundtrip [OF n(1), of "''a,b''"]
      action_payload_roundtrip [OF n(2), of "''1''"]
    by simp
qed

end
