(* ===== verification/MS_Rules.thy ===== *)
theory MS_Rules
  imports MS_Transaction MS_Actions
begin

text \<open>
  Rules and rule sets: \<open>rule.h\<close>, \<open>rule_with_actions.h\<close>, \<open>rule_with_operator.h\<close>,
  \<open>rule_unconditional.h\<close>, \<open>rule_marker.h\<close>, \<open>rule_message.h\<close>, \<open>rules.h\<close>, \<open>rules_set_phases.h\<close> and
  \<open>rules_set.h\<close>.  The class hierarchy is a hierarchy of records; an element of a rule list is a value
  of the sum type \<open>any_rule\<close>, so that \<open>dynamic_cast\<close> and the virtual members are case distinctions.
  Members that the headers only declare (the evaluation of operators and actions, the loading of
  rules, the formatting of a message by \<open>RuleMessage::log\<close> with three arguments) are parameters.
\<close>

section \<open>rule.h\<close>

record Rule =
  r_fileName :: string
  r_lineNumber :: cint
  r_phase :: cint

definition Rule_init :: "string \<Rightarrow> cint \<Rightarrow> Rule" where
  "Rule_init fileName lineNumber = \<lparr>r_fileName = fileName, r_lineNumber = lineNumber,
     r_phase = word_of_nat (phase_num RequestHeadersPhase)\<rparr>"

definition getFileName :: "'a Rule_scheme \<Rightarrow> string" where
  "getFileName r = r_fileName r"

definition getLineNumber :: "'a Rule_scheme \<Rightarrow> cint" where
  "getLineNumber r = r_lineNumber r"

definition getPhase :: "'a Rule_scheme \<Rightarrow> cint" where
  "getPhase r = r_phase r"

definition setPhase :: "cint \<Rightarrow> 'a Rule_scheme \<Rightarrow> 'a Rule_scheme" where
  "setPhase phase r = r\<lparr>r_phase := phase\<rparr>"

definition Rule_getReference :: "'a Rule_scheme \<Rightarrow> string" where
  "Rule_getReference r = r_fileName r @ '':'' @ dec_int (sint (r_lineNumber r))"

definition Rule_isMarker :: "'a Rule_scheme \<Rightarrow> bool" where
  "Rule_isMarker r = False"

section \<open>rule_with_actions.h\<close>

record RuleWithActions = Rule +
  ra_rev :: string
  ra_ver :: string
  ra_accuracy :: cint
  ra_maturity :: cint
  ra_ruleId :: int64
  ra_chainedRuleChild :: ptr
  ra_chainedRuleParent :: ptr
  ra_disruptiveAction :: ptr
  ra_logData :: ptr
  ra_msg :: ptr
  ra_severity :: ptr
  ra_actionsRuntimePos :: "addr list"
  ra_actionsSetVar :: "addr list"
  ra_actionsTag :: "addr list"
  ra_transformations :: "addr list"
  ra_containsCaptureAction :: bool
  ra_containsMultiMatchAction :: bool
  ra_containsStaticBlockAction :: bool
  ra_isChained :: bool

definition isChained :: "'a RuleWithActions_scheme \<Rightarrow> bool" where
  "isChained r \<longleftrightarrow> ra_isChained r = True"

definition hasCaptureAction :: "'a RuleWithActions_scheme \<Rightarrow> bool" where
  "hasCaptureAction r \<longleftrightarrow> ra_containsCaptureAction r = True"

definition setChained :: "bool \<Rightarrow> 'a RuleWithActions_scheme \<Rightarrow> 'a RuleWithActions_scheme" where
  "setChained b r = r\<lparr>ra_isChained := b\<rparr>"

definition hasDisruptiveAction :: "'a RuleWithActions_scheme \<Rightarrow> bool" where
  "hasDisruptiveAction r \<longleftrightarrow> ra_disruptiveAction r \<noteq> None"

definition hasBlockAction :: "'a RuleWithActions_scheme \<Rightarrow> bool" where
  "hasBlockAction r \<longleftrightarrow> ra_containsStaticBlockAction r = True"

definition hasMultimatch :: "'a RuleWithActions_scheme \<Rightarrow> bool" where
  "hasMultimatch r \<longleftrightarrow> ra_containsMultiMatchAction r = True"

definition hasLogData :: "'a RuleWithActions_scheme \<Rightarrow> bool" where
  "hasLogData r \<longleftrightarrow> ra_logData r \<noteq> None"

definition hasMsg :: "'a RuleWithActions_scheme \<Rightarrow> bool" where
  "hasMsg r \<longleftrightarrow> ra_msg r \<noteq> None"

definition hasSeverity :: "'a RuleWithActions_scheme \<Rightarrow> bool" where
  "hasSeverity r \<longleftrightarrow> ra_severity r \<noteq> None"

section \<open>rule_with_operator.h, rule_unconditional.h\<close>

record RuleWithOperator = RuleWithActions +
  ro_variables :: ptr
  ro_operator :: ptr

definition RuleWithOperator_getReference :: "'a RuleWithActions_scheme \<Rightarrow> string" where
  "RuleWithOperator_getReference r = dec_int (sint (ra_ruleId r))"

text \<open>\<open>RuleUnconditional\<close> adds no member to \<open>RuleWithActions\<close>.\<close>

type_synonym RuleUnconditional = RuleWithActions

section \<open>rule_marker.h\<close>

record RuleMarker = Rule +
  mk_name :: string

definition RuleMarker_init :: "string \<Rightarrow> string \<Rightarrow> cint \<Rightarrow> RuleMarker" where
  "RuleMarker_init name fileName lineNumber =
     Rule.extend (Rule_init fileName lineNumber) \<lparr>mk_name = name\<rparr>"

definition RuleMarker_evaluate :: "RuleMarker \<Rightarrow> 'a TransactionSecMarkerManagement_scheme \<Rightarrow>
    (bool \<times> 'a TransactionSecMarkerManagement_scheme) res" where
  "RuleMarker_evaluate r transaction =
     (if isInsideAMarker transaction
      then bind_res (getCurrentMarker transaction) (\<lambda>current.
             Inr (True, if current = mk_name r then removeMarker transaction else transaction))
      else Inr (True, transaction))"

definition RuleMarker_evaluate_msg :: "RuleMarker \<Rightarrow> 'a TransactionSecMarkerManagement_scheme \<Rightarrow> 'msg \<Rightarrow>
    (bool \<times> 'a TransactionSecMarkerManagement_scheme) res" where
  "RuleMarker_evaluate_msg r transaction ruleMessage = RuleMarker_evaluate r transaction"

definition RuleMarker_isMarker :: "RuleMarker \<Rightarrow> bool" where
  "RuleMarker_isMarker r = True"

section \<open>Rules of any class\<close>

text \<open>\<open>R_Other\<close> stands for the rule classes that are declared elsewhere.\<close>

datatype any_rule =
    R_Marker RuleMarker
  | R_Operator RuleWithOperator
  | R_Unconditional RuleUnconditional
  | R_Other Rule

fun getReference :: "any_rule \<Rightarrow> string" where
  "getReference (R_Operator r) = RuleWithOperator_getReference r"
| "getReference (R_Marker r) = Rule_getReference r"
| "getReference (R_Unconditional r) = Rule_getReference r"
| "getReference (R_Other r) = Rule_getReference r"

fun isMarker :: "any_rule \<Rightarrow> bool" where
  "isMarker (R_Marker r) = RuleMarker_isMarker r"
| "isMarker (R_Operator r) = Rule_isMarker r"
| "isMarker (R_Unconditional r) = Rule_isMarker r"
| "isMarker (R_Other r) = Rule_isMarker r"

section \<open>rule_message.h\<close>

datatype LogMessageInfo = ErrorLogTailLogMessageInfo | ClientLogMessageInfo

fun log_info_num :: "LogMessageInfo \<Rightarrow> cint" where
  "log_info_num ErrorLogTailLogMessageInfo = 2"
| "log_info_num ClientLogMessageInfo = 4"

record RuleMessage =
  rm_rule :: RuleWithActions
  rm_transaction :: addr
  rm_data :: string
  rm_isDisruptive :: bool
  rm_match :: string
  rm_message :: string
  rm_noAuditLog :: bool
  rm_reference :: string
  rm_saveMessage :: bool
  rm_severity :: cint
  rm_tags :: "string list"

definition RuleMessage_reset :: "bool \<Rightarrow> RuleMessage \<Rightarrow> RuleMessage" where
  "RuleMessage_reset resetSaveMessage m =
     (let m1 = m\<lparr>rm_data := '''', rm_isDisruptive := False, rm_match := '''', rm_message := '''',
                 rm_noAuditLog := False, rm_reference := ''''\<rparr>;
          m2 = (if resetSaveMessage then m1\<lparr>rm_saveMessage := True\<rparr> else m1)
      in m2\<lparr>rm_severity := 0, rm_tags := []\<rparr>)"

text \<open>The constructor: the in-class initialisers, then \<open>reset(true)\<close>.\<close>

definition RuleMessage_init :: "RuleWithActions \<Rightarrow> addr \<Rightarrow> RuleMessage" where
  "RuleMessage_init rule transaction = RuleMessage_reset True
     \<lparr>rm_rule = rule, rm_transaction = transaction, rm_data = '''', rm_isDisruptive = False, rm_match = '''',
      rm_message = '''', rm_noAuditLog = False, rm_reference = '''', rm_saveMessage = True,
      rm_severity = 0, rm_tags = []\<rparr>"

text \<open>The \<open>log\<close> overloads; \<open>fmt\<close> is the static one with three arguments.\<close>

definition log_props_code where
  "log_props_code (fmt :: RuleMessage \<Rightarrow> cint \<Rightarrow> cint \<Rightarrow> string) m props responseCode = fmt m props responseCode"

definition static_log_props where
  "static_log_props (fmt :: RuleMessage \<Rightarrow> cint \<Rightarrow> cint \<Rightarrow> string) rm props = fmt rm props (- 1)"

definition static_log where
  "static_log (fmt :: RuleMessage \<Rightarrow> cint \<Rightarrow> cint \<Rightarrow> string) rm = static_log_props fmt rm 0"

definition log_msg where
  "log_msg (fmt :: RuleMessage \<Rightarrow> cint \<Rightarrow> cint \<Rightarrow> string) m = static_log_props fmt m 0"

definition log_props where
  "log_props (fmt :: RuleMessage \<Rightarrow> cint \<Rightarrow> cint \<Rightarrow> string) m props = static_log_props fmt m props"

definition errorLog where
  "errorLog (fmt :: RuleMessage \<Rightarrow> cint \<Rightarrow> cint \<Rightarrow> string) m = static_log_props fmt m
     (or (log_info_num ClientLogMessageInfo) (log_info_num ErrorLogTailLogMessageInfo))"

definition RuleMessage_getPhase :: "RuleMessage \<Rightarrow> cint" where
  "RuleMessage_getPhase m = getPhase (rm_rule m) - 1"

section \<open>Evaluation of rules\<close>

text \<open>
  Members of the rule classes that the headers declare: they are implemented outside the sources and
  are parameters.  \<open>'t\<close> is the transaction with what it can reach; a member that changes the message
  or the transaction returns the new ones.
\<close>

record 't rule_with_actions_ops =
  ra_evaluate :: "RuleWithActions \<Rightarrow> 't \<Rightarrow> bool \<times> 't"
  ra_evaluate_msg :: "RuleWithActions \<Rightarrow> RuleMessage \<Rightarrow> 't \<Rightarrow> bool \<times> RuleMessage \<times> 't"
  ra_executeActionsIndependentOfChainedRuleResult ::
    "RuleWithActions \<Rightarrow> bool \<Rightarrow> RuleMessage \<Rightarrow> 't \<Rightarrow> bool \<times> RuleMessage \<times> 't"
  ra_executeActionsAfterFullMatch :: "RuleWithActions \<Rightarrow> bool \<Rightarrow> RuleMessage \<Rightarrow> 't \<Rightarrow> RuleMessage \<times> 't"
  ra_executeAction :: "RuleWithActions \<Rightarrow> bool \<Rightarrow> addr \<Rightarrow> bool \<Rightarrow> RuleMessage \<Rightarrow> 't \<Rightarrow> RuleMessage \<times> 't"
  ra_executeTransformations :: "RuleWithActions \<Rightarrow> string \<Rightarrow> 't \<Rightarrow> (string \<times> string) list"
  ra_performLogging :: "RuleWithActions \<Rightarrow> bool \<Rightarrow> bool \<Rightarrow> RuleMessage \<Rightarrow> 't \<Rightarrow> RuleMessage \<times> 't"
  ra_getActionsByName :: "RuleWithActions \<Rightarrow> string \<Rightarrow> 't \<Rightarrow> addr list"
  ra_containsTag :: "RuleWithActions \<Rightarrow> string \<Rightarrow> 't \<Rightarrow> bool"
  ra_containsMsg :: "RuleWithActions \<Rightarrow> string \<Rightarrow> 't \<Rightarrow> bool"
  ra_get_logData :: "RuleWithActions \<Rightarrow> 't \<Rightarrow> string"
  ra_get_msg :: "RuleWithActions \<Rightarrow> 't \<Rightarrow> string"
  ra_get_severity :: "RuleWithActions \<Rightarrow> cint"

record 't rule_with_operator_ops =
  ro_evaluate_msg :: "RuleWithOperator \<Rightarrow> RuleMessage \<Rightarrow> 't \<Rightarrow> bool \<times> RuleMessage \<times> 't"
  ro_getVariablesExceptions :: "RuleWithOperator \<Rightarrow> 't \<Rightarrow> addr list \<Rightarrow> addr list \<Rightarrow> addr list \<times> addr list"
  ro_getFinalVars :: "RuleWithOperator \<Rightarrow> 't \<Rightarrow> addr list \<Rightarrow> addr list \<Rightarrow> addr list \<times> addr list"
  ro_executeOperatorAt :: "RuleWithOperator \<Rightarrow> string \<Rightarrow> string \<Rightarrow> RuleMessage \<Rightarrow> 't \<Rightarrow> bool \<times> RuleMessage \<times> 't"
  ro_updateMatchedVars :: "string \<Rightarrow> string \<Rightarrow> 't \<Rightarrow> 't"
  ro_cleanMatchedVars :: "'t \<Rightarrow> 't"
  ro_getOperatorName :: "RuleWithOperator \<Rightarrow> string"

text \<open>
  The virtual member \<open>evaluate(transaction, ruleMessage)\<close>: a rule with an operator overrides it, an
  unconditional rule declares it itself (\<open>un\<close>), a marker forwards to its own \<open>evaluate\<close>.
\<close>

fun Rule_evaluate_msg ::
    "'a TransactionSecMarkerManagement_scheme rule_with_operator_ops \<Rightarrow>
     (RuleUnconditional \<Rightarrow> RuleMessage \<Rightarrow> 'a TransactionSecMarkerManagement_scheme
        \<Rightarrow> bool \<times> RuleMessage \<times> 'a TransactionSecMarkerManagement_scheme) \<Rightarrow>
     (Rule \<Rightarrow> RuleMessage \<Rightarrow> 'a TransactionSecMarkerManagement_scheme
        \<Rightarrow> bool \<times> RuleMessage \<times> 'a TransactionSecMarkerManagement_scheme) \<Rightarrow>
     any_rule \<Rightarrow> RuleMessage \<Rightarrow> 'a TransactionSecMarkerManagement_scheme \<Rightarrow>
     (bool \<times> RuleMessage \<times> 'a TransactionSecMarkerManagement_scheme) res" where
  "Rule_evaluate_msg rops un other (R_Marker r) m t =
     map_sum id (\<lambda>(b, t'). (b, m, t')) (RuleMarker_evaluate_msg r t m)"
| "Rule_evaluate_msg rops un other (R_Operator r) m t = Inr (ro_evaluate_msg rops r m t)"
| "Rule_evaluate_msg rops un other (R_Unconditional r) m t = Inr (un r m t)"
| "Rule_evaluate_msg rops un other (R_Other r) m t = Inr (other r m t)"

section \<open>rules.h\<close>

text \<open>\<open>std::lower_bound\<close> and \<open>std::binary_search\<close> on a vector.\<close>

function lower_bound :: "'a::linorder list \<Rightarrow> 'a \<Rightarrow> nat \<Rightarrow> nat \<Rightarrow> nat" where
  "lower_bound xs v lo len =
     (if len = 0 then lo
      else let half = len div 2; mid = lo + half
           in if xs ! mid < v then lower_bound xs v (mid + 1) (len - half - 1)
              else lower_bound xs v lo half)"
  by pat_completeness auto
termination
  by (relation "measure (\<lambda>(xs, v, lo, len). len)") auto

declare lower_bound.simps [simp del]

definition binary_search :: "'a::linorder list \<Rightarrow> 'a \<Rightarrow> bool" where
  "binary_search xs v = (let i = lower_bound xs v 0 (length xs) in i < length xs \<and> \<not> v < xs ! i)"

type_synonym Rules = "any_rule list"

text \<open>The message about a duplicate, for a stream that may be null.\<close>

definition dup_error :: "int64 \<Rightarrow> string option \<Rightarrow> string option" where
  "dup_error ruleId err = map_option (\<lambda>e. e @ ''Rule id: '' @ dec_int (sint ruleId) @ '' is duplicated'' @ [CHR 0x0A]) err"

definition is_dup :: "int64 list \<Rightarrow> any_rule \<Rightarrow> bool" where
  "is_dup ids rule = (case rule of R_Operator r \<Rightarrow> binary_search (map sint ids) (sint (ra_ruleId r)) | _ \<Rightarrow> False)"

text \<open>
  \<open>append\<close>: the loop over \<open>from\<close> from index \<open>j\<close> on returns the error, or the index at its end; then all
  rules are inserted.
\<close>

fun append_scan :: "Rules \<Rightarrow> nat \<Rightarrow> int64 list \<Rightarrow> string option \<Rightarrow> (string option, nat) sum" where
  "append_scan [] j ids err = Inr j"
| "append_scan (rule # rs) j ids err =
     (if is_dup ids rule
      then Inl (case rule of R_Operator r \<Rightarrow> dup_error (ra_ruleId r) err | _ \<Rightarrow> err)
      else append_scan rs (Suc j) ids err)"

definition Rules_append :: "Rules \<Rightarrow> int64 list \<Rightarrow> string option \<Rightarrow> Rules \<Rightarrow> cint \<times> Rules \<times> string option" where
  "Rules_append from ids err rules = (case append_scan from 0 ids err of
       Inl err' \<Rightarrow> (- 1, rules, err')
     | Inr j \<Rightarrow> (word_of_nat j, rules @ from, err))"

definition Rules_insert_ids :: "any_rule \<Rightarrow> int64 list option \<Rightarrow> string option \<Rightarrow> Rules \<Rightarrow>
    bool \<times> Rules \<times> string option" where
  "Rules_insert_ids rule ids err rules = (case (rule, ids) of
       (R_Operator r, Some l) \<Rightarrow>
         if binary_search (map sint l) (sint (ra_ruleId r))
         then (False, rules, dup_error (ra_ruleId r) err)
         else (True, rules @ [rule], err)
     | _ \<Rightarrow> (True, rules @ [rule], err))"

definition Rules_insert :: "any_rule \<Rightarrow> Rules \<Rightarrow> bool \<times> Rules" where
  "Rules_insert rule rules = (case Rules_insert_ids rule None None rules of (b, rs, _) \<Rightarrow> (b, rs))"

definition Rules_size :: "Rules \<Rightarrow> nat" where
  "Rules_size rules = length rules"

definition Rules_at :: "int \<Rightarrow> Rules \<Rightarrow> any_rule res" where
  "Rules_at index rules = (if 0 \<le> index \<and> index < int (length rules) then Inr (rules ! nat index)
     else Inl Undefined_Index)"

text \<open>\<open>dump\<close>: what is written to the standard output; \<open>show_ptr\<close> prints the pointer to a rule.\<close>

definition Rules_dump :: "(any_rule \<Rightarrow> string) \<Rightarrow> Rules \<Rightarrow> string" where
  "Rules_dump show_ptr rules = concat (map (\<lambda>r. ''    Rule ID: '' @ getReference r @ ''--'' @ show_ptr r
     @ [CHR 0x0A]) rules)"

section \<open>rules_set_phases.h, rules_set.h\<close>

text \<open>An array of eight rule lists; \<open>insert\<close>, \<open>append\<close> and \<open>dump\<close> are implemented elsewhere.\<close>

record RulesSetPhases =
  m_rulesAtPhase :: "Rules list"

definition RulesSetPhases0 :: RulesSetPhases where
  "RulesSetPhases0 = \<lparr>m_rulesAtPhase = replicate 8 []\<rparr>"

definition RulesSetPhases_at :: "int \<Rightarrow> RulesSetPhases \<Rightarrow> Rules res" where
  "RulesSetPhases_at index p = (if 0 \<le> index \<and> index < 8 then Inr (m_rulesAtPhase p ! nat index)
     else Inl Undefined_Index)"

record RulesSet = RulesSetProperties +
  m_rulesSetPhases :: RulesSetPhases
  m_secmarker_skipped :: uint8

definition RulesSet_custom :: "audit_log_ops \<Rightarrow> exceptions_ops \<Rightarrow> DebugLog option \<Rightarrow> RulesSet" where
  "RulesSet_custom aops eops customLog = RulesSetProperties.extend
     (RulesSetProperties_debug aops eops customLog)
     \<lparr>m_rulesSetPhases = RulesSetPhases0, m_secmarker_skipped = 0\<rparr>"

definition RulesSet0 :: "audit_log_ops \<Rightarrow> exceptions_ops \<Rightarrow> RulesSet" where
  "RulesSet0 aops eops = RulesSet_custom aops eops (Some DebugLog0)"

text \<open>The declared members of a rule set; \<open>'t\<close> is a transaction, \<open>'d\<close> a parser.\<close>

record ('t, 'd) rules_set_ops =
  rs_loadFromUri :: "string \<Rightarrow> RulesSet \<Rightarrow> cint \<times> RulesSet"
  rs_loadRemote :: "string \<Rightarrow> string \<Rightarrow> RulesSet \<Rightarrow> cint \<times> RulesSet"
  rs_load :: "string \<Rightarrow> RulesSet \<Rightarrow> cint \<times> RulesSet"
  rs_load_ref :: "string \<Rightarrow> string \<Rightarrow> RulesSet \<Rightarrow> cint \<times> RulesSet"
  rs_dump :: "RulesSet \<Rightarrow> string"
  rs_merge_driver :: "'d \<Rightarrow> RulesSet \<Rightarrow> cint \<times> RulesSet"
  rs_merge :: "RulesSet \<Rightarrow> RulesSet \<Rightarrow> cint \<times> RulesSet"
  rs_evaluate :: "cint \<Rightarrow> 't \<Rightarrow> RulesSet \<Rightarrow> cint \<times> 't"
  rs_getParserError :: "RulesSet \<Rightarrow> string"
  rs_debug :: "cint \<Rightarrow> string \<Rightarrow> string \<Rightarrow> string \<Rightarrow> RulesSet \<Rightarrow> RulesSet"

section \<open>Binary search\<close>

lemma lower_bound_spec:
  assumes "sorted xs" and "lo + len \<le> length xs"
    and "\<forall>j < lo. xs ! j < v" and "\<forall>j. lo + len \<le> j \<longrightarrow> j < length xs \<longrightarrow> \<not> xs ! j < v"
  shows "lower_bound xs v lo len \<le> length xs \<and> (\<forall>j < lower_bound xs v lo len. xs ! j < v)
    \<and> (\<forall>j. lower_bound xs v lo len \<le> j \<longrightarrow> j < length xs \<longrightarrow> \<not> xs ! j < v)"
  using assms
proof (induction xs v lo len rule: lower_bound.induct)
  case (1 xs v lo len)
  show ?case
  proof (cases "len = 0")
    case True
    then have "lower_bound xs v lo len = lo" by (simp add: lower_bound.simps [of xs v lo 0])
    with True 1(4-6) show ?thesis by simp
  next
    case False
    let ?half = "len div 2" and ?mid = "lo + len div 2"
    have mid: "?mid < length xs" "?mid < lo + len" using False 1(4) by auto
    show ?thesis
    proof (cases "xs ! ?mid < v")
      case True
      have pre: "\<forall>j < ?mid + 1. xs ! j < v"
      proof (intro allI impI)
        fix j assume "j < ?mid + 1"
        then have "xs ! j \<le> xs ! ?mid" using sorted_nth_mono [OF 1(3) _ mid(1)] by simp
        then show "xs ! j < v" using True by (rule order_le_less_trans)
      qed
      have "?mid + 1 + (len - ?half - 1) = lo + len" using False by linarith
      then show ?thesis
        using 1(1) [OF False refl refl True 1(3)] pre 1(4,6) False True
        by (simp add: lower_bound.simps [of xs v lo len] Let_def)
    next
      case F: False
      have post: "\<forall>j. ?mid \<le> j \<longrightarrow> j < length xs \<longrightarrow> \<not> xs ! j < v"
      proof (intro allI impI notI)
        fix j assume "?mid \<le> j" "j < length xs" "xs ! j < v"
        then have "xs ! ?mid \<le> xs ! j" using sorted_nth_mono [OF 1(3)] by blast
        then have "xs ! ?mid < v" using \<open>xs ! j < v\<close> by (rule order_le_less_trans)
        then show False using F by blast
      qed
      show ?thesis
        using 1(2) [OF False refl refl F 1(3)] post mid 1(5) False F
        by (simp add: lower_bound.simps [of xs v lo len] Let_def)
    qed
  qed
qed

lemma binary_search_iff:
  assumes "sorted xs"
  shows "binary_search xs v \<longleftrightarrow> v \<in> set xs"
proof -
  let ?i = "lower_bound xs v 0 (length xs)"
  have i: "?i \<le> length xs" "\<forall>j < ?i. xs ! j < v"
      "\<forall>j. ?i \<le> j \<longrightarrow> j < length xs \<longrightarrow> \<not> xs ! j < v"
    using lower_bound_spec [OF assms, of 0 "length xs" v] by auto
  show ?thesis
  proof
    assume "binary_search xs v"
    then have "?i < length xs" "\<not> v < xs ! ?i" by (auto simp: binary_search_def Let_def)
    moreover have "\<not> xs ! ?i < v" using i(3) \<open>?i < length xs\<close> by blast
    ultimately have "xs ! ?i = v" by (intro order.antisym) (simp_all only: not_less)
    then show "v \<in> set xs" using nth_mem [OF \<open>?i < length xs\<close>] by simp
  next
    assume "v \<in> set xs"
    then obtain k where k: "k < length xs" "xs ! k = v" by (auto simp: in_set_conv_nth)
    with i(2) have "?i \<le> k" by (cases "k < ?i") auto
    with k have "xs ! ?i \<le> v" using sorted_nth_mono [OF assms] by blast
    then show "binary_search xs v"
      using \<open>?i \<le> k\<close> k(1) by (simp add: binary_search_def Let_def)
  qed
qed

section \<open>Duplicates\<close>

text \<open>The identifiers that the duplicate check looks at: those of the rules with an operator.\<close>

definition rule_ids :: "Rules \<Rightarrow> int64 set" where
  "rule_ids rs = {ra_ruleId r |r. R_Operator r \<in> set rs}"

definition sorted_ids :: "int64 list \<Rightarrow> bool" where
  "sorted_ids ids \<longleftrightarrow> sorted (map sint ids)"

lemma sint_in_image: "sint a \<in> sint ` A \<longleftrightarrow> a \<in> A"
  by (rule inj_image_mem_iff) (meson injI signed_word_eqI)

lemma sint_word_of_nat_cint: "n < 2 ^ 31 \<Longrightarrow> sint (word_of_nat n :: cint) = int n"
  by (simp add: signed_of_nat signed_take_bit_int_eq_self)

lemma is_dup_iff:
  assumes "sorted_ids ids"
  shows "is_dup ids rule \<longleftrightarrow> (\<exists>r. rule = R_Operator r \<and> ra_ruleId r \<in> set ids)"
  using assms
  by (cases rule) (simp_all add: is_dup_def sorted_ids_def binary_search_iff sint_in_image)

lemma find_SomeE:
  assumes "find P xs = Some x"
  obtains ys zs where "xs = ys @ x # zs" "\<not> (\<exists>y \<in> set ys. P y)" "P x"
proof -
  from assms have "xs = takeWhile (\<lambda>y. \<not> P y) xs @ x # tl (dropWhile (\<lambda>y. \<not> P y) xs) \<and> P x"
    by (induction xs) (auto split: if_splits)
  then show thesis using that [of "takeWhile (\<lambda>y. \<not> P y) xs"] by (metis (full_types) set_takeWhileD)
qed

lemma append_scan_spec:
  assumes "sorted_ids ids"
  shows "append_scan rs j ids err = (case find (is_dup ids) rs of
      Some (R_Operator r) \<Rightarrow> Inl (dup_error (ra_ruleId r) err)
    | _ \<Rightarrow> Inr (j + length rs))"
  by (induction rs arbitrary: j) (auto simp: is_dup_def split: any_rule.splits option.splits)

lemma find_is_dup_None:
  "sorted_ids ids \<Longrightarrow> find (is_dup ids) rs = None \<longleftrightarrow> rule_ids rs \<inter> set ids = {}"
  by (force simp: find_None_iff is_dup_iff rule_ids_def)

section \<open>Properties\<close>

text \<open>
  C24: \<open>Rules::append\<close> with a sorted list of known identifiers takes over all rules or none.  If no
  rule with an operator has a known identifier, all rules are appended in order and their number is
  returned.  Otherwise the rules stay as they were and -1 is returned; the first rule with an operator
  whose identifier is known, before which no rule has a known one, is named in one line that is added
  to the error stream if there is one.
\<close>

theorem Rules_append_all_or_nothing:
  assumes "sorted_ids ids" and "length from < 2 ^ 31"
  shows "(rule_ids from \<inter> set ids = {} \<longrightarrow>
      Rules_append from ids err rules = (word_of_nat (length from), rules @ from, err)
      \<and> sint (word_of_nat (length from) :: cint) = int (length from))
    \<and> (rule_ids from \<inter> set ids \<noteq> {} \<longrightarrow> (\<exists>before r after.
      from = before @ R_Operator r # after \<and> rule_ids before \<inter> set ids = {}
      \<and> ra_ruleId r \<in> set ids
      \<and> Rules_append from ids err rules = (- 1, rules, (case err of None \<Rightarrow> None
          | Some e \<Rightarrow> Some (e @ ''Rule id: '' @ dec_int (sint (ra_ruleId r)) @ '' is duplicated'' @ [CHR 0x0A])))))"
proof (rule conjI; rule impI)
  assume "rule_ids from \<inter> set ids = {}"
  then have "find (is_dup ids) from = None" using find_is_dup_None [OF assms(1)] by blast
  then show "Rules_append from ids err rules = (word_of_nat (length from), rules @ from, err)
      \<and> sint (word_of_nat (length from) :: cint) = int (length from)"
    using assms(2) by (simp add: Rules_append_def append_scan_spec [OF assms(1)] sint_word_of_nat_cint)
next
  assume "rule_ids from \<inter> set ids \<noteq> {}"
  then obtain rule where f: "find (is_dup ids) from = Some rule"
    using find_is_dup_None [OF assms(1)] by blast
  then obtain before after where split: "from = before @ rule # after" "\<not> (\<exists>x \<in> set before. is_dup ids x)"
      "is_dup ids rule"
    by (rule find_SomeE)
  then have "rule_ids before \<inter> set ids = {}"
    using find_is_dup_None [OF assms(1), of before] by (auto simp: find_None_iff)
  moreover obtain r where "rule = R_Operator r" "ra_ruleId r \<in> set ids"
    using split(3) by (auto simp: is_dup_iff [OF assms(1)])
  moreover from this have "Rules_append from ids err rules = (- 1, rules, dup_error (ra_ruleId r) err)"
    using f by (simp add: Rules_append_def append_scan_spec [OF assms(1)])
  moreover from this have "Rules_append from ids err rules = (- 1, rules, (case err of None \<Rightarrow> None
      | Some e \<Rightarrow> Some (e @ ''Rule id: '' @ dec_int (sint (ra_ruleId r)) @ '' is duplicated'' @ [CHR 0x0A])))"
    unfolding dup_error_def map_option_case .
  ultimately show "\<exists>before r after.
      from = before @ R_Operator r # after \<and> rule_ids before \<inter> set ids = {}
      \<and> ra_ruleId r \<in> set ids
      \<and> Rules_append from ids err rules = (- 1, rules, (case err of None \<Rightarrow> None
          | Some e \<Rightarrow> Some (e @ ''Rule id: '' @ dec_int (sint (ra_ruleId r)) @ '' is duplicated'' @ [CHR 0x0A])))"
    using split(1) by blast
qed

definition sample_rule :: "int64 \<Rightarrow> RuleWithOperator" where
  "sample_rule n = \<lparr>r_fileName = ''crs.conf'', r_lineNumber = 3, r_phase = 2, ra_rev = '''', ra_ver = '''',
     ra_accuracy = 0, ra_maturity = 0, ra_ruleId = n, ra_chainedRuleChild = None,
     ra_chainedRuleParent = None, ra_disruptiveAction = None, ra_logData = None, ra_msg = None,
     ra_severity = None, ra_actionsRuntimePos = [], ra_actionsSetVar = [], ra_actionsTag = [],
     ra_transformations = [], ra_containsCaptureAction = False, ra_containsMultiMatchAction = False,
     ra_containsStaticBlockAction = False, ra_isChained = False, ro_variables = None,
     ro_operator = None\<rparr>"

theorem Rules_append_all_or_nothing_witness:
  "Rules_append [R_Operator (sample_rule 4)] [1, 3] (Some '''') []
     = (1, [R_Operator (sample_rule 4)], Some '''')
   \<and> fst (Rules_append [R_Operator (sample_rule 3)] [1, 3] (Some '''') []) = - 1"
proof -
  have s: "sorted_ids [1, 3]" by (simp add: sorted_ids_def)
  have i: "rule_ids [R_Operator (sample_rule n)] = {n}" for n
    by (auto simp: rule_ids_def sample_rule_def)
  show ?thesis
    using Rules_append_all_or_nothing [OF s, of "[R_Operator (sample_rule 4)]" "Some ''''" "[]"]
      Rules_append_all_or_nothing [OF s, of "[R_Operator (sample_rule 3)]" "Some ''''" "[]"]
    by (auto simp: i)
qed

text \<open>
  \<open>Rules::insert\<close> with a sorted list of known identifiers refuses a rule exactly if it has an
  operator and a known identifier (markers and rules without operator are never refused); a refusal
  changes nothing, otherwise the rule is added at the end.  Without a list nothing is refused.
\<close>

theorem Rules_insert_refuses_known_ids:
  assumes "sorted_ids ids"
  shows "Rules_insert_ids rule (Some ids) err rules =
      (if \<exists>r. rule = R_Operator r \<and> ra_ruleId r \<in> set ids
       then (False, rules, (case rule of R_Operator r \<Rightarrow> dup_error (ra_ruleId r) err | _ \<Rightarrow> err))
       else (True, rules @ [rule], err))
    \<and> Rules_insert rule rules = (True, rules @ [rule])"
proof
  have "binary_search (map sint ids) (sint (ra_ruleId r)) \<longleftrightarrow> ra_ruleId r \<in> set ids" for r :: RuleWithOperator
    using is_dup_iff [OF assms, of "R_Operator r"] by (simp add: is_dup_def)
  then show "Rules_insert_ids rule (Some ids) err rules =
      (if \<exists>r. rule = R_Operator r \<and> ra_ruleId r \<in> set ids
       then (False, rules, (case rule of R_Operator r \<Rightarrow> dup_error (ra_ruleId r) err | _ \<Rightarrow> err))
       else (True, rules @ [rule], err))"
    by (cases rule) (auto simp: Rules_insert_ids_def)
  show "Rules_insert rule rules = (True, rules @ [rule])"
    by (cases rule) (auto simp: Rules_insert_def Rules_insert_ids_def)
qed

theorem Rules_insert_refuses_known_ids_witness:
  "fst (Rules_insert_ids (R_Operator (sample_rule 3)) (Some [1, 3]) None []) = False
   \<and> fst (Rules_insert_ids (R_Operator (sample_rule 2)) (Some [1, 3]) None []) = True"
proof -
  have s: "sorted_ids [1, 3]" by (simp add: sorted_ids_def)
  show ?thesis
    using Rules_insert_refuses_known_ids [OF s, of "R_Operator (sample_rule 3)" None "[]"]
      Rules_insert_refuses_known_ids [OF s, of "R_Operator (sample_rule 2)" None "[]"]
    by (simp add: sample_rule_def)
qed

text \<open>Evaluating the markers of a section one after the other.\<close>

fun run_markers :: "RuleMarker list \<Rightarrow> 'a TransactionSecMarkerManagement_scheme \<Rightarrow>
    'a TransactionSecMarkerManagement_scheme res" where
  "run_markers [] t = Inr t"
| "run_markers (r # rs) t = bind_res (RuleMarker_evaluate r t) (\<lambda>(_, t'). run_markers rs t')"

lemma RuleMarker_evaluate_eq:
  "RuleMarker_evaluate r t = Inr (True, if m_marker t = Some (mk_name r) then removeMarker t else t)"
  by (simp add: RuleMarker_evaluate_def isInsideAMarker_def getCurrentMarker_def split: option.splits)

text \<open>
  evaluating markers never trips the assertion in \<open>getCurrentMarker\<close>.  A transaction that skips
  to a marker goes on skipping until a marker of exactly this name has been evaluated, and then
  stops skipping; a transaction that does not skip is not changed.
\<close>

theorem markers_end_a_skipped_section:
  "run_markers rs t = Inr (if \<exists>r \<in> set rs. m_marker t = Some (mk_name r) then removeMarker t else t)"
proof (induction rs arbitrary: t)
  case (Cons r rs)
  show ?case
  proof (cases "m_marker t = Some (mk_name r)")
    case True
    then have "\<not> (\<exists>x \<in> set rs. m_marker (removeMarker t) = Some (mk_name x))"
      by (simp add: removeMarker_def)
    with True Cons show ?thesis by (simp add: RuleMarker_evaluate_eq)
  qed (use Cons in \<open>auto simp: RuleMarker_evaluate_eq\<close>)
qed simp

theorem markers_end_a_skipped_section_witness:
  "\<exists>t :: TransactionSecMarkerManagement. m_marker t = None
     \<and> run_markers [RuleMarker_init ''A'' ''f'' 1, RuleMarker_init ''B'' ''f'' 2] (addMarker ''B'' t) = Inr t"
proof -
  fix t0 :: TransactionSecMarkerManagement
  let ?t = "removeMarker t0"
  have "removeMarker (addMarker ''B'' ?t) = ?t" by (simp add: removeMarker_def addMarker_def)
  then have "run_markers [RuleMarker_init ''A'' ''f'' 1, RuleMarker_init ''B'' ''f'' 2] (addMarker ''B'' ?t) = Inr ?t"
    using markers_end_a_skipped_section [of "[RuleMarker_init ''A'' ''f'' 1, RuleMarker_init ''B'' ''f'' 2]"
        "addMarker ''B'' ?t"]
    by (simp add: RuleMarker_init_def Rule.defs Rule_init_def addMarker_def)
  moreover have "m_marker ?t = None" by (simp add: removeMarker_def)
  ultimately show ?thesis by blast
qed

text \<open>
  \<open>reset\<close> brings a message back to the state of a newly constructed one for the same rule and
  transaction, except that without \<open>resetSaveMessage\<close> the decision whether to save it is kept; the
  error log is formatted with both the client and the tail information and no response code.
\<close>

theorem RuleMessage_reset_restores:
  "RuleMessage_reset True m = RuleMessage_init (rm_rule m) (rm_transaction m)
   \<and> RuleMessage_reset False m = (RuleMessage_init (rm_rule m) (rm_transaction m))\<lparr>rm_saveMessage := rm_saveMessage m\<rparr>
   \<and> errorLog fmt m = fmt m 6 (- 1) \<and> log_msg fmt m = fmt m 0 (- 1)"
  by (simp add: RuleMessage_reset_def RuleMessage_init_def errorLog_def log_msg_def static_log_props_def)

end
