(* ===== verification/MS_Example.thy ===== *)
theory MS_Example
  imports MS_Rules MS_Transaction
begin

text \<open>
  A model of \<^verbatim>\<open>reading_logs_via_rule_message.h\<close>: the client of the engine that comes with the
  headers.  \<open>process\<close> loads the rules, starts \<open>NUM_THREADS\<close> threads, each of which runs
  \<open>process_request\<close> (a loop over transactions, each driven through the whole interface), and joins
  them in order.  The threads run interleaved: a step relation moves any started thread by one call
  or the main thread by one \<open>std::thread\<close> construction or one \<open>join\<close>.  The lemmas show that every
  schedule ends, that none blocks, and that when \<open>process\<close> returns every transaction went through
  all phases in the order that \<^verbatim>\<open>modsecurity.h\<close> demands.  The two calls of \<open>sleep_for\<close> have no effect
  on the state and only constrain time; they are left out.
\<close>

section \<open>Constants\<close>

definition NUM_THREADS :: nat where
  "NUM_THREADS = 100"

text \<open>The \<open>\n\r\<close> at the end of the lines (in this order).\<close>

definition NLCR :: string where
  "NLCR = [CHR 0x0A, CHR 0x0D]"

definition request_header :: string where
  "request_header = ''GET /tutorials/other/top-20-mysql-best-practices/ HTTP/1.1'' @ NLCR
     @ ''Host: net.tutsplus.com'' @ NLCR
     @ ''User-Agent: Mozilla/5.0 (Windows; U; Windows NT 6.1; en-US; rv:1.9.1.5)''
     @ '' Gecko/20091102 Firefox/3.5.5 (.NET CLR 3.5.30729)'' @ NLCR
     @ ''Accept: text/html,application/xhtml+xml,application/xml; ''
     @ ''q=0.9,*/*;q=0.8'' @ NLCR
     @ ''Accept-Language: en-us,en;q=0.5'' @ NLCR
     @ ''Accept-Encoding: gzip,deflate'' @ NLCR
     @ ''Accept-Charset: ISO-8859-1,utf-8;q=0.7,*;q=0.7'' @ NLCR
     @ ''Keep-Alive: 300'' @ NLCR
     @ ''Connection: keep-alive'' @ NLCR
     @ ''Cookie: PHPSESSID=r2t5uvjq435r4q7ib3vtdjq120'' @ NLCR
     @ ''Pragma: no-cache'' @ NLCR
     @ ''Cache-Control: no-cache'' @ NLCR"

definition request_uri :: string where
  "request_uri = ''/test.pl?param1=test&para2=test2''"

definition request_body :: string where
  "request_body = []"

definition response_headers :: string where
  "response_headers = ''HTTP/1.1 200 OK'' @ NLCR
     @ ''Content-Type: text/xml; charset=utf-8'' @ NLCR
     @ ''Content-Length: length'' @ NLCR"

definition response_body :: string where
  "response_body = ''<?xml version=\"1.0\" encoding=\"utf-8\"?>'' @ NLCR
     @ ''<soap:Envelope xmlns:xsi=\"http://www.w3.org/2001/XMLSchema-instance\" ''
     @ ''xmlns:xsd=\"http://www.w3.org/2001/XMLSchema\" ''
     @ ''xmlns:soap=\"http://schemas.xmlsoap.org/soap/envelope/\">'' @ NLCR
     @ ''  <soap:Body>'' @ NLCR
     @ ''  <EnlightenResponse xmlns=\"http://clearforest.com/\">'' @ NLCR
     @ ''  <EnlightenResult>string</EnlightenResult>'' @ NLCR
     @ ''  </EnlightenResponse>'' @ NLCR
     @ ''  </soap:Body>'' @ NLCR
     @ ''</soap:Envelope>'' @ NLCR"

definition ip :: string where
  "ip = ''200.249.12.31''"


section \<open>process\_request\<close>

text \<open>The calls on a transaction, with their arguments.\<close>

datatype tx_call =
    ProcessConnection string cint string cint
  | ProcessURI string string string
  | AddRequestHeader string string
  | ProcessRequestHeaders
  | ProcessRequestBody
  | AddResponseHeader string string
  | ProcessResponseHeaders cint string
  | AppendResponseBody string size_t
  | ProcessResponseBody
  | ProcessLogging

definition request_calls :: "tx_call list" where
  "request_calls =
    [ProcessConnection ip 12345 ''127.0.0.1'' 80,
     ProcessURI request_uri ''GET'' ''1.1'',
     AddRequestHeader ''Host'' ''net.tutsplus.com'',
     ProcessRequestHeaders,
     ProcessRequestBody,
     AddResponseHeader ''HTTP/1.1'' ''200 OK'',
     ProcessResponseHeaders 200 ''HTTP 1.2'',
     AppendResponseBody response_body (word_of_nat (length (c_str response_body))),
     ProcessResponseBody,
     ProcessLogging]"

text \<open>The members behind the calls; the results are not looked at.\<close>

fun perform :: "('t, 'msg) transaction_ops \<Rightarrow> tx_call \<Rightarrow> 't \<Rightarrow> 't" where
  "perform ops (ProcessConnection client cPort server sPort) t
     = snd (op_processConnection ops client cPort server sPort t)"
| "perform ops (ProcessURI uri protocol version) t = snd (op_processURI ops uri protocol version t)"
| "perform ops (AddRequestHeader key value) t = snd (op_addRequestHeader ops key value t)"
| "perform ops ProcessRequestHeaders t = snd (op_processRequestHeaders ops t)"
| "perform ops ProcessRequestBody t = snd (op_processRequestBody ops t)"
| "perform ops (AddResponseHeader key value) t = snd (op_addResponseHeader ops key value t)"
| "perform ops (ProcessResponseHeaders code proto) t = snd (op_processResponseHeaders ops code proto t)"
| "perform ops (AppendResponseBody body len) t = snd (op_appendResponseBody ops body len t)"
| "perform ops ProcessResponseBody t = snd (op_processResponseBody ops t)"
| "perform ops ProcessLogging t = snd (op_processLogging ops t)"

definition requests_per_thread :: nat where
  "requests_per_thread = 10000"

text \<open>
  \<open>process_request\<close>: each round makes a transaction with null call-back data, performs the calls and
  destroys the transaction; \<open>z\<close> is the loop counter.
\<close>

datatype tx_event = Make nat | Call nat tx_call | Destroy nat

definition request_round :: "nat \<Rightarrow> tx_event list" where
  "request_round z = Make z # map (Call z) request_calls @ [Destroy z]"

definition process_request :: "tx_event list" where
  "process_request = concat (map request_round [0..<requests_per_thread])"

text \<open>What a thread's events do to the transaction it owns (\<open>None\<close> outside a round).\<close>

fun event_effect :: "('t, 'msg) transaction_ops \<Rightarrow> ptr \<Rightarrow> ptr \<Rightarrow> tx_event \<Rightarrow> 't option \<Rightarrow> 't option" where
  "event_effect ops modsec rules (Make z) t = Some (op_Transaction ops modsec rules None)"
| "event_effect ops modsec rules (Call z c) t = map_option (perform ops c) t"
| "event_effect ops modsec rules (Destroy z) t = None"

section \<open>ReadingLogsViaRuleMessage\<close>


text \<open>
  The state of \<open>process\<close> while its threads run: the events that each started thread has still to do,
  the events done so far with the thread that did them, the number of joined threads, the text written to the standard output.
\<close>

record process_state =
  todo :: "tx_event list list"
  calls :: "(nat \<times> tx_event) list"
  joined :: nat
  stdout :: string

definition process_start :: process_state where
  "process_start = \<lparr>todo = [], calls = [], joined = 0, stdout = ''''\<rparr>"

inductive process_step :: "process_state \<Rightarrow> process_state \<Rightarrow> bool" where
  spawn: "length (todo s) < NUM_THREADS \<Longrightarrow>
     process_step s (s\<lparr>todo := todo s @ [process_request]\<rparr>)"
| run: "i < length (todo s) \<Longrightarrow> todo s ! i = e # es \<Longrightarrow>
     process_step s (s\<lparr>todo := (todo s)[i := es], calls := calls s @ [(i, e)]\<rparr>)"
| join: "length (todo s) = NUM_THREADS \<Longrightarrow> joined s < NUM_THREADS \<Longrightarrow> todo s ! joined s = [] \<Longrightarrow>
     process_step s (s\<lparr>joined := joined s + 1,
       stdout := stdout s @ ''Main: completed thread id :'' @ dec_nat (joined s) @ [CHR 0x0A]\<rparr>)"

inductive_cases process_stepE [consumes 1, case_names spawn run join]: "process_step s s'"

text \<open>
  \<open>process\<close>: the engine is configured, the rules are loaded (\<open>load\<close> stands for \<open>loadFromUri\<close>, with the
  parser's error text), and the threads run; \<open>process_result\<close> relates the object to the final state
  of the engine, the returned code and the text on the standard output.
\<close>

definition configured_engine :: "'msg engine_ops \<Rightarrow> ptr \<Rightarrow> ModSecurity" where
  "configured_engine eops logCb =
     op_setServerLogCb_props eops logCb
       (or (log_property_num RuleMessageLogProperty) (log_property_num IncludeFullHighlightLogProperty))
       (op_setConnectorInformation eops ''ModSecurity-test v0.0.1-alpha (ModSecurity test)''
         (op_ModSecurity eops))"


text \<open>\<open>logCb\<close>: the text it prints; \<open>fmt\<close> is the static \<open>log\<close> with three arguments.\<close>

definition logCb :: "(RuleMessage \<Rightarrow> cint \<Rightarrow> cint \<Rightarrow> string) \<Rightarrow> RuleMessage option \<Rightarrow> string" where
  "logCb fmt ruleMessagev = (case ruleMessagev of
       None \<Rightarrow> ''I'' @ [CHR 0x27] @ ''ve got a call but the message was null ;('' @ [CHR 0x0A]
     | Some ruleMessage \<Rightarrow>
         ''Rule Id: '' @ dec_int (sint (ra_ruleId (rm_rule ruleMessage)))
         @ '' phase: '' @ dec_int (sint (RuleMessage_getPhase ruleMessage)) @ [CHR 0x0A]
         @ (if rm_isDisruptive ruleMessage
            then '' * Disruptive action: '' @ static_log fmt ruleMessage @ [CHR 0x0A]
                 @ '' ** %d is meant to be informed by the webserver.'' @ [CHR 0x0A]
            else '' * Match, but no disruptive action: '' @ static_log fmt ruleMessage @ [CHR 0x0A]))"

section \<open>The phases of a transaction\<close>

fun call_phase :: "tx_call \<Rightarrow> phases option" where
  "call_phase (ProcessConnection client cPort server sPort) = Some ConnectionPhase"
| "call_phase (ProcessURI uri protocol version) = Some UriPhase"
| "call_phase (AddRequestHeader key value) = None"
| "call_phase ProcessRequestHeaders = Some RequestHeadersPhase"
| "call_phase ProcessRequestBody = Some RequestBodyPhase"
| "call_phase (AddResponseHeader key value) = None"
| "call_phase (ProcessResponseHeaders code proto) = Some ResponseHeadersPhase"
| "call_phase (AppendResponseBody body len) = None"
| "call_phase ProcessResponseBody = Some ResponseBodyPhase"
| "call_phase ProcessLogging = Some LoggingPhase"

fun event_round :: "tx_event \<Rightarrow> nat" where
  "event_round (Make z) = z"
| "event_round (Call z c) = z"
| "event_round (Destroy z) = z"

fun event_phase :: "tx_event \<Rightarrow> phases option" where
  "event_phase (Call z c) = call_phase c"
| "event_phase e = None"

text \<open>What thread \<open>i\<close> did so far, and what it did with its transaction number \<open>z\<close>.\<close>

definition thread_events :: "nat \<Rightarrow> (nat \<times> tx_event) list \<Rightarrow> tx_event list" where
  "thread_events i tr = map snd (filter (\<lambda>(j, e). j = i) tr)"

definition transaction_events :: "nat \<Rightarrow> nat \<Rightarrow> (nat \<times> tx_event) list \<Rightarrow> tx_event list" where
  "transaction_events i z tr = filter (\<lambda>e. event_round e = z) (thread_events i tr)"

lemma thread_events_append [simp]:
  "thread_events i (tr @ [(j, e)]) = thread_events i tr @ (if j = i then [e] else [])"
  by (simp add: thread_events_def)

lemma rounds_of_process_request:
  assumes "z < n"
  shows "filter (\<lambda>e. event_round e = z) (concat (map request_round [0..<n])) = request_round z"
proof -
  have own: "filter (\<lambda>e. event_round e = z) (request_round y) = (if y = z then request_round z else [])" for y
    by (auto simp: request_round_def filter_empty_conv filter_id_conv)
  have "concat (map (\<lambda>y. if y = z then request_round z else []) [0..<n]) = request_round z"
    using assms by (induction n) (auto simp: less_Suc_eq concat_eq_Nil_conv)
  then show ?thesis by (simp add: filter_concat o_def own)
qed

section \<open>Schedules\<close>

text \<open>In every reachable state: what a thread has done and what it has to do is \<open>process_request\<close>.\<close>

lemma reachable_invariant:
  assumes "process_step\<^sup>*\<^sup>* process_start s"
  shows "length (todo s) \<le> NUM_THREADS
    \<and> (\<forall>i < length (todo s). thread_events i (calls s) @ todo s ! i = process_request)
    \<and> (\<forall>i \<ge> length (todo s). thread_events i (calls s) = [])
    \<and> (0 < joined s \<longrightarrow> length (todo s) = NUM_THREADS)
    \<and> joined s \<le> NUM_THREADS \<and> (\<forall>i < joined s. todo s ! i = [])"
  using assms
proof (induction rule: rtranclp_induct)
  case base
  show ?case by (simp add: process_start_def thread_events_def NUM_THREADS_def)
next
  case (step s s')
  from step.hyps(2) show ?case
  proof (cases rule: process_stepE)
    case spawn
    with step.IH show ?thesis by (auto simp: nth_append less_Suc_eq)
  next
    case (run i e es)
    with step.IH show ?thesis by (auto simp: nth_list_update)
  next
    case join
    with step.IH show ?thesis by (auto simp: less_Suc_eq)
  qed
qed

text \<open>The steps that are left.\<close>

definition work :: "process_state \<Rightarrow> nat" where
  "work s = (NUM_THREADS - length (todo s)) * (1 + length process_request)
     + sum_list (map length (todo s)) + (NUM_THREADS - joined s)"

lemma sum_list_update_tail:
  "i < length xss \<Longrightarrow> xss ! i = x # xs \<Longrightarrow>
   Suc (sum_list (map length (xss[i := xs]))) = sum_list (map length xss)"
  by (induction xss arbitrary: i) (auto simp: nth_Cons split: nat.splits)

lemma work_decreases:
  assumes "process_step s s'"
  shows "work s = Suc (work s')"
  using assms
proof (cases rule: process_stepE)
  case spawn
  then obtain k where "NUM_THREADS - length (todo s) = Suc k" by (metis Suc_diff_Suc)
  moreover from this have "NUM_THREADS - Suc (length (todo s)) = k" by simp
  ultimately show ?thesis using spawn by (simp add: work_def)
next
  case (run i e es)
  with sum_list_update_tail [OF run(2,3)] show ?thesis by (simp add: work_def)
next
  case join
  then show ?thesis by (simp add: work_def)
qed

lemma progress:
  assumes "process_step\<^sup>*\<^sup>* process_start s" and "joined s < NUM_THREADS"
  shows "\<exists>s'. process_step s s'"
proof (cases "length (todo s) < NUM_THREADS")
  case True
  then show ?thesis using process_step.spawn by blast
next
  case False
  with reachable_invariant [OF assms(1)] have l: "length (todo s) = NUM_THREADS" by simp
  show ?thesis
  proof (cases "todo s ! joined s")
    case Nil
    then show ?thesis using process_step.join [OF l assms(2)] by blast
  next
    case (Cons e es)
    then show ?thesis using process_step.run [of "joined s" s e es] l assms(2) by auto
  qed
qed


lemma can_finish:
  assumes "process_step\<^sup>*\<^sup>* process_start s"
  shows "\<exists>s'. process_step\<^sup>*\<^sup>* s s' \<and> joined s' = NUM_THREADS"
  using assms
proof (induction "work s" arbitrary: s rule: less_induct)
  case less
  show ?case
  proof (cases "joined s < NUM_THREADS")
    case True
    with progress [OF less.prems] obtain t where t: "process_step s t" by blast
    then have "work t < work s" using work_decreases by fastforce
    with less(1) [of t] less.prems t obtain s' where "process_step\<^sup>*\<^sup>* t s'" "joined s' = NUM_THREADS"
      by (meson rtranclp.rtrancl_into_rtrancl)
    with t show ?thesis by (meson converse_rtranclp_into_rtranclp)
  next
    case False
    with reachable_invariant [OF less.prems] show ?thesis by (auto intro!: exI [of _ s])
  qed
qed

section \<open>Properties\<close>

text \<open>
  C20: When \<open>process\<close> returns, each of its threads has completed each of its transactions, whatever the
  schedule was: the events of transaction \<open>z\<close> of thread \<open>i\<close> are its construction, the calls of one
  round and its destruction, in this order, and the phases that these calls run are all phases of
  \<^verbatim>\<open>modsecurity.h\<close>, each once, in ascending order.
\<close>

theorem every_transaction_runs_all_phases_in_order:
  assumes "process_step\<^sup>*\<^sup>* process_start s" and "joined s = NUM_THREADS"
    and "i < NUM_THREADS" and "z < requests_per_thread"
  shows "transaction_events i z (calls s) = request_round z
    \<and> sorted_wrt (<) (List.map_filter event_phase (transaction_events i z (calls s)))
    \<and> set (List.map_filter event_phase (transaction_events i z (calls s))) = {p. p < NUMBER_OF_PHASES}"
proof -
  from reachable_invariant [OF assms(1)] assms(2,3)
  have "thread_events i (calls s) = process_request" by (auto simp: NUM_THREADS_def)
  then have e: "transaction_events i z (calls s) = request_round z"
    using rounds_of_process_request [OF assms(4)]
    by (simp add: transaction_events_def process_request_def)
  have p: "List.map_filter event_phase (request_round z) = [ConnectionPhase, UriPhase, RequestHeadersPhase,
      RequestBodyPhase, ResponseHeadersPhase, ResponseBodyPhase, LoggingPhase]"
    by (simp add: request_round_def request_calls_def List.map_filter_def)
  have "p < NUMBER_OF_PHASES \<longleftrightarrow> p \<in> {ConnectionPhase, UriPhase, RequestHeadersPhase,
      RequestBodyPhase, ResponseHeadersPhase, ResponseBodyPhase, LoggingPhase}" for p
    by (cases p) (simp_all add: less_phases_def)
  then show ?thesis unfolding e p by (auto simp: less_phases_def)
qed

theorem every_transaction_runs_all_phases_in_order_witness:
  "\<exists>s. process_step\<^sup>*\<^sup>* process_start s \<and> joined s = NUM_THREADS
     \<and> transaction_events 7 42 (calls s) = request_round 42"
proof -
  obtain s where s: "process_step\<^sup>*\<^sup>* process_start s" "joined s = NUM_THREADS"
    using can_finish [of process_start] by auto
  have n: "7 < NUM_THREADS" "42 < requests_per_thread"
    by (simp_all add: NUM_THREADS_def requests_per_thread_def)
  show ?thesis
    using every_transaction_runs_all_phases_in_order [OF s n] s by blast
qed









end
