(* ===== verification/MS_C_Api.thy ===== *)
theory MS_C_Api
  imports MS_Example
begin

text \<open>
  The C interface of the engine: the functions \<open>msc_*\<close> that \<^verbatim>\<open>transaction.h\<close>, \<^verbatim>\<open>modsecurity.h\<close> and
  \<^verbatim>\<open>rules_set.h\<close> declare for C programs.  They are implemented outside the sources, so they are records
  of functions here, over a transaction \<open>'t\<close>, an engine and a rule set.  \<open>api_forwards\<close> says that the
  functions are the members of the C++ classes under another name; the lemma shows that a client may
  then use either interface for the same transaction.
\<close>

record ('t, 'msg) msc_transaction_api =
  msc_new_transaction :: "ptr \<Rightarrow> ptr \<Rightarrow> ptr \<Rightarrow> 't"
  msc_new_transaction_with_id :: "ptr \<Rightarrow> ptr \<Rightarrow> string \<Rightarrow> ptr \<Rightarrow> 't"
  msc_process_connection :: "'t \<Rightarrow> string \<Rightarrow> cint \<Rightarrow> string \<Rightarrow> cint \<Rightarrow> cint \<times> 't"
  msc_process_request_headers :: "'t \<Rightarrow> cint \<times> 't"
  msc_add_request_header :: "'t \<Rightarrow> string \<Rightarrow> string \<Rightarrow> cint \<times> 't"
  msc_add_n_request_header :: "'t \<Rightarrow> string \<Rightarrow> size_t \<Rightarrow> string \<Rightarrow> size_t \<Rightarrow> cint \<times> 't"
  msc_process_request_body :: "'t \<Rightarrow> cint \<times> 't"
  msc_append_request_body :: "'t \<Rightarrow> string \<Rightarrow> size_t \<Rightarrow> cint \<times> 't"
  msc_request_body_from_file :: "'t \<Rightarrow> string \<Rightarrow> cint \<times> 't"
  msc_process_response_headers :: "'t \<Rightarrow> cint \<Rightarrow> string \<Rightarrow> cint \<times> 't"
  msc_add_response_header :: "'t \<Rightarrow> string \<Rightarrow> string \<Rightarrow> cint \<times> 't"
  msc_add_n_response_header :: "'t \<Rightarrow> string \<Rightarrow> size_t \<Rightarrow> string \<Rightarrow> size_t \<Rightarrow> cint \<times> 't"
  msc_process_response_body :: "'t \<Rightarrow> cint \<times> 't"
  msc_append_response_body :: "'t \<Rightarrow> string \<Rightarrow> size_t \<Rightarrow> cint \<times> 't"
  msc_process_uri :: "'t \<Rightarrow> string \<Rightarrow> string \<Rightarrow> string \<Rightarrow> cint \<times> 't"
  msc_get_response_body :: "'t \<Rightarrow> string"
  msc_get_response_body_length :: "'t \<Rightarrow> size_t"
  msc_get_request_body_length :: "'t \<Rightarrow> size_t"
  msc_transaction_cleanup :: "'t \<Rightarrow> unit"
  msc_intervention :: "'t \<Rightarrow> cint \<times> ModSecurityIntervention \<times> 't"
  msc_intervention_cleanup :: "ModSecurityIntervention \<Rightarrow> cstring_store \<Rightarrow> (ModSecurityIntervention \<times> cstring_store) res"
  msc_process_logging :: "'t \<Rightarrow> cint \<times> 't"
  msc_update_status_code :: "'t \<Rightarrow> cint \<Rightarrow> cint \<times> 't"
  msc_set_request_hostname :: "'t \<Rightarrow> string \<Rightarrow> cint \<times> 't"

record msc_engine_api =
  msc_init :: ModSecurity
  msc_who_am_i :: "ModSecurity \<Rightarrow> string"
  msc_set_connector_info :: "ModSecurity \<Rightarrow> string \<Rightarrow> ModSecurity"
  msc_set_log_cb :: "ModSecurity \<Rightarrow> ptr \<Rightarrow> ModSecurity"
  msc_cleanup :: "ModSecurity \<Rightarrow> unit"

text \<open>The functions on rule sets return a code and, through \<open>error\<close>, a message.\<close>

record msc_rules_api =
  msc_create_rules_set :: RulesSet
  msc_rules_dump :: "RulesSet \<Rightarrow> string"
  msc_rules_merge :: "RulesSet \<Rightarrow> RulesSet \<Rightarrow> cint \<times> string option \<times> RulesSet"
  msc_rules_add_remote :: "RulesSet \<Rightarrow> string \<Rightarrow> string \<Rightarrow> cint \<times> string option \<times> RulesSet"
  msc_rules_add_file :: "RulesSet \<Rightarrow> string \<Rightarrow> cint \<times> string option \<times> RulesSet"
  msc_rules_add :: "RulesSet \<Rightarrow> string \<Rightarrow> cint \<times> string option \<times> RulesSet"
  msc_rules_error_cleanup :: "string \<Rightarrow> unit"
  msc_rules_cleanup :: "RulesSet \<Rightarrow> cint"

section \<open>A client of the C interface\<close>

fun c_perform :: "('t, 'msg) msc_transaction_api \<Rightarrow> tx_call \<Rightarrow> 't \<Rightarrow> 't" where
  "c_perform api (ProcessConnection client cPort server sPort) t
     = snd (msc_process_connection api t client cPort server sPort)"
| "c_perform api (ProcessURI u p version) t = snd (msc_process_uri api t u p version)"
| "c_perform api (AddRequestHeader key v) t = snd (msc_add_request_header api t key v)"
| "c_perform api ProcessRequestHeaders t = snd (msc_process_request_headers api t)"
| "c_perform api ProcessRequestBody t = snd (msc_process_request_body api t)"
| "c_perform api (AddResponseHeader key v) t = snd (msc_add_response_header api t key v)"
| "c_perform api (ProcessResponseHeaders code p) t = snd (msc_process_response_headers api t code p)"
| "c_perform api (AppendResponseBody body len) t = snd (msc_append_response_body api t body len)"
| "c_perform api ProcessResponseBody t = snd (msc_process_response_body api t)"
| "c_perform api ProcessLogging t = snd (msc_process_logging api t)"

definition api_forwards :: "('t, 'msg) msc_transaction_api \<Rightarrow> ('t, 'msg) transaction_ops \<Rightarrow> bool" where
  "api_forwards api ops \<longleftrightarrow>
     (\<forall>t client cPort server sPort. msc_process_connection api t client cPort server sPort
        = op_processConnection ops client cPort server sPort t)
     \<and> (\<forall>t u p version. msc_process_uri api t u p version = op_processURI ops u p version t)
     \<and> (\<forall>t key v. msc_add_request_header api t key v = op_addRequestHeader ops key v t)
     \<and> (\<forall>t. msc_process_request_headers api t = op_processRequestHeaders ops t)
     \<and> (\<forall>t. msc_process_request_body api t = op_processRequestBody ops t)
     \<and> (\<forall>t key v. msc_add_response_header api t key v = op_addResponseHeader ops key v t)
     \<and> (\<forall>t code p. msc_process_response_headers api t code p = op_processResponseHeaders ops code p t)
     \<and> (\<forall>t body len. msc_append_response_body api t body len = op_appendResponseBody ops body len t)
     \<and> (\<forall>t. msc_process_response_body api t = op_processResponseBody ops t)
     \<and> (\<forall>t. msc_process_logging api t = op_processLogging ops t)"

lemma c_perform_forwards: "api_forwards api ops \<Longrightarrow> c_perform api c = perform ops c"
  by (rule ext, cases c) (simp_all add: api_forwards_def)

text \<open>Any sequence of calls has the same effect through both interfaces.\<close>

lemma both_interfaces_agree:
  "api_forwards api ops \<Longrightarrow> fold (c_perform api) cs t = fold (perform ops) cs t"
proof -
  assume "api_forwards api ops"
  then have "c_perform api = perform ops" by (intro ext) (simp add: c_perform_forwards)
  then show ?thesis by simp
qed

end
