(* ===== verification/Go_Lib.thy ===== *)
theory Go_Lib
  imports Wafie_Prelude
begin

text \<open>
  What the Go code of the repository uses of Go's standard library, on strings as byte sequences:
  \<open>strings.Split\<close> with a one-byte separator, \<open>strings.HasPrefix\<close>, \<open>strings.ReplaceAll\<close>,
  \<open>strings.TrimSpace\<close>, \<open>strings.Join\<close>, \<open>strings.ToLower\<close>, iteration over runes,
  \<open>strconv.ParseUint\<close> and \<open>strconv.Atoi\<close> in base 10, \<open>fmt.Sscanf\<close> with the format \<open>%d\<close>, and
  \<open>net/url.ParseQuery\<close> with \<open>QueryUnescape\<close>.  The lemmas are the laws that the components rely on:
  splitting, replacing, decimal printing and parsing.
\<close>

section \<open>strings\<close>

fun split_char :: "char \<Rightarrow> string \<Rightarrow> string list" where
  "split_char c [] = [[]]"
| "split_char c (x # xs) =
     (if x = c then [] # split_char c xs
      else (case split_char c xs of [] \<Rightarrow> [[x]] | p # ps \<Rightarrow> (x # p) # ps))"

definition has_prefix :: "string \<Rightarrow> string \<Rightarrow> bool" where
  "has_prefix s p \<longleftrightarrow> take (length p) s = p"

text \<open>\<open>strings.Split\<close> with a separator that is not empty.\<close>

function split_str :: "string \<Rightarrow> string \<Rightarrow> string list" where
  "split_str sep s =
     (if sep \<noteq> [] \<and> has_prefix s sep then [] # split_str sep (drop (length sep) s)
      else case s of [] \<Rightarrow> [[]] | x # xs \<Rightarrow>
        (case split_str sep xs of [] \<Rightarrow> [[x]] | p # ps \<Rightarrow> (x # p) # ps))"
  by pat_completeness auto
termination
proof (relation "measure (\<lambda>(_, s). length s)")
  fix sep s :: string
  assume "sep \<noteq> [] \<and> has_prefix s sep"
  then have "0 < length sep" "length sep \<le> length s" by (auto simp: has_prefix_def dest: arg_cong [of _ _ length])
  then have "length s - length sep < length s" by linarith
  then show "((sep, drop (length sep) s), sep, s) \<in> measure (\<lambda>(_, s). length s)" by simp
qed auto

declare split_str.simps [simp del]

text \<open>\<open>ReplaceAll\<close> for a pattern that is not empty: occurrences from the left, not overlapping.\<close>

function replace_all :: "string \<Rightarrow> string \<Rightarrow> string \<Rightarrow> string" where
  "replace_all [] old new = []"
| "replace_all (x # xs) old new =
     (if old \<noteq> [] \<and> has_prefix (x # xs) old then new @ replace_all (drop (length old - 1) xs) old new
      else x # replace_all xs old new)"
  by pat_completeness auto
termination
  by (relation "measure (\<lambda>(s, _, _). length s)") auto

text \<open>\<open>strings.Cut\<close> at a one-byte separator.\<close>

definition cut_char :: "char \<Rightarrow> string \<Rightarrow> string \<times> string" where
  "cut_char c s = (takeWhile (\<lambda>x. x \<noteq> c) s, tl (dropWhile (\<lambda>x. x \<noteq> c) s))"

text \<open>
  \<open>TrimSpace\<close>: the white space of Unicode in UTF-8, ASCII and the longer encodings.
\<close>

definition ascii_spaces :: "nat list" where
  "ascii_spaces = [9, 10, 11, 12, 13, 32]"

definition unicode_spaces :: "nat list list" where
  "unicode_spaces = [[0xC2, 0x85], [0xC2, 0xA0], [0xE1, 0x9A, 0x80]] @ map (\<lambda>b. [0xE2, 0x80, b]) [0x80..<0x8B]
     @ [[0xE2, 0x80, 0xA8], [0xE2, 0x80, 0xA9], [0xE2, 0x80, 0xAF], [0xE2, 0x81, 0x9F], [0xE3, 0x80, 0x80]]"

definition is_space :: "char \<Rightarrow> bool" where
  "is_space c \<longleftrightarrow> of_char c \<in> set ascii_spaces"

text \<open>The number of bytes of the space that \<open>s\<close> starts with or, reversed, ends with (0: none).\<close>

definition space_len :: "(nat list \<Rightarrow> nat list) \<Rightarrow> string \<Rightarrow> nat" where
  "space_len orient s = (case s of [] \<Rightarrow> 0 | c # _ \<Rightarrow>
     if is_space c then 1
     else (case find (\<lambda>u. take (length u) (map of_char s) = orient u) unicode_spaces of
             None \<Rightarrow> 0 | Some u \<Rightarrow> length u))"

function trim_from :: "(nat list \<Rightarrow> nat list) \<Rightarrow> string \<Rightarrow> string" where
  "trim_from orient s = (if s = [] \<or> space_len orient s = 0 then s else trim_from orient (drop (space_len orient s) s))"
  by pat_completeness auto
termination
  by (relation "measure (\<lambda>(_, s). length s)") auto

declare trim_from.simps [simp del]

definition trim_space :: "string \<Rightarrow> string" where
  "trim_space s = rev (trim_from rev (rev (trim_from id s)))"

definition has_suffix :: "string \<Rightarrow> string \<Rightarrow> bool" where
  "has_suffix s p \<longleftrightarrow> length p \<le> length s \<and> drop (length s - length p) s = p"

text \<open>\<open>strings.Join\<close>.\<close>

fun join :: "string list \<Rightarrow> string \<Rightarrow> string" where
  "join [] sep = []"
| "join [p] sep = p"
| "join (p # q # ps) sep = p @ sep @ join (q # ps) sep"

text \<open>
  \<open>ToLower\<close>, as far as the result is ASCII: the letters of ASCII, and the two other characters (the
  Kelvin sign and the capital I with a dot) whose lower case is an ASCII letter.
\<close>

fun to_lower :: "string \<Rightarrow> string" where
  "to_lower [] = []"
| "to_lower (c # cs) =
     (if map of_char (take 3 (c # cs)) = [0xE2, 0x84, 0xAA :: nat] then CHR ''k'' # to_lower (drop 2 cs)
      else if map of_char (take 2 (c # cs)) = [0xC4, 0xB0 :: nat] then CHR ''i'' # to_lower (drop 1 cs)
      else (if of_char c \<in> {65..90 :: nat} then char_of (of_char c + 32 :: nat) else c) # to_lower cs)"

text \<open>
  Iteration over the runes of a string: the start of each and the bytes that \<open>WriteRune\<close> writes for it;
  a byte that starts no valid encoding is one rune, written as U+FFFD.
\<close>

definition utf8_tail :: "nat \<Rightarrow> (nat \<times> nat) list" where
  "utf8_tail b =
     (if 0xC2 \<le> b \<and> b \<le> 0xDF then [(0x80, 0xBF)]
      else if b = 0xE0 then [(0xA0, 0xBF), (0x80, 0xBF)]
      else if b = 0xED then [(0x80, 0x9F), (0x80, 0xBF)]
      else if 0xE1 \<le> b \<and> b \<le> 0xEF then [(0x80, 0xBF), (0x80, 0xBF)]
      else if b = 0xF0 then [(0x90, 0xBF), (0x80, 0xBF), (0x80, 0xBF)]
      else if 0xF1 \<le> b \<and> b \<le> 0xF3 then [(0x80, 0xBF), (0x80, 0xBF), (0x80, 0xBF)]
      else if b = 0xF4 then [(0x80, 0x8F), (0x80, 0xBF), (0x80, 0xBF)]
      else [])"

definition rune_tail :: "char \<Rightarrow> string \<Rightarrow> nat" where
  "rune_tail c cs = (let t = utf8_tail (of_char c) in
     if list_all2 (\<lambda>x (lo, hi). lo \<le> of_char x \<and> of_char x \<le> hi) (take (length t) cs) t then length t else 0)"

definition written_rune :: "char \<Rightarrow> string \<Rightarrow> string" where
  "written_rune c cs = (if of_char c < (0x80 :: nat) then [c]
     else if rune_tail c cs = 0 then [CHR 0xEF, CHR 0xBF, CHR 0xBD] else c # take (rune_tail c cs) cs)"

function runes :: "nat \<Rightarrow> string \<Rightarrow> (nat \<times> string) list" where
  "runes i [] = []"
| "runes i (c # cs) = (i, written_rune c cs) # runes (i + 1 + rune_tail c cs) (drop (rune_tail c cs) cs)"
  by pat_completeness auto
termination
  by (relation "measure (\<lambda>(_, s). length s)") auto

section \<open>strconv, fmt\<close>

text \<open>\<open>ParseUint(s, 10, bits)\<close>; \<open>None\<close> is an error.\<close>

definition parse_uint :: "nat \<Rightarrow> string \<Rightarrow> nat option" where
  "parse_uint bits s = (case dec_val s of None \<Rightarrow> None
     | Some n \<Rightarrow> if n < 2 ^ bits then Some n else None)"

text \<open>
  \<open>Atoi\<close> on a 64-bit machine: the value and whether there was an error.  With an error the value is 0
  for a malformed numeral and the nearest representable number for one that is out of range.
\<close>

definition atoi :: "string \<Rightarrow> int64 \<times> bool" where
  "atoi s =
     (let neg = (s \<noteq> [] \<and> hd s = CHR ''-'');
          digits = (if s \<noteq> [] \<and> (hd s = CHR ''-'' \<or> hd s = CHR ''+'') then tl s else s)
      in case dec_val digits of
           None \<Rightarrow> (0, True)
         | Some n \<Rightarrow>
             if neg then (if n \<le> 2 ^ 63 then (word_of_int (- int n), False) else (word_of_int (- (2 ^ 63)), True))
             else (if n < 2 ^ 63 then (word_of_nat n, False) else (word_of_int (2 ^ 63 - 1), True)))"

text \<open>
  \<open>Sscanf(s, "%d", &v)\<close> with \<open>v\<close> a \<open>uint32\<close>: leading white space other than a line end is skipped, then
  the longest run of digits is the number; what follows is ignored.  (White space outside ASCII is
  not considered.)
\<close>

definition is_blank :: "char \<Rightarrow> bool" where
  "is_blank c \<longleftrightarrow> of_char c \<in> {9, 11, 12, 13, 32 :: nat}"

definition sscanf_uint32 :: "string \<Rightarrow> uint32 option" where
  "sscanf_uint32 s =
     (case dec_val (takeWhile (\<lambda>c. digit_val c \<noteq> None) (dropWhile is_blank s)) of
        None \<Rightarrow> None
      | Some n \<Rightarrow> if n < 2 ^ 32 then Some (word_of_nat n) else None)"

section \<open>net/url\<close>

definition hex_val :: "char \<Rightarrow> nat option" where
  "hex_val c = (let v = of_char c :: nat in
     if 48 \<le> v \<and> v \<le> 57 then Some (v - 48)
     else if 97 \<le> v \<and> v \<le> 102 then Some (v - 87)
     else if 65 \<le> v \<and> v \<le> 70 then Some (v - 55)
     else None)"

fun query_unescape :: "string \<Rightarrow> string option" where
  "query_unescape [] = Some []"
| "query_unescape (c # cs) =
     (if c = CHR ''%'' then
        (case cs of
           x # y # rest \<Rightarrow>
             (case (hex_val x, hex_val y) of
                (Some a, Some b) \<Rightarrow> map_option (\<lambda>r. char_of (16 * a + b) # r) (query_unescape rest)
              | _ \<Rightarrow> None)
         | _ \<Rightarrow> None)
      else map_option (\<lambda>r. (if c = CHR ''+'' then CHR '' '' else c) # r) (query_unescape cs))"

text \<open>The parameters in order; \<open>None\<close> if any part of the query is malformed.\<close>

fun parse_pairs :: "string list \<Rightarrow> (string \<times> string) list option" where
  "parse_pairs [] = Some []"
| "parse_pairs (p # ps) =
     (if CHR '';'' \<in> set p then None
      else if p = [] then parse_pairs ps
      else (case (query_unescape (fst (cut_char (CHR ''='') p)), query_unescape (snd (cut_char (CHR ''='') p))) of
              (Some k, Some v) \<Rightarrow> map_option (\<lambda>r. (k, v) # r) (parse_pairs ps)
            | _ \<Rightarrow> None))"

definition parse_query :: "string \<Rightarrow> (string \<times> string) list option" where
  "parse_query q = parse_pairs (split_char (CHR ''&'') q)"

text \<open>\<open>Values.Get\<close>: the first value of a key, the empty string if there is none.\<close>

definition values_get :: "(string \<times> string) list \<Rightarrow> string \<Rightarrow> string" where
  "values_get vs k = (case map_of vs k of None \<Rightarrow> [] | Some v \<Rightarrow> v)"

text \<open>Decoded JSON; the entries of an object have different keys.\<close>

datatype json = JNull | JBool bool | JNumber string | JString string | JArray "json list" | JObject "(string \<times> json) list"

section \<open>Laws\<close>

lemma split_char_not_Nil [simp, str_simps]: "split_char c s \<noteq> []"
  by (induction s) (auto split: list.splits)

lemma split_char_none: "c \<notin> set s \<Longrightarrow> split_char c s = [s]"
  by (induction s) auto

lemma split_char_append:
  "c \<notin> set s \<Longrightarrow> split_char c (s @ c # t) = s # split_char c t"
  by (induction s) auto

lemma split_char_parts: "p \<in> set (split_char c s) \<Longrightarrow> c \<notin> set p"
  by (induction s arbitrary: p) (auto split: if_splits list.splits)

lemma hd_split_char: "hd (split_char c s) = takeWhile (\<lambda>x. x \<noteq> c) s"
  by (induction s) (auto split: list.splits)

lemma split_char_single: "split_char c s = [p] \<Longrightarrow> c \<notin> set s"
  by (induction s arbitrary: p) (auto split: if_splits list.splits)

lemma last_split_char: "last (split_char c s) = rev (takeWhile (\<lambda>x. x \<noteq> c) (rev s))"
proof (induction s)
  case (Cons x s)
  have l: "last (split_char c (x # s)) = (if c \<in> set s then last (split_char c s)
      else if x = c then s else x # s)"
    by (cases "split_char c s") (auto simp: split_char_none dest: split_char_single split: list.splits)
  show ?case
  proof (cases "c \<in> set s")
    case True
    then have "takeWhile (\<lambda>x. x \<noteq> c) (rev s @ [x]) = takeWhile (\<lambda>x. x \<noteq> c) (rev s)"
      by (simp add: takeWhile_append1 [of c])
    with True Cons show ?thesis by (simp only: l rev.simps if_True)
  next
    case False
    then have "takeWhile (\<lambda>x. x \<noteq> c) (rev s @ [x]) = rev s @ takeWhile (\<lambda>x. x \<noteq> c) [x]"
      by (intro takeWhile_append2) auto
    with False show ?thesis by (simp only: l rev.simps) auto
  qed
qed simp

lemma has_prefix_append [simp, str_simps]: "has_prefix (p @ s) p"
  by (simp add: has_prefix_def)

lemma has_prefix_set: "has_prefix s p \<Longrightarrow> set p \<subseteq> set s"
  unfolding has_prefix_def by (metis set_take_subset)

lemma replace_all_absent: "c \<in> set old \<Longrightarrow> c \<notin> set s \<Longrightarrow> replace_all s old new = s"
proof (induction s)
  case (Cons x xs)
  then have "\<not> has_prefix (x # xs) old" using has_prefix_set [of "x # xs" old] by blast
  with Cons show ?case by simp
qed simp

lemma replace_all_prefix:
  assumes "old \<noteq> []"
  shows "replace_all (old @ s) old new = new @ replace_all s old new"
  using assms has_prefix_append [of old s] by (cases old) simp_all

lemma dec_val_digits: "dec_val s = Some n \<Longrightarrow> s \<noteq> []"
  by (auto simp: dec_val_def split: if_splits)

lemma parse_uint_dec_nat [str_simps]: "parse_uint bits (dec_nat n) = (if n < 2 ^ bits then Some n else None)"
  by (simp add: parse_uint_def)

lemma digit_not_blank: "c \<in> set (dec_nat n) \<Longrightarrow> \<not> is_blank c"
  using dec_nat_chars [of c n] by (auto simp: is_blank_def)

lemma sscanf_uint32_dec_nat [str_simps]:
  assumes "n < 2 ^ 32"
  shows "sscanf_uint32 (dec_nat n) = Some (word_of_nat n)"
proof -
  have "dropWhile is_blank (dec_nat n) = dec_nat n"
    using digit_not_blank [of "hd (dec_nat n)" n] by (cases "dec_nat n") (use dec_nat_not_Nil in auto)
  moreover have "takeWhile (\<lambda>c. digit_val c \<noteq> None) (dec_nat n) = dec_nat n"
    using digit_val_dec_nat by (simp only: takeWhile_eq_all_conv) blast
  ultimately show ?thesis using assms by (simp only: sscanf_uint32_def dec_val_dec_nat option.case if_True)
qed

lemma atoi_dec_nat [str_simps]:
  assumes "n < 2 ^ 63"
  shows "atoi (dec_nat n) = (word_of_nat n, False)"
proof -
  obtain c cs where c: "dec_nat n = c # cs" by (cases "dec_nat n") (use dec_nat_not_Nil in auto)
  then have "of_char c \<in> {48..57::nat}" using dec_nat_chars [of c n] by simp
  then have "c \<noteq> CHR ''-''" "c \<noteq> CHR ''+''" by auto
  with assms c show ?thesis using dec_val_dec_nat [of n] by (simp add: atoi_def)
qed

text \<open>Queries whose names and values need no escaping.\<close>

definition plain_text :: "string \<Rightarrow> bool" where
  "plain_text s \<longleftrightarrow> set s \<inter> {CHR ''&'', CHR '';'', CHR ''='', CHR ''%'', CHR ''+''} = {}"

fun join_char :: "char \<Rightarrow> string list \<Rightarrow> string" where
  "join_char c [] = []"
| "join_char c [p] = p"
| "join_char c (p # q # ps) = p @ c # join_char c (q # ps)"

definition query_of :: "(string \<times> string) list \<Rightarrow> string" where
  "query_of ps = join_char (CHR ''&'') (map (\<lambda>(k, v). k @ CHR ''='' # v) ps)"

lemma split_join_char:
  "ps \<noteq> [] \<Longrightarrow> \<forall>p \<in> set ps. c \<notin> set p \<Longrightarrow> split_char c (join_char c ps) = ps"
  by (induction c ps rule: join_char.induct) (auto simp: split_char_none split_char_append)

lemma set_join_char: "set (join_char c ps) \<subseteq> insert c (\<Union>p \<in> set ps. set p)"
  by (induction c ps rule: join_char.induct) auto

lemma query_unescape_plain: "plain_text s \<Longrightarrow> query_unescape s = Some s"
  by (induction s) (auto simp: plain_text_def)

lemma cut_char_append: "c \<notin> set k \<Longrightarrow> cut_char c (k @ c # v) = (k, v)"
  by (induction k) (auto simp: cut_char_def)

lemma parse_pairs_plain:
  "\<forall>(k, v) \<in> set ps. plain_text k \<and> plain_text v \<Longrightarrow>
   parse_pairs (map (\<lambda>(k, v). k @ CHR ''='' # v) ps) = Some ps"
proof (induction ps)
  case (Cons p ps)
  obtain k v where p: "p = (k, v)" by fastforce
  with Cons.prems have kv: "plain_text k" "plain_text v" by auto
  then have "CHR ''='' \<notin> set k" "CHR '';'' \<notin> set k" "CHR '';'' \<notin> set v" by (auto simp: plain_text_def)
  with Cons kv show ?case by (simp add: p cut_char_append query_unescape_plain)
qed simp

lemma parse_query_plain:
  assumes "\<forall>(k, v) \<in> set ps. plain_text k \<and> plain_text v"
  shows "parse_query (query_of ps) = Some ps"
proof (cases "ps = []")
  case True
  then show ?thesis by (simp add: parse_query_def query_of_def)
next
  case False
  moreover have "\<forall>p \<in> set (map (\<lambda>(k, v). k @ CHR ''='' # v) ps). CHR ''&'' \<notin> set p"
    using assms by (auto simp: plain_text_def)
  ultimately show ?thesis
    using parse_pairs_plain [OF assms] by (simp add: parse_query_def query_of_def split_join_char)
qed

section \<open>Text without white space at its ends\<close>

definition solid :: "char \<Rightarrow> bool" where
  "solid c \<longleftrightarrow> of_char c < (128 :: nat) \<and> \<not> is_space c"

definition firm :: "string \<Rightarrow> bool" where
  "firm s \<longleftrightarrow> s \<noteq> [] \<and> solid (hd s) \<and> solid (last s)"

lemma space_len_solid:
  assumes "orient = id \<or> orient = rev" and "solid c"
  shows "space_len orient (c # s) = 0"
proof -
  have "\<forall>u \<in> set unicode_spaces. u \<noteq> [] \<and> hd u \<ge> 128 \<and> last u \<ge> 128" by code_simp
  then have u: "orient u \<noteq> [] \<and> hd (orient u) \<ge> 128 \<and> length u > 0" if "u \<in> set unicode_spaces" for u
    using assms(1) that by (auto simp: hd_rev)
  have "take (length u) (map of_char (c # s)) \<noteq> orient u" if "u \<in> set unicode_spaces" for u
  proof
    assume "take (length u) (map of_char (c # s)) = orient u"
    then have "hd (orient u) = hd (take (length u) (map of_char (c # s)))" by simp
    also have "\<dots> = of_char c" using u [OF that] by (cases u) simp_all
    finally have "hd (orient u) = of_char c" .
    with u [OF that] assms(2) show False by (simp add: solid_def)
  qed
  then have "find (\<lambda>u. take (length u) (map of_char (c # s)) = orient u) unicode_spaces = None"
    by (simp only: find_None_iff) blast
  with assms(2) show ?thesis by (simp add: space_len_def solid_def)
qed

lemma trim_from_solid:
  "orient = id \<or> orient = rev \<Longrightarrow> s \<noteq> [] \<Longrightarrow> solid (hd s) \<Longrightarrow> trim_from orient s = s"
  by (cases s) (auto simp: trim_from.simps space_len_solid)

lemma trim_space_Nil [simp, str_simps]: "trim_space [] = []"
  by (simp add: trim_space_def trim_from.simps)

lemma trim_space_firm [str_simps]: "firm s \<Longrightarrow> trim_space s = s"
  by (simp add: trim_space_def firm_def trim_from_solid hd_rev)

lemma trim_space_leading: "firm s \<Longrightarrow> trim_space (CHR '' '' # s) = s"
proof -
  assume f: "firm s"
  have "trim_from id (CHR '' '' # s) = trim_from id s"
    by (subst trim_from.simps) (simp add: space_len_def is_space_def ascii_spaces_def)
  with f show ?thesis by (simp add: trim_space_def firm_def trim_from_solid hd_rev)
qed

lemma join_singleton: "join ps [c] = join_char c ps"
  by (induction ps "[c]" rule: join.induct) auto

lemma runes_ascii_Cons: "of_char c < (128 :: nat) \<Longrightarrow> runes i (c # cs) = (i, [c]) # runes (i + 1) cs"
  by (simp add: written_rune_def rune_tail_def utf8_tail_def Let_def)

section \<open>Buffered channels\<close>

text \<open>
  Sending on a channel with a full buffer and receiving from an empty one block (\<open>None\<close>).  A channel
  hands out what was sent, in order; the lemmas that follow from that hold for any such queue.
\<close>

definition chan_send :: "nat \<Rightarrow> 'a list \<Rightarrow> 'a \<Rightarrow> 'a list option" where
  "chan_send capacity c x = (if length c < capacity then Some (c @ [x]) else None)"

definition chan_recv :: "'a list \<Rightarrow> ('a \<times> 'a list) option" where
  "chan_recv c = (case c of [] \<Rightarrow> None | x # xs \<Rightarrow> Some (x, xs))"

locale fifo_channel =
  fixes send :: "'c \<Rightarrow> 'a \<Rightarrow> 'c option"
    and recv :: "'c \<Rightarrow> ('a \<times> 'c) option"
    and contents :: "'c \<Rightarrow> 'a list"
    and capacity :: nat
  assumes send_contents: "send c x = Some c' \<Longrightarrow> contents c' = contents c @ [x]"
    and recv_contents: "recv c = Some (x, c') \<Longrightarrow> contents c = x # contents c'"
    and send_blocks: "send c x = None \<longleftrightarrow> capacity \<le> length (contents c)"
    and recv_blocks: "recv c = None \<longleftrightarrow> contents c = []"
begin

text \<open>The buffer never holds more than its capacity.\<close>

lemma send_bounded: "send c x = Some c' \<Longrightarrow> length (contents c') \<le> capacity"
  using send_contents [of c x c'] send_blocks [of c x] by auto

lemma recv_bounded: "recv c = Some (x, c') \<Longrightarrow> length (contents c) \<le> capacity \<Longrightarrow> length (contents c') \<le> capacity"
  using recv_contents [of c x c'] by auto

text \<open>What was sent is what was received, followed by what is buffered: kept by both operations.\<close>

lemma send_history:
  "sent = received @ contents c \<Longrightarrow> send c x = Some c' \<Longrightarrow> sent @ [x] = received @ contents c'"
  using send_contents by auto

lemma recv_history:
  "sent = received @ contents c \<Longrightarrow> recv c = Some (x, c') \<Longrightarrow> sent = (received @ [x]) @ contents c'"
  using recv_contents by auto

text \<open>A channel that holds something can be received from, and after that there is room to send.\<close>

lemma recv_makes_room:
  "recv c = Some (x, c') \<Longrightarrow> length (contents c) \<le> capacity \<Longrightarrow> \<exists>c''. send c' y = Some c''"
  using recv_contents [of c x c'] send_blocks [of c' y] by (cases "send c' y") auto

end

interpretation chan: fifo_channel "chan_send capacity" chan_recv "\<lambda>c. c" capacity
  by unfold_locales (auto simp: chan_send_def chan_recv_def split: if_splits list.splits)

end
