(* ===== verification/Wafie_Lib.thy ===== *)
theory Wafie_Lib
  imports Go_Lib
begin

text \<open>
  The interface between the Go programs and the C library \<open>libwafie\<close>: the structs and functions of
  the two copies of \<^verbatim>\<open>wafielib.h\<close> (\<^verbatim>\<open>xproc/pkg/modsec/include\<close> and \<^verbatim>\<open>modsecfilter/include\<close>), and the
  C memory that both sides share through cgo.  The library itself is not part of the sources: it is
  a record of functions over its own state \<open>'w\<close>, the C memory and the request struct.
\<close>

section \<open>C memory\<close>

record WafieEvaluationRequestHeader =
  hdr_key :: ptr
  hdr_value :: ptr

text \<open>C objects: a string with its terminating NUL, or an array of header structs.\<close>

datatype c_obj = C_String string | C_Headers "WafieEvaluationRequestHeader list"

type_synonym c_heap = "c_obj store"

text \<open>\<open>C.CString\<close> copies a Go string; \<open>C.GoString\<close> reads up to the first NUL, nothing from a null pointer.\<close>

definition CString :: "string \<Rightarrow> c_heap \<Rightarrow> addr \<times> c_heap" where
  "CString s h = new_obj h (C_String s)"

definition GoString :: "ptr \<Rightarrow> c_heap \<Rightarrow> string res" where
  "GoString p h = (case p of None \<Rightarrow> Inr [] | Some a \<Rightarrow>
     bind_res (read_obj h a) (\<lambda>v. case v of C_String s \<Rightarrow> Inr (c_str s) | C_Headers _ \<Rightarrow> Inl Undefined_Index))"

text \<open>
  \<open>C.malloc\<close> of an array of \<open>n\<close> header structs (its content is indeterminate in C; every element is
  assigned before it is read), and the assignment of both members of one element.
\<close>

definition malloc_headers :: "nat \<Rightarrow> c_heap \<Rightarrow> addr \<times> c_heap" where
  "malloc_headers n h = new_obj h (C_Headers (replicate n \<lparr>hdr_key = None, hdr_value = None\<rparr>))"

definition write_header :: "addr \<Rightarrow> nat \<Rightarrow> WafieEvaluationRequestHeader \<Rightarrow> c_heap \<Rightarrow> c_heap res" where
  "write_header arr idx hdr h = bind_res (read_obj h arr) (\<lambda>v. case v of
       C_Headers hs \<Rightarrow> if idx < length hs then write_obj h arr (C_Headers (hs[idx := hdr])) else Inl Undefined_Index
     | C_String _ \<Rightarrow> Inl Undefined_Index)"

text \<open>
  The two strings of one element of a header array and the assignment of its members, and a loop that
  fills consecutive elements.  Both Go programs build their header arrays this way.
\<close>

definition put_pair :: "addr \<Rightarrow> nat \<Rightarrow> string \<times> string \<Rightarrow> c_heap \<Rightarrow> c_heap res" where
  "put_pair arr idx kv h =
     (let (k, h) = CString (fst kv) h;
          (v, h) = CString (snd kv) h
      in write_header arr idx \<lparr>hdr_key = Some k, hdr_value = Some v\<rparr> h)"

fun put_pairs :: "addr \<Rightarrow> nat \<Rightarrow> (string \<times> string) list \<Rightarrow> c_heap \<Rightarrow> c_heap res" where
  "put_pairs arr idx [] h = Inr h"
| "put_pairs arr idx (kv # kvs) h = bind_res (put_pair arr idx kv h) (put_pairs arr (idx + 1) kvs)"

text \<open>Reading one element of a header array.\<close>

definition read_header :: "ptr \<Rightarrow> nat \<Rightarrow> c_heap \<Rightarrow> WafieEvaluationRequestHeader res" where
  "read_header p idx h = (case p of None \<Rightarrow> Inl Null_Dereference | Some arr \<Rightarrow>
     bind_res (read_obj h arr) (\<lambda>v. case v of
       C_Headers hs \<Rightarrow> if idx < length hs then Inr (hs ! idx) else Inl Undefined_Index
     | C_String _ \<Rightarrow> Inl Undefined_Index))"

section \<open>wafielib.h of the external processor\<close>

record WafieRuleSetConfig =
  cfg_config_path :: ptr
  cfg_protection_id :: uint32

record WafieRuleSet =
  wrs_protection_id :: uint32
  wrs_rules :: ptr

record WafieEvaluationRequest =
  client_ip :: ptr
  uri :: ptr
  http_method :: ptr
  http_version :: ptr
  protocol :: ptr
  request_body_ptr :: ptr
  response_body_ptr :: ptr
  intervention_url :: ptr
  response_code :: uint32
  request_headers_count :: size_t
  response_headers_count :: size_t
  total_loaded_rules :: cint
  protection_id :: uint32
  request_headers :: ptr
  response_headers_ptr :: ptr
  transaction :: ptr

type_synonym 'w lib_call = "WafieEvaluationRequest \<Rightarrow> c_heap \<Rightarrow> 'w \<Rightarrow> WafieEvaluationRequest \<times> c_heap \<times> 'w"
type_synonym 'w lib_eval = "WafieEvaluationRequest \<Rightarrow> c_heap \<Rightarrow> 'w \<Rightarrow> cint \<times> WafieEvaluationRequest \<times> c_heap \<times> 'w"

record 'w libwafie =
  wafie_init :: "'w \<Rightarrow> 'w"
  wafie_init_transaction :: "'w lib_call"
  wafie_cleanup :: "'w lib_call"
  wafie_load_rule_sets :: "WafieRuleSetConfig list \<Rightarrow> cint \<Rightarrow> c_heap \<Rightarrow> 'w \<Rightarrow> c_heap \<times> 'w"
  wafie_process_request_headers :: "'w lib_eval"
  wafie_process_request_body :: "'w lib_eval"
  wafie_process_response_headers :: "'w lib_eval"
  wafie_process_response_body :: "'w lib_eval"
  wafie_get_header :: "WafieEvaluationRequest \<Rightarrow> addr \<Rightarrow> c_heap \<Rightarrow> 'w \<Rightarrow> ptr \<times> c_heap \<times> 'w"

section \<open>wafielib.h of the Envoy filter\<close>

type_synonym EvaluationRequestHeader = WafieEvaluationRequestHeader

record EvaluationRequest =
  er_client_ip :: ptr
  er_uri :: ptr
  er_http_method :: ptr
  er_http_version :: ptr
  er_body :: ptr
  er_headers_count :: size_t
  er_headers :: ptr
  er_transaction :: ptr

text \<open>
  The functions that take the request as \<open>const *\<close> leave it as it is; \<open>wafie_init_request_transaction\<close>
  may change it.
\<close>

record 'w libwafie_filter =
  filter_wafie_library_init :: "string \<Rightarrow> 'w \<Rightarrow> 'w"
  filter_wafie_process_request_headers :: "EvaluationRequest \<Rightarrow> c_heap \<Rightarrow> 'w \<Rightarrow> cint \<times> c_heap \<times> 'w"
  filter_wafie_process_request_body :: "EvaluationRequest \<Rightarrow> c_heap \<Rightarrow> 'w \<Rightarrow> cint \<times> c_heap \<times> 'w"
  filter_wafie_init_request_transaction :: "EvaluationRequest \<Rightarrow> c_heap \<Rightarrow> 'w \<Rightarrow> EvaluationRequest \<times> c_heap \<times> 'w"
  filter_wafie_transaction_cleanup :: "EvaluationRequest \<Rightarrow> c_heap \<Rightarrow> 'w \<Rightarrow> c_heap \<times> 'w"
  filter_wafie_dump_rules :: "'w \<Rightarrow> 'w"
  filter_wafie_cleanup :: "string \<Rightarrow> ptr \<Rightarrow> ptr \<Rightarrow> 'w \<Rightarrow> 'w"
  filter_wafie_add_rule :: "string \<Rightarrow> 'w \<Rightarrow> cint \<times> 'w"

section \<open>Laws of the C memory\<close>

lemma CString_laws:
  assumes "store_ok h" and "CString s h = (a, h')"
  shows "store_ok h'" and "live h' = insert a (live h)" and "a \<notin> live h"
    and "read_obj h' b = (if b = a then Inr (C_String s) else read_obj h b)"
  using obj.alloc_ok [OF assms(1)] obj.alloc_live [OF assms(1)] obj.alloc_fresh [OF assms(1)]
    obj.alloc_read [OF assms(1)] assms(2)
  by (auto simp: CString_def)

lemma malloc_headers_laws:
  assumes "store_ok h" and "malloc_headers n h = (a, h')"
  shows "store_ok h'" and "live h' = insert a (live h)" and "a \<notin> live h"
    and "read_obj h' b = (if b = a then Inr (C_Headers (replicate n \<lparr>hdr_key = None, hdr_value = None\<rparr>))
           else read_obj h b)"
  using obj.alloc_ok [OF assms(1)] obj.alloc_live [OF assms(1)] obj.alloc_fresh [OF assms(1)]
    obj.alloc_read [OF assms(1)] assms(2)
  by (auto simp: malloc_headers_def)

lemma write_header_laws:
  assumes "store_ok h" and "read_obj h arr = Inr (C_Headers hs)" and "idx < length hs"
  shows "\<exists>h'. write_header arr idx hdr h = Inr h' \<and> store_ok h' \<and> live h' = live h
    \<and> (\<forall>b. read_obj h' b = (if b = arr then Inr (C_Headers (hs[idx := hdr])) else read_obj h b))"
proof -
  have "arr \<in> live h" using assms(2) obj.read_live by blast
  from obj.put_live [OF this, of "C_Headers (hs[idx := hdr])"] assms show ?thesis
    by (auto simp: write_header_def)
qed

lemma GoString_String [simp]: "read_obj h a = Inr (C_String s) \<Longrightarrow> GoString (Some a) h = Inr (c_str s)"
  by (simp add: GoString_def)

lemma GoString_null [simp]: "GoString None h = Inr []"
  by (simp add: GoString_def)

section \<open>Filling a header array\<close>

text \<open>All objects, or all objects but \<open>arr\<close>, are kept.\<close>

definition keeps :: "c_heap \<Rightarrow> c_heap \<Rightarrow> bool" where
  "keeps h h' \<longleftrightarrow> live h \<subseteq> live h' \<and> (\<forall>b \<in> live h. read_obj h' b = read_obj h b)"

definition keeps_but :: "addr \<Rightarrow> c_heap \<Rightarrow> c_heap \<Rightarrow> bool" where
  "keeps_but arr h h' \<longleftrightarrow> live h \<subseteq> live h' \<and> (\<forall>b \<in> live h. b \<noteq> arr \<longrightarrow> read_obj h' b = read_obj h b)"

lemma keeps_but_trans: "keeps_but arr h h' \<Longrightarrow> keeps_but arr h' h'' \<Longrightarrow> keeps_but arr h h''"
  by (auto simp: keeps_but_def subset_iff)

lemma keeps_trans [trans]: "keeps h h' \<Longrightarrow> keeps h' h'' \<Longrightarrow> keeps h h''"
  by (auto simp: keeps_def subset_iff)

lemma keeps_read: "keeps h h' \<Longrightarrow> read_obj h a = Inr v \<Longrightarrow> read_obj h' a = Inr v"
  using obj.read_live [of a h] by (auto simp: keeps_def)

lemma CString_keeps:
  assumes "store_ok h" and "CString s h = (a, h')"
  shows "store_ok h' \<and> keeps h h' \<and> read_obj h' a = Inr (C_String s) \<and> a \<notin> live h"
  using CString_laws [OF assms] by (auto simp: keeps_def)

text \<open>The element whose members point to the two addresses, and all these addresses.\<close>

definition hdr_at :: "addr \<times> addr \<Rightarrow> WafieEvaluationRequestHeader" where
  "hdr_at kv = \<lparr>hdr_key = Some (fst kv), hdr_value = Some (snd kv)\<rparr>"

definition pair_addrs :: "(addr \<times> addr) list \<Rightarrow> addr list" where
  "pair_addrs ks = concat (map (\<lambda>(k, v). [k, v]) ks)"

definition holds_pair :: "c_heap \<Rightarrow> addr \<times> addr \<Rightarrow> string \<times> string \<Rightarrow> bool" where
  "holds_pair h a kv \<longleftrightarrow> read_obj h (fst a) = Inr (C_String (fst kv)) \<and> read_obj h (snd a) = Inr (C_String (snd kv))"

lemma pair_addrs_simps [simp]:
  "pair_addrs [] = []" "pair_addrs ((k, v) # ks) = k # v # pair_addrs ks"
  by (simp_all add: pair_addrs_def)

lemma put_pair_spec:
  assumes "store_ok h" and "read_obj h arr = Inr (C_Headers hs)" and "idx < length hs"
  shows "\<exists>h' k v. put_pair arr idx kv h = Inr h' \<and> store_ok h' \<and> keeps_but arr h h'
    \<and> read_obj h' arr = Inr (C_Headers (hs[idx := hdr_at (k, v)])) \<and> holds_pair h' (k, v) kv
    \<and> k \<noteq> v \<and> {k, v} \<inter> live h = {} \<and> live h' = {k, v} \<union> live h"
proof -
  have arr: "arr \<in> live h" using assms(2) obj.read_live by blast
  obtain k h1 where 1: "CString (fst kv) h = (k, h1)" by fastforce
  note l1 = CString_laws [OF assms(1) 1]
  obtain v h2 where 2: "CString (snd kv) h1 = (v, h2)" by fastforce
  note l2 = CString_laws [OF l1(1) 2]
  have ne: "k \<noteq> arr" "v \<noteq> arr" "k \<noteq> v" using arr l1(2,3) l2(3) by auto
  have r: "read_obj h2 arr = Inr (C_Headers hs)" using l1(4) l2(4) ne assms(2) by simp
  from write_header_laws [OF l2(1) r assms(3), of "hdr_at (k, v)"]
  obtain h3 where 3: "write_header arr idx (hdr_at (k, v)) h2 = Inr h3" "store_ok h3" "live h3 = live h2"
    "\<forall>b. read_obj h3 b = (if b = arr then Inr (C_Headers (hs[idx := hdr_at (k, v)])) else read_obj h2 b)"
    by blast
  have "keeps_but arr h h3" using 3(3,4) l1(2,3,4) l2(2,3,4) by (auto simp: keeps_but_def)
  moreover have "put_pair arr idx kv h = Inr h3" using 1 2 3(1) by (simp add: put_pair_def hdr_at_def)
  moreover have "holds_pair h3 (k, v) kv" using 3(4) l1(4) l2(4) ne by (simp add: holds_pair_def)
  moreover have "{k, v} \<inter> live h = {}" "live h3 = {k, v} \<union> live h" using 3(3) l1(2,3) l2(2,3) by auto
  ultimately show ?thesis using 3(2,4) ne(3) by metis
qed

lemma holds_pair_keeps_but:
  assumes "holds_pair h (k, v) kv" and "keeps_but arr h h'" and "arr \<notin> {k, v}"
  shows "holds_pair h' (k, v) kv"
  using assms obj.read_live [of k h] obj.read_live [of v h] by (auto simp: holds_pair_def keeps_but_def)

text \<open>Each element gets two strings of its own, none of which was in use before.\<close>

lemma put_pairs_spec:
  assumes "store_ok h" and "read_obj h arr = Inr (C_Headers (pre @ rest))" and "length rest = length kvs"
  shows "\<exists>h' ks. put_pairs arr (length pre) kvs h = Inr h' \<and> store_ok h' \<and> keeps_but arr h h'
    \<and> read_obj h' arr = Inr (C_Headers (pre @ map hdr_at ks)) \<and> list_all2 (holds_pair h') ks kvs
    \<and> distinct (pair_addrs ks) \<and> set (pair_addrs ks) \<inter> live h = {} \<and> live h' = live h \<union> set (pair_addrs ks)"
  using assms
proof (induction kvs arbitrary: h pre rest)
  case Nil
  then show ?case by (auto simp: keeps_but_def intro!: exI [of _ "[]"])
next
  case (Cons kv kvs)
  then obtain x rest' where rest: "rest = x # rest'" by (cases rest) auto
  have arr: "arr \<in> live h" using Cons.prems(2) obj.read_live by blast
  from put_pair_spec [OF Cons.prems(1,2), of "length pre" kv] rest
  obtain h1 k v where 1: "put_pair arr (length pre) kv h = Inr h1" "store_ok h1" "keeps_but arr h h1"
      "read_obj h1 arr = Inr (C_Headers ((pre @ [hdr_at (k, v)]) @ rest'))" "holds_pair h1 (k, v) kv"
      "k \<noteq> v" "{k, v} \<inter> live h = {}" "live h1 = {k, v} \<union> live h"
    by auto
  from Cons.IH [OF 1(2,4)] Cons.prems(3) rest obtain h' ks where
    2: "put_pairs arr (Suc (length pre)) kvs h1 = Inr h'" "store_ok h'" "keeps_but arr h1 h'"
      "read_obj h' arr = Inr (C_Headers ((pre @ [hdr_at (k, v)]) @ map hdr_at ks))"
      "list_all2 (holds_pair h') ks kvs" "distinct (pair_addrs ks)"
      "set (pair_addrs ks) \<inter> live h1 = {}" "live h' = live h1 \<union> set (pair_addrs ks)"
    by auto
  have "holds_pair h' (k, v) kv" using holds_pair_keeps_but [OF 1(5) 2(3)] arr 1(7) by auto
  with 1 2 keeps_but_trans [OF 1(3) 2(3)] show ?case
    by (intro exI [of _ h'] exI [of _ "(k, v) # ks"]) auto
qed

text \<open>An array allocated and filled: what is new is the array and the strings of its elements.\<close>

lemma fill_pairs_spec:
  assumes "store_ok h" and "malloc_headers (length kvs) h = (arr, h1)"
  shows "\<exists>h' ks. put_pairs arr 0 kvs h1 = Inr h' \<and> store_ok h' \<and> keeps h h'
    \<and> read_obj h' arr = Inr (C_Headers (map hdr_at ks)) \<and> list_all2 (holds_pair h') ks kvs
    \<and> distinct (arr # pair_addrs ks) \<and> set (arr # pair_addrs ks) \<inter> live h = {}
    \<and> live h' = live h \<union> set (arr # pair_addrs ks)"
proof -
  note m = malloc_headers_laws [OF assms]
  from put_pairs_spec [OF m(1), of arr "[]" "replicate (length kvs) \<lparr>hdr_key = None, hdr_value = None\<rparr>" kvs] m(4)
  obtain h' ks where h': "put_pairs arr 0 kvs h1 = Inr h'" "store_ok h'" "keeps_but arr h1 h'"
      "read_obj h' arr = Inr (C_Headers (map hdr_at ks))" "list_all2 (holds_pair h') ks kvs"
      "distinct (pair_addrs ks)" "set (pair_addrs ks) \<inter> live h1 = {}" "live h' = live h1 \<union> set (pair_addrs ks)"
    by auto
  have "keeps h h'" using h'(3) m(2,3,4) by (auto simp: keeps_def keeps_but_def)
  with h' m show ?thesis by (intro exI [of _ h'] exI [of _ ks]) auto
qed

end
