(* ===== verification/Xproc_ModSec.thy ===== *)
theory Xproc_ModSec
  imports Wafie_Lib
begin

text \<open>
  A model of the request part of \<^verbatim>\<open>xproc/pkg/modsec/modsec.go\<close> and of \<^verbatim>\<open>xproc/pkg/assets/assets.go\<close>:
  the conversion of Envoy's attributes and headers into the C request struct, the evaluation calls,
  and the response that an intervention leads to.  A Go map of attributes is a map; a nil pointer to
  a request is a \<open>Null_Dereference\<close> fault of whoever writes through it.  The C memory and the state of
  the library are passed along explicitly.  The lemmas show which C data a header list becomes.
\<close>

section \<open>Envoy's data\<close>

record HeaderValue =
  Key :: string
  Value :: string
  RawValue :: string

text \<open>\<open>structpb.Value\<close>: only string values matter.\<close>

datatype pb_value = StringValue string | OtherValue

fun GetStringValue :: "pb_value \<Rightarrow> string" where
  "GetStringValue (StringValue s) = s"
| "GetStringValue OtherValue = []"

type_synonym EnvoyRequestAttributes = "string \<rightharpoonup> string"

text \<open>Reading a Go map of strings: a missing key gives the empty string.\<close>

definition map_get :: "(string \<rightharpoonup> string) \<Rightarrow> string \<Rightarrow> string" where
  "map_get m k = (case m k of None \<Rightarrow> [] | Some v \<Rightarrow> v)"

definition NewEnvoyRequestAttributes :: "(string \<rightharpoonup> pb_value) \<Rightarrow> EnvoyRequestAttributes" where
  "NewEnvoyRequestAttributes envoyProcessingAttributes =
     (\<lambda>k. if k \<in> {''request.path'', ''source.address'', ''request.protocol'', ''request.method''}
          then Some (case envoyProcessingAttributes k of None \<Rightarrow> [] | Some v \<Rightarrow> GetStringValue v)
          else None)"

definition RequestPath :: "EnvoyRequestAttributes \<Rightarrow> string" where
  "RequestPath a = map_get a ''request.path''"

definition SourceAddress :: "EnvoyRequestAttributes \<Rightarrow> string" where
  "SourceAddress a = split_char (CHR '':'') (map_get a ''source.address'') ! 0"

definition RequestProtocol :: "EnvoyRequestAttributes \<Rightarrow> string" where
  "RequestProtocol a = map_get a ''request.protocol''"

definition RequestMethod :: "EnvoyRequestAttributes \<Rightarrow> string" where
  "RequestMethod a = map_get a ''request.method''"

section \<open>The evaluation request\<close>

definition getHttpProtocolVersion :: "string \<Rightarrow> string" where
  "getHttpProtocolVersion proto =
     (let protocolSlice = split_char (CHR ''/'') proto
      in if length protocolSlice > 0 then protocolSlice ! (length protocolSlice - 1) else proto)"

fun getAuthorityHeader :: "HeaderValue list \<Rightarrow> string" where
  "getAuthorityHeader [] = []"
| "getAuthorityHeader (hdr # hdrs) = (if Key hdr = '':authority'' then RawValue hdr else getAuthorityHeader hdrs)"

definition header_value :: "HeaderValue \<Rightarrow> string" where
  "header_value hdr = (if Value hdr \<noteq> [] then Value hdr else RawValue hdr)"

text \<open>One round of the loops that fill the header arrays, and the loops.\<close>

definition put_header :: "addr \<Rightarrow> nat \<Rightarrow> HeaderValue \<Rightarrow> c_heap \<Rightarrow> c_heap res" where
  "put_header arr idx hdr h =
     (let (k, h) = CString (Key hdr) h;
          (v, h) = CString (header_value hdr) h
      in write_header arr idx \<lparr>hdr_key = Some k, hdr_value = Some v\<rparr> h)"

fun put_headers :: "addr \<Rightarrow> nat \<Rightarrow> HeaderValue list \<Rightarrow> c_heap \<Rightarrow> c_heap res" where
  "put_headers arr idx [] h = Inr h"
| "put_headers arr idx (hdr # hdrs) h = bind_res (put_header arr idx hdr h) (put_headers arr (idx + 1) hdrs)"

definition zero_request :: WafieEvaluationRequest where
  "zero_request = \<lparr>client_ip = None, uri = None, http_method = None, http_version = None, protocol = None,
     request_body_ptr = None, response_body_ptr = None, intervention_url = None, response_code = 0,
     request_headers_count = 0, response_headers_count = 0, total_loaded_rules = 0, protection_id = 0,
     request_headers = None, response_headers_ptr = None, transaction = None\<rparr>"

definition host_header :: "HeaderValue list \<Rightarrow> HeaderValue" where
  "host_header hdrs = \<lparr>Key = ''host'', Value = [], RawValue = getAuthorityHeader hdrs\<rparr>"

text \<open>\<open>InitEvalRequest\<close> up to the call of the library, and the whole of it.\<close>

definition build_request ::
    "EnvoyRequestAttributes \<Rightarrow> HeaderValue list \<Rightarrow> uint32 \<Rightarrow> c_heap \<Rightarrow> (WafieEvaluationRequest \<times> c_heap) res" where
  "build_request attr hdrs pid h =
     (let (ip, h) = CString (SourceAddress attr) h;
          (u, h) = CString (RequestPath attr) h;
          (meth, h) = CString (RequestMethod attr) h;
          (ver, h) = CString (getHttpProtocolVersion (RequestProtocol attr)) h;
          (proto, h) = CString (RequestProtocol attr) h;
          hdrs = hdrs @ [host_header hdrs];
          headersCount = length hdrs;
          (arr, h) = malloc_headers headersCount h
      in bind_res (put_headers arr 0 hdrs h) (\<lambda>h.
           Inr (zero_request\<lparr>client_ip := Some ip, uri := Some u, http_method := Some meth,
                  http_version := Some ver, protocol := Some proto, protection_id := pid,
                  request_headers_count := word_of_nat headersCount, request_headers := Some arr\<rparr>, h)))"

definition InitEvalRequest ::
    "'w libwafie \<Rightarrow> EnvoyRequestAttributes \<Rightarrow> HeaderValue list \<Rightarrow> uint32 \<Rightarrow> c_heap \<Rightarrow> 'w
      \<Rightarrow> (WafieEvaluationRequest \<times> c_heap \<times> 'w) res" where
  "InitEvalRequest lib attr hdrs pid h w =
     bind_res (build_request attr hdrs pid h) (\<lambda>(ev, h). Inr (wafie_init_transaction lib ev h w))"

text \<open>
  \<open>SetResponseHeaders\<close>: the array is filled as before, and each \<open>:status\<close> header that can be read sets
  the response code.
\<close>

definition status_of :: "uint32 \<Rightarrow> HeaderValue list \<Rightarrow> uint32" where
  "status_of code hdrs = fold (\<lambda>hdr c. if Key hdr = '':status''
     then (case sscanf_uint32 (RawValue hdr) of None \<Rightarrow> c | Some s \<Rightarrow> s) else c) hdrs code"

definition SetResponseHeaders ::
    "HeaderValue list \<Rightarrow> WafieEvaluationRequest option \<Rightarrow> c_heap \<Rightarrow> (WafieEvaluationRequest \<times> c_heap) res" where
  "SetResponseHeaders hdrs evalRequest h = (case evalRequest of None \<Rightarrow> Inl Null_Dereference
     | Some ev \<Rightarrow>
        (let headersCount = length hdrs;
             (arr, h) = malloc_headers headersCount h
         in bind_res (put_headers arr 0 hdrs h) (\<lambda>h.
              Inr (ev\<lparr>response_headers_count := word_of_nat headersCount, response_headers_ptr := Some arr,
                      response_code := status_of (response_code ev) hdrs\<rparr>, h))))"

definition SetRequestBody ::
    "string \<Rightarrow> WafieEvaluationRequest option \<Rightarrow> c_heap \<Rightarrow> (WafieEvaluationRequest \<times> c_heap) res" where
  "SetRequestBody body evalRequest h = (case evalRequest of None \<Rightarrow> Inl Null_Dereference
     | Some ev \<Rightarrow> (let (p, h) = CString body h in Inr (ev\<lparr>request_body_ptr := Some p\<rparr>, h)))"

definition SetResponseBody ::
    "string \<Rightarrow> WafieEvaluationRequest option \<Rightarrow> c_heap \<Rightarrow> (WafieEvaluationRequest \<times> c_heap) res" where
  "SetResponseBody body evalRequest h = (case evalRequest of None \<Rightarrow> Inl Null_Dereference
     | Some ev \<Rightarrow> (let (p, h) = CString body h in Inr (ev\<lparr>response_body_ptr := Some p\<rparr>, h)))"

text \<open>The evaluation calls: any result but 0 is an intervention.\<close>

definition ProcessRequestHeaders where
  "ProcessRequestHeaders lib ev h w =
     (let (r, ev, h, w) = wafie_process_request_headers lib ev h w in (r \<noteq> 0, ev, h, w))"

definition ProcessRequestBody where
  "ProcessRequestBody lib ev h w =
     (let (r, ev, h, w) = wafie_process_request_body lib ev h w in (r \<noteq> 0, ev, h, w))"

definition ProcessResponseHeaders where
  "ProcessResponseHeaders lib ev h w =
     (let (r, ev, h, w) = wafie_process_response_headers lib ev h w in (r \<noteq> 0, ev, h, w))"

definition ProcessResponseBody where
  "ProcessResponseBody lib ev h w =
     (let (r, ev, h, w) = wafie_process_response_body lib ev h w in (r \<noteq> 0, ev, h, w))"

definition DestroyTransaction where
  "DestroyTransaction lib ev h w = wafie_cleanup lib ev h w"

section \<open>Assets\<close>

text \<open>
  The embedded files (\<open>None\<close>: no such file) and the text template engine (\<open>None\<close>: an error) are
  parameters; \<open>'d\<close> is the desired state of a protection.
\<close>

record 'd assets =
  asset_file :: "string \<Rightarrow> string option"
  render :: "string \<Rightarrow> 'd \<Rightarrow> string option"

definition readAssetAsString :: "'d assets \<Rightarrow> string \<Rightarrow> string" where
  "readAssetAsString a assetName = (case asset_file a assetName of None \<Rightarrow> [] | Some d \<Rightarrow> d)"

definition BlockPage :: "'d assets \<Rightarrow> string" where
  "BlockPage a = readAssetAsString a ''block.html''"

text \<open>Parsing and executing the template in one function; an error gives nil, an empty body.\<close>

definition RecaptchaPage :: "'d assets \<Rightarrow> 'd \<Rightarrow> string" where
  "RecaptchaPage a d = (case render a (readAssetAsString a ''recaptcha.html'') d of None \<Rightarrow> [] | Some s \<Rightarrow> s)"

section \<open>Interventions\<close>

record ImmediateResponse =
  Status :: cint
  SetHeaders :: "(string \<times> string) list"
  Body :: string

definition InterventionContextKey :: string where
  "InterventionContextKey = ''sys?''"

text \<open>The header that asks for credentials, and the body of a header check.\<close>

definition basic_auth_header :: "string \<times> string" where
  "basic_auth_header = (''WWW-Authenticate'', ''Basic realm='' @ [CHR 0x22] @ ''Restricted Area'' @ [CHR 0x22])"

definition json_pair :: "string \<Rightarrow> string \<Rightarrow> string" where
  "json_pair k v = ''{'' @ [CHR 0x22] @ k @ [CHR 0x22] @ '':'' @ [CHR 0x22] @ v @ [CHR 0x22] @ ''}''"

text \<open>The body that the parameter \<open>action\<close> selects.\<close>

definition action_body ::
    "'w libwafie \<Rightarrow> (uint32 \<rightharpoonup> 'd) \<Rightarrow> 'd assets \<Rightarrow> (string \<times> string) list \<Rightarrow> WafieEvaluationRequest \<Rightarrow> c_heap \<Rightarrow> 'w
      \<Rightarrow> (string \<times> c_heap \<times> 'w) res" where
  "action_body lib protectionCache a params ev h w =
     (let action = values_get params ''action'' in
      if action = ''block'' then Inr (BlockPage a, h, w)
      else if action = ''recaptcha'' then
        (case protectionCache (protection_id ev) of
           Some desired \<Rightarrow> Inr (RecaptchaPage a desired, h, w)
         | None \<Rightarrow> Inr (BlockPage a, h, w))
      else if action = ''recaptchaSuccess'' then Inr (json_pair ''result'' ''success'', h, w)
      else if action = ''recaptchaError'' then Inr (json_pair ''result'' ''error'', h, w)
      else if action = ''headerCheck'' then
        (let (headerName, h) = CString (values_get params ''headerName'') h;
             (p, h, w) = wafie_get_header lib ev headerName h w
         in bind_res (GoString p h) (\<lambda>hVal.
              bind_res (delete_obj h headerName) (\<lambda>h.
                Inr (json_pair (values_get params ''headerName'') hVal, h, w))))
      else Inr (BlockPage a, h, w))"

definition with_status :: "(string \<times> string) list \<Rightarrow> ImmediateResponse \<Rightarrow> ImmediateResponse" where
  "with_status params r = (if values_get params ''status'' \<noteq> []
     then r\<lparr>Status := ucast (fst (atoi (values_get params ''status'')))\<rparr> else r)"

definition with_basic_auth :: "(string \<times> string) list \<Rightarrow> ImmediateResponse \<Rightarrow> ImmediateResponse" where
  "with_basic_auth params r = (if values_get params ''basicAuthHeader'' \<noteq> []
     then r\<lparr>SetHeaders := SetHeaders r @ [basic_auth_header]\<rparr> else r)"

definition EnrichWithInterventionContext ::
    "'w libwafie \<Rightarrow> (uint32 \<rightharpoonup> 'd) \<Rightarrow> 'd assets \<Rightarrow> WafieEvaluationRequest \<Rightarrow> ImmediateResponse \<Rightarrow> c_heap \<Rightarrow> 'w
      \<Rightarrow> (ImmediateResponse \<times> c_heap \<times> 'w) res" where
  "EnrichWithInterventionContext lib protectionCache a ev r h w =
     (if intervention_url ev = None then Inr (r, h, w)
      else bind_res (GoString (intervention_url ev) h) (\<lambda>interventionURL.
        if has_prefix interventionURL InterventionContextKey then
          (case parse_query (replace_all interventionURL InterventionContextKey []) of
             None \<Rightarrow> Inr (r, h, w)
           | Some params \<Rightarrow>
               bind_res (action_body lib protectionCache a params ev h w) (\<lambda>(body, h, w).
                 Inr ((with_status params (with_basic_auth params r))\<lparr>Body := body\<rparr>, h, w)))
        else Inr (r, h, w)))"

section \<open>What the C side sees\<close>

text \<open>A C header struct that holds a header of Envoy.\<close>

definition holds_header :: "c_heap \<Rightarrow> WafieEvaluationRequestHeader \<Rightarrow> HeaderValue \<Rightarrow> bool" where
  "holds_header h e hdr \<longleftrightarrow> (\<exists>k v. e = \<lparr>hdr_key = Some k, hdr_value = Some v\<rparr>
     \<and> GoString (Some k) h = Inr (c_str (Key hdr)) \<and> GoString (Some v) h = Inr (c_str (header_value hdr)))"

lemma put_headers_pairs:
  "put_headers arr idx hdrs h = put_pairs arr idx (map (\<lambda>hdr. (Key hdr, header_value hdr)) hdrs) h"
  by (induction hdrs arbitrary: idx h) (auto simp: put_header_def put_pair_def bind_res_def split: sum.split)

lemma fill_headers_spec:
  assumes "store_ok h" and "malloc_headers (length hdrs) h = (arr, h1)"
  shows "\<exists>h' new. put_headers arr 0 hdrs h1 = Inr h' \<and> store_ok h'
    \<and> read_obj h' arr = Inr (C_Headers new) \<and> list_all2 (holds_header h') new hdrs \<and> keeps h h'"
proof -
  from fill_pairs_spec [OF assms(1), of "map (\<lambda>hdr. (Key hdr, header_value hdr)) hdrs" arr h1] assms(2)
  obtain h' ks where h': "put_headers arr 0 hdrs h1 = Inr h'" "store_ok h'" "keeps h h'"
      "read_obj h' arr = Inr (C_Headers (map hdr_at ks))"
      "list_all2 (holds_pair h') ks (map (\<lambda>hdr. (Key hdr, header_value hdr)) hdrs)"
    by (auto simp: put_headers_pairs)
  have "list_all2 (holds_header h') (map hdr_at ks) hdrs"
    using h'(5) by (auto simp: list_all2_conv_all_nth holds_pair_def holds_header_def hdr_at_def)
  with h' show ?thesis by blast
qed

lemma build_request_spec:
  assumes "store_ok h"
  shows "\<exists>ev h' arr new. build_request attr hdrs pid h = Inr (ev, h') \<and> store_ok h' \<and> keeps h h'
    \<and> GoString (client_ip ev) h' = Inr (c_str (SourceAddress attr))
    \<and> GoString (uri ev) h' = Inr (c_str (RequestPath attr))
    \<and> GoString (http_method ev) h' = Inr (c_str (RequestMethod attr))
    \<and> GoString (http_version ev) h' = Inr (c_str (getHttpProtocolVersion (RequestProtocol attr)))
    \<and> GoString (protocol ev) h' = Inr (c_str (RequestProtocol attr))
    \<and> protection_id ev = pid \<and> request_headers_count ev = word_of_nat (length hdrs + 1)
    \<and> request_headers ev = Some arr \<and> read_obj h' arr = Inr (C_Headers new)
    \<and> list_all2 (holds_header h') new (hdrs @ [host_header hdrs])"
proof -
  let ?hdrs = "hdrs @ [host_header hdrs]"
  obtain ip h1 where 1: "CString (SourceAddress attr) h = (ip, h1)" by fastforce
  note l1 = CString_keeps [OF assms 1]
  obtain u h2 where 2: "CString (RequestPath attr) h1 = (u, h2)" by fastforce
  note l2 = CString_keeps [OF l1 [THEN conjunct1] 2]
  obtain m h3 where 3: "CString (RequestMethod attr) h2 = (m, h3)" by fastforce
  note l3 = CString_keeps [OF l2 [THEN conjunct1] 3]
  obtain v h4 where 4: "CString (getHttpProtocolVersion (RequestProtocol attr)) h3 = (v, h4)" by fastforce
  note l4 = CString_keeps [OF l3 [THEN conjunct1] 4]
  obtain p h5 where 5: "CString (RequestProtocol attr) h4 = (p, h5)" by fastforce
  note l5 = CString_keeps [OF l4 [THEN conjunct1] 5]
  obtain arr h6 where 6: "malloc_headers (length ?hdrs) h5 = (arr, h6)" by fastforce
  from fill_headers_spec [OF l5 [THEN conjunct1] 6] obtain h' new where
    7: "put_headers arr 0 ?hdrs h6 = Inr h'" "store_ok h'" "read_obj h' arr = Inr (C_Headers new)"
      "list_all2 (holds_header h') new ?hdrs" "keeps h5 h'"
    by blast
  have k: "keeps h4 h'" "keeps h3 h'" "keeps h2 h'" "keeps h1 h'" "keeps h h'"
    using 7(5) l5 l4 l3 l2 l1 keeps_trans by meson+
  have r: "read_obj h' ip = Inr (C_String (SourceAddress attr))" "read_obj h' u = Inr (C_String (RequestPath attr))"
      "read_obj h' m = Inr (C_String (RequestMethod attr))"
      "read_obj h' v = Inr (C_String (getHttpProtocolVersion (RequestProtocol attr)))"
      "read_obj h' p = Inr (C_String (RequestProtocol attr))"
    using keeps_read k 7(5) l1 l2 l3 l4 l5 by blast+
  show ?thesis
    using 1 2 3 4 5 6 7 k r by (simp add: build_request_def zero_request_def)
qed

section \<open>Properties\<close>

text \<open>
  C19: The request struct that \<open>InitEvalRequest\<close> hands to the library.  No step of its construction
  faults, whatever the attributes and headers are; the C strings hold the source address, path,
  method, version and protocol, the header array has one element for each header of Envoy and a final
  \<open>host\<close> header with the value of \<open>:authority\<close>, each with the \<open>Value\<close> of the header or, if that is
  empty, its \<open>RawValue\<close>, the count is the number of elements, and no other C object changes.  (C sees a
  string up to its first NUL.)
\<close>

theorem request_struct_holds_the_request:
  assumes "store_ok h" and "length hdrs + 1 < 2 ^ 64"
  shows "\<exists>ev h' arr new. build_request attr hdrs pid h = Inr (ev, h') \<and> store_ok h' \<and> keeps h h'
    \<and> GoString (client_ip ev) h' = Inr (c_str (SourceAddress attr))
    \<and> GoString (uri ev) h' = Inr (c_str (RequestPath attr))
    \<and> GoString (http_method ev) h' = Inr (c_str (RequestMethod attr))
    \<and> GoString (http_version ev) h' = Inr (c_str (getHttpProtocolVersion (RequestProtocol attr)))
    \<and> GoString (protocol ev) h' = Inr (c_str (RequestProtocol attr))
    \<and> protection_id ev = pid \<and> unat (request_headers_count ev) = length hdrs + 1
    \<and> request_headers ev = Some arr \<and> read_obj h' arr = Inr (C_Headers new)
    \<and> list_all2 (holds_header h') new (hdrs @ [host_header hdrs])"
proof -
  have "unat (word_of_nat (length hdrs + 1) :: size_t) = length hdrs + 1"
    using assms(2) by (simp add: unat_of_nat del: of_nat_Suc of_nat_add)
  with build_request_spec [OF assms(1), of attr hdrs pid] show ?thesis by metis
qed

definition sample_headers :: "HeaderValue list" where
  "sample_headers = [\<lparr>Key = '':authority'', Value = [], RawValue = ''shop.example''\<rparr>,
     \<lparr>Key = ''accept'', Value = ''*/*'', RawValue = []\<rparr>]"

theorem request_struct_holds_the_request_witness:
  "\<exists>ev h'. build_request Map.empty sample_headers 7 empty_store = Inr (ev, h')
     \<and> unat (request_headers_count ev) = 3 \<and> protection_id ev = 7"
  using request_struct_holds_the_request [of empty_store sample_headers Map.empty 7]
  by (auto simp: sample_headers_def)

lemma status_of_filter: "status_of code hdrs = status_of code (filter (\<lambda>hdr. Key hdr = '':status'') hdrs)"
  unfolding status_of_def by (induction hdrs arbitrary: code) simp_all

lemma status_of_unique:
  assumes "filter (\<lambda>hdr. Key hdr = '':status'') hdrs = [s]" and "RawValue s = dec_nat n" and "n < 2 ^ 32"
  shows "unat (status_of code hdrs) = n"
proof -
  have "s \<in> set (filter (\<lambda>hdr. Key hdr = '':status'') hdrs)" by (simp add: assms(1))
  then have "Key s = '':status''" by simp
  then have "status_of code hdrs = word_of_nat n"
    using assms by (subst status_of_filter) (simp add: status_of_def sscanf_uint32_dec_nat)
  then show ?thesis using assms(3) by (simp add: unat_of_nat)
qed

text \<open>
  \<open>SetResponseHeaders\<close> on a request: the C array holds the response headers in order, the count is
  their number, and a single \<open>:status\<close> header with a decimal code sets the response code to it.  The
  other members of the request and the other C objects stay as they are.  Without a request (a nil
  pointer) it panics.
\<close>

theorem response_headers_are_set:
  assumes "store_ok h" and "length hdrs < 2 ^ 64"
    and "filter (\<lambda>hdr. Key hdr = '':status'') hdrs = [s]" and "RawValue s = dec_nat n" and "n < 2 ^ 32"
  shows "(\<exists>h' arr new count code. SetResponseHeaders hdrs (Some ev) h = Inr (ev\<lparr>response_headers_count := count,
        response_headers_ptr := Some arr, response_code := code\<rparr>, h')
      \<and> store_ok h' \<and> keeps h h' \<and> unat count = length hdrs \<and> unat code = n
      \<and> read_obj h' arr = Inr (C_Headers new) \<and> list_all2 (holds_header h') new hdrs)
    \<and> SetResponseHeaders hdrs None h = Inl Null_Dereference"
proof -
  obtain arr h1 where 1: "malloc_headers (length hdrs) h = (arr, h1)" by fastforce
  from fill_headers_spec [OF assms(1) 1] obtain h' new where
    2: "put_headers arr 0 hdrs h1 = Inr h'" "store_ok h'" "read_obj h' arr = Inr (C_Headers new)"
      "list_all2 (holds_header h') new hdrs" "keeps h h'"
    by blast
  have "unat (word_of_nat (length hdrs) :: size_t) = length hdrs" using assms(2) by (simp add: unat_of_nat)
  with 1 2 status_of_unique [OF assms(3-5)] show ?thesis
    by (force simp: SetResponseHeaders_def)
qed

theorem response_headers_are_set_witness:
  "\<exists>h' ev. SetResponseHeaders [\<lparr>Key = '':status'', Value = [], RawValue = ''404''\<rparr>] (Some zero_request) empty_store = Inr (ev, h')
     \<and> unat (response_code ev) = 404"
proof -
  have d: "''404'' = dec_nat 404" by code_simp
  show ?thesis
    using response_headers_are_set [of empty_store "[\<lparr>Key = '':status'', Value = [], RawValue = dec_nat 404\<rparr>]" _ 404 zero_request]
    unfolding d by fastforce
qed

section \<open>Responses to interventions\<close>

lemma GoString_plain: "read_obj h u = Inr (C_String s) \<Longrightarrow> NUL \<notin> set s \<Longrightarrow> GoString (Some u) h = Inr s"
  by (simp add: c_str_id)

definition url_text :: "string \<Rightarrow> bool" where
  "url_text s \<longleftrightarrow> plain_text s \<and> CHR ''?'' \<notin> set s \<and> NUL \<notin> set s"

lemma enrich_params:
  assumes "intervention_url ev = Some u" and "read_obj h u = Inr (C_String (''sys?'' @ query_of params))"
    and "\<forall>(k, v) \<in> set params. url_text k \<and> url_text v"
  shows "EnrichWithInterventionContext lib cache a ev r h w =
    bind_res (action_body lib cache a params ev h w) (\<lambda>(body, h, w).
      Inr ((with_status params (with_basic_auth params r))\<lparr>Body := body\<rparr>, h, w))"
proof -
  have q: "set (query_of params) \<subseteq> insert (CHR ''&'') (insert (CHR ''='') (\<Union>(k, v) \<in> set params. set k \<union> set v))"
    using set_join_char [of "CHR ''&''" "map (\<lambda>(k, v). k @ CHR ''='' # v) params"]
    by (fastforce simp: query_of_def)
  have "NUL \<notin> set (''sys?'' @ query_of params)" "CHR ''?'' \<notin> set (query_of params)"
    using q assms(3) by (auto simp: url_text_def NUL_def)
  moreover have "parse_query (query_of params) = Some params"
    using assms(3) by (intro parse_query_plain) (auto simp: url_text_def)
  ultimately show ?thesis
    using assms(1,2) GoString_plain [OF assms(2)] replace_all_prefix [of "''sys?''" "query_of params" "[]"]
      replace_all_absent [of "CHR ''?''" "''sys?''" "query_of params" "[]"] has_prefix_append [of "''sys?''" "query_of params"]
    by (simp add: EnrichWithInterventionContext_def InterventionContextKey_def del: append_Cons)
qed

text \<open>
  The response to an intervention whose URL is \<open>sys?\<close> with parameters that need no escaping.  The
  parameter \<open>status\<close>, a decimal number, becomes the status; \<open>basicAuthHeader\<close> adds the header that asks
  for credentials; \<open>recaptcha\<close> gives the rendered page if the protection is known; without an action
  or with one that is not defined the body is the block page.
\<close>

theorem intervention_parameters_select_the_response:
  assumes "intervention_url ev = Some u" and "read_obj h u = Inr (C_String (''sys?'' @ query_of params))"
    and "\<forall>(k, v) \<in> set params. url_text k \<and> url_text v"
    and "values_get params ''status'' = dec_nat code" and "code < 2 ^ 31"
    and "values_get params ''action'' \<notin> {''recaptchaSuccess'', ''recaptchaError'', ''headerCheck''}"
  shows "EnrichWithInterventionContext lib cache a ev r h w =
    Inr (\<lparr>Status = word_of_nat code,
          SetHeaders = SetHeaders r @ (if values_get params ''basicAuthHeader'' = [] then [] else [basic_auth_header]),
          Body = (if values_get params ''action'' = ''recaptcha'' \<and> cache (protection_id ev) \<noteq> None
                  then RecaptchaPage a (the (cache (protection_id ev))) else BlockPage a)\<rparr>, h, w)
    \<and> sint (word_of_nat code :: cint) = int code"
proof -
  have "ucast (word_of_nat code :: int64) = (word_of_nat code :: cint)"
    using assms(5) by (simp add: unsigned_of_nat take_bit_nat_eq_self)
  moreover have "atoi (dec_nat code) = (word_of_nat code, False)" using assms(5) by (intro atoi_dec_nat) simp
  ultimately have st: "with_status params r' = r'\<lparr>Status := word_of_nat code\<rparr>" for r'
    using assms(4) by (simp add: with_status_def)
  have body: "action_body lib cache a params ev h w =
      Inr (if values_get params ''action'' = ''recaptcha'' \<and> cache (protection_id ev) \<noteq> None
           then RecaptchaPage a (the (cache (protection_id ev))) else BlockPage a, h, w)"
    using assms(6) by (auto simp: action_body_def Let_def split: option.splits)
  have "sint (word_of_nat code :: cint) = int code"
    using assms(5) by (simp add: signed_of_nat signed_take_bit_int_eq_self)
  then show ?thesis
    unfolding enrich_params [OF assms(1-3)] body st by (cases r) (simp add: with_basic_auth_def)
qed

definition sample_params :: "(string \<times> string) list" where
  "sample_params = [(''basicAuthHeader'', ''true''), (''status'', dec_nat 401)]"

definition sample_url_heap :: c_heap where
  "sample_url_heap = snd (new_obj empty_store (C_String (''sys?'' @ query_of sample_params)))"

definition sample_blocked :: WafieEvaluationRequest where
  "sample_blocked = zero_request\<lparr>intervention_url := Some 0\<rparr>"

lemma url_text_dec_nat: "url_text (dec_nat n)"
  using dec_nat_chars [of _ n] by (fastforce simp: url_text_def plain_text_def NUL_def)

theorem intervention_parameters_select_the_response_witness:
  "\<forall>lib cache a w. EnrichWithInterventionContext lib cache a sample_blocked \<lparr>Status = 403, SetHeaders = [], Body = []\<rparr> sample_url_heap w
    = Inr (\<lparr>Status = 401, SetHeaders = [basic_auth_header], Body = BlockPage a\<rparr>, sample_url_heap, w)"
proof -
  have u: "intervention_url sample_blocked = Some 0" by (simp add: sample_blocked_def)
  have m: "read_obj sample_url_heap 0 = Inr (C_String (''sys?'' @ query_of sample_params))"
    by (simp add: sample_url_heap_def new_obj_def read_obj_def empty_store_def)
  have p: "\<forall>(k, v) \<in> set sample_params. url_text k \<and> url_text v"
    using url_text_dec_nat [of 401] by (simp add: sample_params_def url_text_def plain_text_def NUL_def)
  have v: "values_get sample_params ''status'' = dec_nat 401" "values_get sample_params ''action'' = []"
      "values_get sample_params ''basicAuthHeader'' = ''true''"
    by (simp_all add: sample_params_def values_get_def)
  show ?thesis
    by (intro allI, subst intervention_parameters_select_the_response [OF u m p v(1), THEN conjunct1])
      (simp_all add: v(2,3))
qed

text \<open>
  A \<open>status\<close> parameter that is not a number is not ignored: the error is logged, but the status of
  the response becomes 0 instead of the 403 that the response had before.
\<close>

theorem malformed_status_replaces_the_default:
  assumes "intervention_url ev = Some u" and "read_obj h u = Inr (C_String (''sys?'' @ query_of params))"
    and "\<forall>(k, v) \<in> set params. url_text k \<and> url_text v"
    and "values_get params ''status'' = c # cs" and "digit_val c = None" and "c \<notin> {CHR ''-'', CHR ''+''}"
    and "values_get params ''action'' = ''block''"
  shows "\<exists>r'. EnrichWithInterventionContext lib cache a ev r h w = Inr (r', h, w) \<and> Status r' = 0"
proof -
  have "atoi (c # cs) = (0, True)"
    using assms(5,6) by (simp add: atoi_def dec_val_def)
  then have "with_status params r' = r'\<lparr>Status := 0\<rparr>" for r'
    using assms(4) by (simp add: with_status_def)
  then show ?thesis
    unfolding enrich_params [OF assms(1-3)] using assms(7) by (simp add: action_body_def)
qed

definition sample_bad_params :: "(string \<times> string) list" where
  "sample_bad_params = [(''status'', ''none''), (''action'', ''block'')]"

definition sample_bad_heap :: c_heap where
  "sample_bad_heap = snd (new_obj empty_store (C_String (''sys?'' @ query_of sample_bad_params)))"

theorem malformed_status_replaces_the_default_witness:
  "\<forall>lib cache a r w. \<exists>r'. EnrichWithInterventionContext lib cache a sample_blocked r sample_bad_heap w
      = Inr (r', sample_bad_heap, w) \<and> Status r' = 0"
proof -
  have u: "intervention_url sample_blocked = Some 0" by (simp add: sample_blocked_def)
  have m: "read_obj sample_bad_heap 0 = Inr (C_String (''sys?'' @ query_of sample_bad_params))"
    by (simp add: sample_bad_heap_def new_obj_def read_obj_def empty_store_def)
  have p: "\<forall>(k, v) \<in> set sample_bad_params. url_text k \<and> url_text v"
    by (simp add: sample_bad_params_def url_text_def plain_text_def NUL_def)
  show ?thesis
    by (intro allI malformed_status_replaces_the_default [OF u m p, of "CHR ''n''" "''one''"])
      (simp_all add: sample_bad_params_def values_get_def digit_val_def)
qed

end
