(* ===== verification/Xproc_Watcher.thy ===== *)
theory Xproc_Watcher
  imports Xproc_ModSec
begin

text \<open>
  A model of the rule-set watcher and of the audit log rotation in \<^verbatim>\<open>xproc/pkg/modsec/modsec.go\<close>: every
  three seconds the protections are listed, the rule sets of each are fetched and written to disk
  under \<^verbatim>\<open>/rules/<protection id>/<md5>\<close> unless that directory has entries, and the library is made to
  load all directories if one was written or if this is the first round; then other directories of
  the same protections are removed.  The API server, the file system and the MD5 function are
  parameters (a record of operations over a state \<open>'fs\<close>, each of which may fail), as is the order in
  which a Go map is iterated.  The lemmas show what is written, that a clean-up keeps the active
  directories, and when the library is not made to load anything.
\<close>

section \<open>Environment\<close>

record CrsRuleSet =
  CrsFileName :: string
  CrsFileContent :: string
  Md5 :: string

record 'd Protection =
  CrsVersions :: "CrsRuleSet list list"
  DesiredState :: 'd

text \<open>The answers of the API server during one round; \<open>None\<close> is an error.\<close>

record 'd api_view =
  ListProtections :: "uint32 list option"
  GetProtection :: "uint32 \<Rightarrow> 'd Protection option"

datatype stat_result = Stat_Ok nat | Stat_Not_Exist | Stat_Error string

record 'fs os =
  os_Stat :: "string \<Rightarrow> 'fs \<Rightarrow> stat_result"
  os_ReadDir :: "string \<Rightarrow> 'fs \<Rightarrow> string + string list"
  os_MkdirAll :: "string \<Rightarrow> 'fs \<Rightarrow> string option \<times> 'fs"
  os_WriteFile :: "string \<Rightarrow> string \<Rightarrow> 'fs \<Rightarrow> string option \<times> 'fs"
  os_RemoveAll :: "string \<Rightarrow> 'fs \<Rightarrow> string option \<times> 'fs"
  os_Truncate :: "string \<Rightarrow> nat \<Rightarrow> 'fs \<Rightarrow> string option \<times> 'fs"

text \<open>The fixed environment: library, operating system, MD5 in hexadecimal, map iteration.\<close>

record ('w, 'fs) watcher_env =
  env_lib :: "'w libwafie"
  env_os :: "'fs os"
  env_md5 :: "string \<Rightarrow> string"
  env_range :: "(string \<times> uint32) list \<Rightarrow> (string \<times> uint32) list"

text \<open>The state of the goroutine; \<open>loads\<close> records the arguments of \<open>wafie_load_rule_sets\<close>.\<close>

record ('w, 'fs, 'd) watcher =
  firstRun :: bool
  files :: 'fs
  cache :: "uint32 \<rightharpoonup> 'd Protection"
  c_memory :: c_heap
  lib :: 'w
  loads :: "(string \<times> uint32) list list"

section \<open>Directories and rule files\<close>

definition ruleSetBaseConfig :: string where
  "ruleSetBaseConfig = ''/rules''"

definition protectionBaseDir :: "uint32 \<Rightarrow> string" where
  "protectionBaseDir protectionId = ruleSetBaseConfig @ ''/'' @ dec_nat (unat protectionId)"

definition rulesDir :: "uint32 \<Rightarrow> string \<Rightarrow> string" where
  "rulesDir protectionId ruleSetMd5 = protectionBaseDir protectionId @ ''/'' @ ruleSetMd5"

definition ruleSetMD5 :: "(string \<Rightarrow> string) \<Rightarrow> CrsRuleSet list \<Rightarrow> string" where
  "ruleSetMD5 md5 ruleSets = md5 (concat (map Md5 ruleSets))"

definition shouldWrite :: "'fs os \<Rightarrow> string \<Rightarrow> 'fs \<Rightarrow> string + bool" where
  "shouldWrite os dir fs = (case os_Stat os dir fs of
       Stat_Not_Exist \<Rightarrow> Inr True
     | Stat_Error e \<Rightarrow> Inl e
     | Stat_Ok _ \<Rightarrow> (case os_ReadDir os dir fs of
           Inl e \<Rightarrow> Inl e
         | Inr entries \<Rightarrow> Inr (length entries = 0)))"

definition applyRulesPatches :: "string \<Rightarrow> string \<Rightarrow> string" where
  "applyRulesPatches crsFileContent dir = replace_all crsFileContent ''<<<WAFIEIO_XPROC_RULES_BASE_PATH>>>'' dir"

text \<open>\<open>filepath.Split\<close>: the directory part, with its final slash.\<close>

definition split_dir :: "string \<Rightarrow> string" where
  "split_dir p = rev (dropWhile (\<lambda>c. c \<noteq> CHR ''/'') (rev p))"

definition rule_file :: "string \<Rightarrow> CrsRuleSet \<Rightarrow> string" where
  "rule_file dir rules = dir @ ''/'' @ CrsFileName rules"

text \<open>The loop of \<open>writeRules\<close>: an error ends it.\<close>

fun write_files :: "'fs os \<Rightarrow> string \<Rightarrow> CrsRuleSet list \<Rightarrow> 'fs \<Rightarrow> string option \<times> 'fs" where
  "write_files os dir [] fs = (None, fs)"
| "write_files os dir (rules # rest) fs =
     (case os_MkdirAll os (split_dir (rule_file dir rules)) fs of
        (Some e, fs) \<Rightarrow> (Some e, fs)
      | (None, fs) \<Rightarrow>
          (case os_WriteFile os (rule_file dir rules) (applyRulesPatches (CrsFileContent rules) dir) fs of
             (Some e, fs) \<Rightarrow> (Some e, fs)
           | (None, fs) \<Rightarrow> write_files os dir rest fs))"

text \<open>\<open>writeRules\<close>: an error or whether a reload is required.\<close>

definition writeRules :: "'fs os \<Rightarrow> uint32 \<Rightarrow> string \<Rightarrow> CrsRuleSet list \<Rightarrow> 'fs \<Rightarrow> (string + bool) \<times> 'fs" where
  "writeRules os protectionId ruleSetMd5 ruleSets fs =
     (let dir = rulesDir protectionId ruleSetMd5 in
      case shouldWrite os dir fs of
        Inl e \<Rightarrow> (Inl e, fs)
      | Inr should \<Rightarrow>
          if \<not> should then (Inr False, fs)
          else (case write_files os dir ruleSets fs of
                  (Some e, fs) \<Rightarrow> (Inl e, fs)
                | (None, fs) \<Rightarrow> (Inr True, fs)))"

section \<open>Loading and cleaning up\<close>

text \<open>\<open>m[k] = v\<close> on a Go map, kept as a list of its entries.\<close>

definition map_set :: "(string \<times> uint32) list \<Rightarrow> string \<Rightarrow> uint32 \<Rightarrow> (string \<times> uint32) list" where
  "map_set m k v = filter (\<lambda>e. fst e \<noteq> k) m @ [(k, v)]"

fun config_structs :: "(string \<times> uint32) list \<Rightarrow> c_heap \<Rightarrow> WafieRuleSetConfig list \<times> c_heap" where
  "config_structs [] h = ([], h)"
| "config_structs ((configPath, protectionId) # rest) h =
     (let (p, h) = CString configPath h;
          (cfgs, h) = config_structs rest h
      in (\<lparr>cfg_config_path = Some p, cfg_protection_id = protectionId\<rparr> # cfgs, h))"

definition reloadCRSRules ::
    "('w, 'fs) watcher_env \<Rightarrow> (string \<times> uint32) list \<Rightarrow> ('w, 'fs, 'd) watcher \<Rightarrow> ('w, 'fs, 'd) watcher res" where
  "reloadCRSRules env ruleSetConfigForReload s =
     (if ruleSetConfigForReload = [] then Inr s
      else let entries = env_range env ruleSetConfigForReload;
               (cfgs, h) = config_structs entries (c_memory s);
               (h, w) = wafie_load_rule_sets (env_lib env) cfgs (word_of_nat (length ruleSetConfigForReload)) h (lib s)
           in bind_res (fold_res (\<lambda>h cfg. free_ptr h (cfg_config_path cfg)) h cfgs) (\<lambda>h.
                Inr (s\<lparr>c_memory := h, lib := w, loads := loads s @ [entries]\<rparr>)))"

definition remove_inactive :: "'fs os \<Rightarrow> string \<Rightarrow> string \<Rightarrow> string list \<Rightarrow> 'fs \<Rightarrow> 'fs" where
  "remove_inactive os active base entries fs =
     fold (\<lambda>entry fs. let path = base @ ''/'' @ entry
                      in if active \<noteq> path then snd (os_RemoveAll os path fs) else fs) entries fs"

definition cleanupRules :: "('w, 'fs) watcher_env \<Rightarrow> (string \<times> uint32) list \<Rightarrow> 'fs \<Rightarrow> 'fs" where
  "cleanupRules env ruleSetConfigForReload fs =
     (if ruleSetConfigForReload = [] then fs
      else fold (\<lambda>(activeProtectionPath, protectionId) fs.
             case os_ReadDir (env_os env) (protectionBaseDir protectionId) fs of
               Inl e \<Rightarrow> fs
             | Inr entries \<Rightarrow> remove_inactive (env_os env) activeProtectionPath (protectionBaseDir protectionId) entries fs)
             (env_range env ruleSetConfigForReload) fs)"

section \<open>One round of the watcher\<close>

definition listProtections :: "'d api_view \<Rightarrow> uint32 list" where
  "listProtections api = (case ListProtections api of None \<Rightarrow> [] | Some ps \<Rightarrow> ps)"

text \<open>The body of the loop over the protections; the accumulator is (reloadRequire, configuration, state).\<close>

definition update_protection ::
    "('w, 'fs) watcher_env \<Rightarrow> 'd api_view \<Rightarrow> uint32 \<Rightarrow> bool \<times> (string \<times> uint32) list \<times> ('w, 'fs, 'd) watcher
      \<Rightarrow> bool \<times> (string \<times> uint32) list \<times> ('w, 'fs, 'd) watcher" where
  "update_protection env api p acc = (case acc of (reloadRequire, config, s) \<Rightarrow>
     (case GetProtection api p of
        None \<Rightarrow> (reloadRequire, config, s)
      | Some rules \<Rightarrow>
          (let s = s\<lparr>cache := (cache s)(p \<mapsto> rules)\<rparr> in
           case CrsVersions rules of
             [ruleSets] \<Rightarrow>
               if ruleSets = [] then (reloadRequire, config, s)
               else let md5 = ruleSetMD5 (env_md5 env) ruleSets;
                        (r, fs) = writeRules (env_os env) p md5 ruleSets (files s)
                    in (if r = Inr True then True else reloadRequire,
                        map_set config (rulesDir p md5) p, s\<lparr>files := fs\<rparr>)
           | _ \<Rightarrow> (reloadRequire, config, s))))"

definition tick :: "('w, 'fs) watcher_env \<Rightarrow> 'd api_view \<Rightarrow> ('w, 'fs, 'd) watcher \<Rightarrow> ('w, 'fs, 'd) watcher res" where
  "tick env api s =
     (let (reloadRequire, config, s) = fold (update_protection env api) (listProtections api) (False, [], s)
      in if reloadRequire \<or> firstRun s
         then bind_res (reloadCRSRules env config (s\<lparr>firstRun := False\<rparr>)) (\<lambda>s.
                Inr (s\<lparr>files := cleanupRules env config (files s)\<rparr>))
         else Inr s)"

text \<open>\<open>runRulesetWatcher\<close> over the rounds so far.\<close>

definition runRulesetWatcher ::
    "('w, 'fs) watcher_env \<Rightarrow> 'd api_view list \<Rightarrow> ('w, 'fs, 'd) watcher \<Rightarrow> ('w, 'fs, 'd) watcher res" where
  "runRulesetWatcher env apis s = fold_res (\<lambda>s api. tick env api s) (s\<lparr>firstRun := True\<rparr>) apis"

section \<open>Audit log rotation\<close>

definition auditLogFile :: string where
  "auditLogFile = ''/data/audit/modsec.log''"

definition maxAuditLogSize :: nat where
  "maxAuditLogSize = 5 * 1024 * 1024"

definition rotate_audit_log :: "'fs os \<Rightarrow> 'fs \<Rightarrow> 'fs" where
  "rotate_audit_log os fs = (case os_Stat os auditLogFile fs of
       Stat_Ok n \<Rightarrow> if n \<ge> maxAuditLogSize then snd (os_Truncate os auditLogFile 0 fs) else fs
     | _ \<Rightarrow> fs)"

section \<open>A file system\<close>

text \<open>A list of files with their contents; a directory exists if a file lies below it.\<close>

type_synonym file_list = "(string \<times> string) list"

definition below :: "string \<Rightarrow> file_list \<Rightarrow> string list" where
  "below dir fs = map (\<lambda>p. drop (length dir + 1) p) (filter (\<lambda>p. has_prefix p (dir @ ''/'')) (map fst fs))"

definition file_list_os :: "file_list os" where
  "file_list_os = \<lparr>
     os_Stat = (\<lambda>p fs. case map_of fs p of Some d \<Rightarrow> Stat_Ok (length d)
        | None \<Rightarrow> if below p fs = [] then Stat_Not_Exist else Stat_Ok 0),
     os_ReadDir = (\<lambda>p fs. if below p fs = [] then Inl ''not a directory''
        else Inr (remdups (map (takeWhile (\<lambda>c. c \<noteq> CHR ''/'')) (below p fs)))),
     os_MkdirAll = (\<lambda>p fs. (None, fs)),
     os_WriteFile = (\<lambda>p d fs. (None, (p, d) # filter (\<lambda>f. fst f \<noteq> p) fs)),
     os_RemoveAll = (\<lambda>p fs. (None, filter (\<lambda>f. \<not> (fst f = p \<or> has_prefix (fst f) (p @ ''/''))) fs)),
     os_Truncate = (\<lambda>p n fs. (None, map (\<lambda>(q, d). (q, if q = p then take n d else d)) fs))\<rparr>"

section \<open>Rounds without writing\<close>

text \<open>The rule directories that a round looks at.\<close>

fun round_dir :: "(string \<Rightarrow> string) \<Rightarrow> 'd api_view \<Rightarrow> uint32 \<Rightarrow> string option" where
  "round_dir md5 api p = (case GetProtection api p of None \<Rightarrow> None
     | Some rules \<Rightarrow> (case CrsVersions rules of
          [ruleSets] \<Rightarrow> if ruleSets = [] then None else Some (rulesDir p (ruleSetMD5 md5 ruleSets))
        | _ \<Rightarrow> None))"

text \<open>All of them exist and have entries.\<close>

definition all_written :: "('w, 'fs) watcher_env \<Rightarrow> 'fs \<Rightarrow> 'd api_view \<Rightarrow> bool" where
  "all_written env fs api \<longleftrightarrow> (\<forall>p \<in> set (listProtections api). \<forall>dir.
     round_dir (env_md5 env) api p = Some dir \<longrightarrow> shouldWrite (env_os env) dir fs = Inr False)"

lemma update_protection_written:
  assumes "\<forall>dir. round_dir (env_md5 env) api p = Some dir \<longrightarrow> shouldWrite (env_os env) dir (files s) = Inr False"
    and "update_protection env api p (b, config, s) = (b', config', s')"
  shows "b' = b \<and> files s' = files s \<and> loads s' = loads s \<and> firstRun s' = firstRun s"
proof (cases "GetProtection api p")
  case None
  with assms(2) show ?thesis by (auto simp: update_protection_def)
next
  case (Some rules)
  show ?thesis
  proof (cases "\<exists>ruleSets. CrsVersions rules = [ruleSets] \<and> ruleSets \<noteq> []")
    case True
    then obtain ruleSets where "CrsVersions rules = [ruleSets]" "ruleSets \<noteq> []" by blast
    with Some assms show ?thesis by (auto simp: update_protection_def writeRules_def Let_def)
  next
    case False
    with Some assms(2) show ?thesis
      by (auto simp: update_protection_def Let_def split: list.splits)
  qed
qed

lemma update_all_written:
  assumes "\<forall>p \<in> set ps. \<forall>dir. round_dir (env_md5 env) api p = Some dir \<longrightarrow>
      shouldWrite (env_os env) dir (files s) = Inr False"
    and "fold (update_protection env api) ps (b, config, s) = (b', config', s')"
  shows "b' = b \<and> files s' = files s \<and> loads s' = loads s \<and> firstRun s' = firstRun s"
  using assms
proof (induction ps arbitrary: b config s)
  case (Cons p ps)
  obtain b1 config1 s1 where 1: "update_protection env api p (b, config, s) = (b1, config1, s1)" by (metis prod_cases3)
  with Cons.prems(1) have 2: "b1 = b \<and> files s1 = files s \<and> loads s1 = loads s \<and> firstRun s1 = firstRun s"
    by (intro update_protection_written [OF _ 1]) auto
  with Cons.prems 1 Cons.IH [of s1 b1 config1] show ?case by auto
qed simp

lemma tick_written:
  assumes "all_written env (files s) api" and "\<not> firstRun s"
  shows "\<exists>s'. tick env api s = Inr s' \<and> files s' = files s \<and> loads s' = loads s \<and> \<not> firstRun s'"
proof -
  obtain b config s1 where 1: "fold (update_protection env api) (listProtections api) (False, [], s) = (b, config, s1)"
    by (metis prod_cases3)
  from update_all_written [OF _ 1] assms(1) have "\<not> b \<and> files s1 = files s \<and> loads s1 = loads s \<and> firstRun s1 = firstRun s"
    by (auto simp: all_written_def)
  with 1 assms(2) show ?thesis by (simp add: tick_def)
qed

lemma ticks_written:
  assumes "\<forall>api \<in> set apis. all_written env (files s) api" and "\<not> firstRun s"
  shows "\<exists>s'. fold_res (\<lambda>s api. tick env api s) s apis = Inr s' \<and> files s' = files s \<and> loads s' = loads s"
  using assms
proof (induction apis arbitrary: s)
  case (Cons api apis)
  from tick_written [of env s api] Cons.prems obtain s1 where
    1: "tick env api s = Inr s1" "files s1 = files s" "loads s1 = loads s" "\<not> firstRun s1" by auto
  with Cons.IH [of s1] Cons.prems show ?case by auto
qed simp

section \<open>Properties\<close>

text \<open>
  C35: If the first round fails to list the protections (the API server is not up yet) and the rule
  directories are already on disk, the library never loads any rules: the failed round counts as the
  first one, and no later round finds anything to write.
\<close>

theorem failed_first_round_prevents_loading:
  assumes "ListProtections api0 = None" and "\<forall>api \<in> set apis. all_written env (files s) api"
  shows "\<exists>s'. runRulesetWatcher env (api0 # apis) s = Inr s' \<and> loads s' = loads s \<and> files s' = files s"
proof -
  let ?s = "s\<lparr>firstRun := False\<rparr>"
  have "tick env api0 (s\<lparr>firstRun := True\<rparr>) = Inr ?s"
    using assms(1) by (simp add: tick_def listProtections_def reloadCRSRules_def cleanupRules_def)
  with ticks_written [of apis env ?s] assms(2) show ?thesis by (auto simp: runRulesetWatcher_def)
qed

definition sample_env :: "(unit, file_list) watcher_env" where
  "sample_env = \<lparr>env_lib = \<lparr>wafie_init = id, wafie_init_transaction = (\<lambda>ev h w. (ev, h, w)),
       wafie_cleanup = (\<lambda>ev h w. (ev, h, w)), wafie_load_rule_sets = (\<lambda>cfg n h w. (h, w)),
       wafie_process_request_headers = (\<lambda>ev h w. (0, ev, h, w)), wafie_process_request_body = (\<lambda>ev h w. (0, ev, h, w)),
       wafie_process_response_headers = (\<lambda>ev h w. (0, ev, h, w)), wafie_process_response_body = (\<lambda>ev h w. (0, ev, h, w)),
       wafie_get_header = (\<lambda>ev a h w. (None, h, w))\<rparr>,
     env_os = file_list_os, env_md5 = id, env_range = id\<rparr>"

definition sample_rules :: "CrsRuleSet list" where
  "sample_rules = [\<lparr>CrsFileName = ''crs.conf'', CrsFileContent = ''Include <<<WAFIEIO_XPROC_RULES_BASE_PATH>>>/x'',
     Md5 = ''d4''\<rparr>]"

definition sample_api :: "unit api_view" where
  "sample_api = \<lparr>ListProtections = Some [7],
     GetProtection = (\<lambda>p. Some \<lparr>CrsVersions = [sample_rules], DesiredState = ()\<rparr>)\<rparr>"

definition sample_watcher :: "file_list \<Rightarrow> (unit, file_list, unit) watcher" where
  "sample_watcher fs = \<lparr>firstRun = True, files = fs, cache = Map.empty, c_memory = empty_store, lib = (), loads = []\<rparr>"

theorem failed_first_round_prevents_loading_witness:
  "\<exists>s'. runRulesetWatcher sample_env [sample_api\<lparr>ListProtections := None\<rparr>, sample_api, sample_api]
      (sample_watcher [(''/rules/7/d4/crs.conf'', ''SecRuleEngine On'')]) = Inr s' \<and> loads s' = []"
proof -
  let ?fs = "[(''/rules/7/d4/crs.conf'', ''SecRuleEngine On'')] :: file_list"
  have "shouldWrite file_list_os (rulesDir 7 ''d4'') ?fs = Inr False" by code_simp
  then have w: "all_written sample_env ?fs sample_api"
    by (simp add: all_written_def sample_env_def sample_api_def sample_rules_def listProtections_def ruleSetMD5_def)
  show ?thesis
    using failed_first_round_prevents_loading
      [of "sample_api\<lparr>ListProtections := None\<rparr>" "[sample_api, sample_api]" sample_env "sample_watcher ?fs"] w
    by (auto simp: sample_watcher_def)
qed

text \<open>
  A rule directory with entries is final: as long as the rule directories of the protections have
  entries, later rounds write nothing and load nothing, whatever the files contain.  (So a directory
  that a failed round left incomplete is never completed.)
\<close>

theorem directories_with_entries_are_final:
  assumes "\<not> firstRun s" and "\<forall>api \<in> set apis. all_written env (files s) api"
  shows "\<exists>s'. fold_res (\<lambda>s api. tick env api s) s apis = Inr s' \<and> files s' = files s \<and> loads s' = loads s"
  using ticks_written [OF assms(2,1)] .

text \<open>An operating system whose disk takes the first file of a rule set and then is full.\<close>

definition full_disk_os :: "file_list os" where
  "full_disk_os = file_list_os\<lparr>os_WriteFile := (\<lambda>p d fs.
     if fs = [] then os_WriteFile file_list_os p d fs else (Some ''no space left on device'', fs))\<rparr>"

definition two_files :: "CrsRuleSet list" where
  "two_files = [\<lparr>CrsFileName = ''a.conf'', CrsFileContent = ''A'', Md5 = ''1''\<rparr>,
     \<lparr>CrsFileName = ''b.conf'', CrsFileContent = ''B'', Md5 = ''2''\<rparr>]"

definition two_files_api :: "unit api_view" where
  "two_files_api = sample_api\<lparr>GetProtection := (\<lambda>p. Some \<lparr>CrsVersions = [two_files], DesiredState = ()\<rparr>)\<rparr>"

theorem directories_with_entries_are_final_witness:
  "\<exists>s'. fold_res (\<lambda>s api. tick sample_env api s)
       ((sample_watcher (snd (writeRules full_disk_os 7 ''12'' two_files [])))\<lparr>firstRun := False\<rparr>)
       [two_files_api, two_files_api] = Inr s'
     \<and> files s' = [(''/rules/7/12/a.conf'', ''A'')] \<and> loads s' = []"
proof -
  have fs: "snd (writeRules full_disk_os 7 ''12'' two_files []) = [(''/rules/7/12/a.conf'', ''A'')]" by code_simp
  have "shouldWrite file_list_os (rulesDir 7 ''12'') [(''/rules/7/12/a.conf'', ''A'')] = Inr False" by code_simp
  then have w: "all_written sample_env [(''/rules/7/12/a.conf'', ''A'')] two_files_api"
    by (simp add: all_written_def sample_env_def sample_api_def two_files_api_def two_files_def listProtections_def
        ruleSetMD5_def)
  show ?thesis
    unfolding fs
    using directories_with_entries_are_final
      [of "(sample_watcher [(''/rules/7/12/a.conf'', ''A'')])\<lparr>firstRun := False\<rparr>" "[two_files_api, two_files_api]" sample_env] w
    by (simp add: sample_watcher_def)
qed

section \<open>Written files\<close>

text \<open>
  What is relied on of the operating system: \<open>content\<close> gives the content of each file; making
  directories changes no file, a successful write changes one, a removal only files at or below its
  path, and the entries of a directory are names without a slash.
\<close>

definition os_laws :: "'fs os \<Rightarrow> ('fs \<Rightarrow> string \<rightharpoonup> string) \<Rightarrow> bool" where
  "os_laws os content \<longleftrightarrow>
     (\<forall>p fs. content (snd (os_MkdirAll os p fs)) = content fs)
     \<and> (\<forall>p d fs. fst (os_WriteFile os p d fs) = None \<longrightarrow> content (snd (os_WriteFile os p d fs)) = (content fs)(p \<mapsto> d))
     \<and> (\<forall>p fs q. \<not> (q = p \<or> has_prefix q (p @ ''/'')) \<longrightarrow> content (snd (os_RemoveAll os p fs)) q = content fs q)
     \<and> (\<forall>p fs es. os_ReadDir os p fs = Inr es \<longrightarrow> (\<forall>e \<in> set es. CHR ''/'' \<notin> set e))"

lemma os_laws_file_list: "os_laws file_list_os map_of"
proof -
  have "map_of (filter (\<lambda>f. \<not> (fst f = p \<or> has_prefix (fst f) (p @ ''/''))) fs) q = map_of fs q"
    if "\<not> (q = p \<or> has_prefix q (p @ ''/''))" for p q and fs :: file_list
    using that by (induction fs) auto
  moreover have "map_of (filter (\<lambda>f. fst f \<noteq> p) fs) q = map_of fs q" if "q \<noteq> p" for p q and fs :: file_list
    using that by (induction fs) auto
  then have "map_of ((p, d) # filter (\<lambda>f. fst f \<noteq> p) fs) = (map_of fs)(p \<mapsto> d)" for p d and fs :: file_list
    by (intro ext) simp
  ultimately show ?thesis
    by (auto simp: os_laws_def file_list_os_def simp del: map_of.simps dest: set_takeWhileD split: if_splits)
qed

lemma write_files_other:
  assumes "os_laws os content" and "write_files os dir rs fs = (None, fs')" and "q \<notin> rule_file dir ` set rs"
  shows "content fs' q = content fs q"
  using assms(2,3)
proof (induction rs arbitrary: fs)
  case (Cons r rs)
  from Cons.prems(1) obtain fs1 fs2 where
    1: "os_MkdirAll os (split_dir (rule_file dir r)) fs = (None, fs1)"
      "os_WriteFile os (rule_file dir r) (applyRulesPatches (CrsFileContent r) dir) fs1 = (None, fs2)"
      "write_files os dir rs fs2 = (None, fs')"
    by (auto split: prod.splits option.splits)
  with assms(1) have "content fs1 = content fs" "content fs2 = (content fs1)(rule_file dir r \<mapsto> applyRulesPatches (CrsFileContent r) dir)"
    unfolding os_laws_def by (metis fst_conv snd_conv)+
  with Cons.IH [OF 1(3)] Cons.prems(2) show ?case by auto
qed simp

text \<open>
  C23: When \<open>writeRules\<close> reports that a reload is required, every rule file of the set (with distinct
  names) is on disk below the rule directory, with its content in which the place holder for the base
  path is replaced by that directory.
\<close>

theorem written_rules_are_on_disk:
  assumes "os_laws os content" and "writeRules os p md5 rs fs = (Inr True, fs')"
    and "distinct (map CrsFileName rs)" and "r \<in> set rs"
  shows "content fs' (rulesDir p md5 @ ''/'' @ CrsFileName r) =
    Some (replace_all (CrsFileContent r) ''<<<WAFIEIO_XPROC_RULES_BASE_PATH>>>'' (rulesDir p md5))"
proof -
  let ?dir = "rulesDir p md5"
  have "write_files os ?dir rs fs = (None, fs')"
    using assms(2) by (auto simp: writeRules_def Let_def split: sum.splits if_splits prod.splits option.splits)
  then have "content fs' (rule_file ?dir r) = Some (applyRulesPatches (CrsFileContent r) ?dir)"
    using assms(3,4)
  proof (induction rs arbitrary: fs)
    case (Cons r' rs)
    from Cons.prems(1) obtain fs1 fs2 where
      1: "os_MkdirAll os (split_dir (rule_file ?dir r')) fs = (None, fs1)"
        "os_WriteFile os (rule_file ?dir r') (applyRulesPatches (CrsFileContent r') ?dir) fs1 = (None, fs2)"
        "write_files os ?dir rs fs2 = (None, fs')"
      by (auto split: prod.splits option.splits)
    with assms(1) have c: "content fs2 (rule_file ?dir r') = Some (applyRulesPatches (CrsFileContent r') ?dir)"
      unfolding os_laws_def by (metis fst_conv snd_conv fun_upd_same)
    show ?case
    proof (cases "r = r'")
      case True
      have "rule_file ?dir r' \<notin> rule_file ?dir ` set rs" using Cons.prems(2) by (auto simp: rule_file_def)
      with write_files_other [OF assms(1) 1(3)] c True show ?thesis by simp
    next
      case False
      with Cons.IH [OF 1(3)] Cons.prems(2,3) show ?thesis by simp
    qed
  qed simp
  then show ?thesis by (simp add: rule_file_def applyRulesPatches_def)
qed

theorem written_rules_are_on_disk_witness:
  "map_of (snd (writeRules file_list_os 7 ''d4'' sample_rules [])) ''/rules/7/d4/crs.conf'' = Some ''Include /rules/7/d4/x''"
proof -
  have w: "writeRules file_list_os 7 ''d4'' sample_rules [] = (Inr True, snd (writeRules file_list_os 7 ''d4'' sample_rules []))"
    by code_simp
  have p: "rulesDir 7 ''d4'' @ ''/'' @ ''crs.conf'' = ''/rules/7/d4/crs.conf''"
    "replace_all ''Include <<<WAFIEIO_XPROC_RULES_BASE_PATH>>>/x'' ''<<<WAFIEIO_XPROC_RULES_BASE_PATH>>>'' (rulesDir 7 ''d4'')
      = ''Include /rules/7/d4/x''"
    by code_simp+
  have "hd sample_rules \<in> set sample_rules" "distinct (map CrsFileName sample_rules)"
    "CrsFileName (hd sample_rules) = ''crs.conf''"
    "CrsFileContent (hd sample_rules) = ''Include <<<WAFIEIO_XPROC_RULES_BASE_PATH>>>/x''"
    by (simp_all add: sample_rules_def)
  then show ?thesis
    using written_rules_are_on_disk [OF os_laws_file_list w, of "hd sample_rules"] p by metis
qed

section \<open>Clean-up\<close>

lemma separator_inject:
  assumes "c \<notin> set a" and "c \<notin> set b" and "a @ c # x = b @ c # y"
  shows "a = b \<and> x = y"
proof -
  have "takeWhile (\<lambda>z. z \<noteq> c) (a @ c # x) = a" "takeWhile (\<lambda>z. z \<noteq> c) (b @ c # y) = b"
    using assms(1,2) by (auto simp: takeWhile_append)
  with assms(3) show ?thesis by simp
qed

lemma slash_notin_dec_nat: "CHR ''/'' \<notin> set (dec_nat n)"
  using dec_nat_chars [of "CHR ''/''" n] by auto

text \<open>A path below an active directory is not touched by the removal of another entry of any base directory.\<close>

lemma active_path_not_below:
  assumes "CHR ''/'' \<notin> set md5" and "CHR ''/'' \<notin> set e"
    and "q = rulesDir j md5 @ ''/'' @ f"
    and "q = protectionBaseDir i @ ''/'' @ e \<or> has_prefix q ((protectionBaseDir i @ ''/'' @ e) @ ''/'')"
  shows "i = j \<and> e = md5"
proof -
  from assms(4) obtain rest where rest: "q = protectionBaseDir i @ ''/'' @ e @ rest" "rest = [] \<or> (\<exists>z. rest = CHR ''/'' # z)"
  proof
    assume "q = protectionBaseDir i @ ''/'' @ e"
    then show ?thesis using that [of "[]"] by simp
  next
    assume "has_prefix q ((protectionBaseDir i @ ''/'' @ e) @ ''/'')"
    then have "q = ((protectionBaseDir i @ ''/'' @ e) @ ''/'') @ drop (length ((protectionBaseDir i @ ''/'' @ e) @ ''/'')) q"
      unfolding has_prefix_def by (metis append_take_drop_id)
    then show ?thesis using that by (metis append.assoc append_Cons append_Nil)
  qed
  then have "dec_nat (unat j) @ CHR ''/'' # (md5 @ CHR ''/'' # f) = dec_nat (unat i) @ CHR ''/'' # (e @ rest)"
    using assms(3) by (simp add: rulesDir_def protectionBaseDir_def ruleSetBaseConfig_def)
  from separator_inject [OF slash_notin_dec_nat slash_notin_dec_nat this]
  have ij: "i = j" and m: "md5 @ CHR ''/'' # f = e @ rest" by (auto simp: word_unat_eq_iff)
  from rest(2) show ?thesis
  proof
    assume "rest = []"
    with m have "CHR ''/'' \<in> set e" by (metis append_Nil2 in_set_conv_decomp)
    with assms(2) show ?thesis by blast
  next
    assume "\<exists>z. rest = CHR ''/'' # z"
    with m separator_inject [OF assms(1,2)] ij show ?thesis by blast
  qed
qed

lemma remove_inactive_keeps:
  assumes "os_laws os content" and "\<forall>e \<in> set es. CHR ''/'' \<notin> set e" and "CHR ''/'' \<notin> set md5"
    and "i = j \<Longrightarrow> active = rulesDir j md5"
  shows "content (remove_inactive os active (protectionBaseDir i) es fs) (rulesDir j md5 @ ''/'' @ f)
    = content fs (rulesDir j md5 @ ''/'' @ f)"
  using assms(2)
proof (induction es arbitrary: fs)
  case (Cons e es)
  let ?p = "protectionBaseDir i @ ''/'' @ e" and ?q = "rulesDir j md5 @ ''/'' @ f"
  have "content (snd (os_RemoveAll os ?p fs)) ?q = content fs ?q" if "active \<noteq> ?p"
  proof -
    have "\<not> (?q = ?p \<or> has_prefix ?q (?p @ ''/''))"
    proof
      assume "?q = ?p \<or> has_prefix ?q (?p @ ''/'')"
      then have "i = j \<and> e = md5"
        using active_path_not_below [OF assms(3) _ refl, of e j f i] Cons.prems by simp
      with that assms(4) show False by (simp add: rulesDir_def)
    qed
    with assms(1) show ?thesis unfolding os_laws_def by blast
  qed
  with Cons show ?case by (simp add: remove_inactive_def Let_def)
qed (simp add: remove_inactive_def)

text \<open>
  C21: The clean-up keeps the active rule directories: if each protection has one active directory
  (named by its MD5, which has no slash), then no file below any of them changes, in whatever order the
  map is iterated and whatever directory entries are found.
\<close>

theorem cleanup_keeps_active_rules:
  assumes "os_laws (env_os env) content" and "set (env_range env config) = set config"
    and "distinct (map snd config)"
    and "\<forall>(path, i) \<in> set config. \<exists>md5. path = rulesDir i md5 \<and> CHR ''/'' \<notin> set md5"
    and "(active, j) \<in> set config"
  shows "content (cleanupRules env config fs) (active @ ''/'' @ f) = content fs (active @ ''/'' @ f)"
proof -
  from assms(4,5) obtain md5 where md5: "active = rulesDir j md5" "CHR ''/'' \<notin> set md5" by blast
  have unique: "path = active" if "(path, j) \<in> set config" for path
    using assms(3,5) that inj_onD [of snd "set config" "(path, j)" "(active, j)"] by (simp add: distinct_map)
  have "content (fold (\<lambda>(activeProtectionPath, protectionId) fs.
      case os_ReadDir (env_os env) (protectionBaseDir protectionId) fs of
        Inl e \<Rightarrow> fs
      | Inr entries \<Rightarrow> remove_inactive (env_os env) activeProtectionPath (protectionBaseDir protectionId) entries fs)
      cs fs) (active @ ''/'' @ f) = content fs (active @ ''/'' @ f)" if "set cs \<subseteq> set config" for cs
    using that
  proof (induction cs arbitrary: fs)
    case (Cons c cs)
    obtain path i where c: "c = (path, i)" by fastforce
    show ?case
    proof (cases "os_ReadDir (env_os env) (protectionBaseDir i) fs")
      case (Inl e)
      with Cons c show ?thesis by simp
    next
      case (Inr es)
      then have "\<forall>e \<in> set es. CHR ''/'' \<notin> set e" using assms(1) unfolding os_laws_def by blast
      moreover have "i = j \<Longrightarrow> path = rulesDir j md5" using unique [of path] Cons.prems c md5(1) by auto
      ultimately have "content (remove_inactive (env_os env) path (protectionBaseDir i) es fs) (active @ ''/'' @ f)
          = content fs (active @ ''/'' @ f)"
        unfolding md5(1) by (intro remove_inactive_keeps [OF assms(1) _ md5(2)]) auto
      with Cons c Inr show ?thesis by simp
    qed
  qed simp
  then show ?thesis using assms(2) by (simp add: cleanupRules_def)
qed

theorem cleanup_keeps_active_rules_witness:
  "let fs = [(''/rules/7/d4/crs.conf'', ''new''), (''/rules/7/a1/crs.conf'', ''old'')]
   in map_of (cleanupRules sample_env [(''/rules/7/d4'', 7)] fs) ''/rules/7/d4/crs.conf'' = Some ''new''
     \<and> map_of (cleanupRules sample_env [(''/rules/7/d4'', 7)] fs) ''/rules/7/a1/crs.conf'' = None"
proof -
  let ?fs = "[(''/rules/7/d4/crs.conf'', ''new''), (''/rules/7/a1/crs.conf'', ''old'')] :: file_list"
  have e: "os_laws (env_os sample_env) map_of" "set (env_range sample_env [(''/rules/7/d4'', 7)]) = {(''/rules/7/d4'', 7)}"
    using os_laws_file_list by (simp_all add: sample_env_def)
  have d: "''/rules/7/d4'' = rulesDir 7 ''d4''" by code_simp
  then have "\<exists>md5. ''/rules/7/d4'' = rulesDir 7 md5 \<and> CHR ''/'' \<notin> set md5" by (intro exI [of _ "''d4''"]) simp
  with cleanup_keeps_active_rules [OF e(1), of "[(''/rules/7/d4'', 7)]" "''/rules/7/d4''" 7 ?fs "''crs.conf''"] e(2)
  have "map_of (cleanupRules sample_env [(''/rules/7/d4'', 7)] ?fs) (''/rules/7/d4'' @ ''/'' @ ''crs.conf'')
      = map_of ?fs (''/rules/7/d4'' @ ''/'' @ ''crs.conf'')"
    by simp
  moreover have "map_of (cleanupRules sample_env [(''/rules/7/d4'', 7)] ?fs) ''/rules/7/a1/crs.conf'' = None" by code_simp
  ultimately show ?thesis by (simp add: Let_def)
qed

section \<open>Loading\<close>

lemma config_structs_spec:
  assumes "store_ok h" and "config_structs es h = (cfgs, h')"
  shows "\<exists>as. map cfg_config_path cfgs = map Some as \<and> distinct as \<and> set as \<inter> live h = {}
    \<and> live h' = live h \<union> set as \<and> store_ok h' \<and> (\<forall>b \<in> live h. read_obj h' b = read_obj h b)
    \<and> list_all2 (\<lambda>(path, i) cfg. GoString (cfg_config_path cfg) h' = Inr (c_str path) \<and> cfg_protection_id cfg = i) es cfgs"
  using assms
proof (induction es arbitrary: h cfgs h')
  case (Cons e es)
  obtain path i where e: "e = (path, i)" by fastforce
  obtain p h1 where 1: "CString path h = (p, h1)" by fastforce
  note l = CString_laws [OF Cons.prems(1) 1]
  obtain cfgs1 h2 where 2: "config_structs es h1 = (cfgs1, h2)" by fastforce
  from Cons.IH [OF l(1) 2] obtain as where
    as: "map cfg_config_path cfgs1 = map Some as" "distinct as" "set as \<inter> live h1 = {}"
      "live h2 = live h1 \<union> set as" "store_ok h2" "\<forall>b \<in> live h1. read_obj h2 b = read_obj h1 b"
      "list_all2 (\<lambda>(path, i) cfg. GoString (cfg_config_path cfg) h2 = Inr (c_str path) \<and> cfg_protection_id cfg = i) es cfgs1"
    by blast
  have c: "cfgs = \<lparr>cfg_config_path = Some p, cfg_protection_id = i\<rparr> # cfgs1" "h' = h2"
    using Cons.prems(2) e 1 2 by auto
  have "read_obj h2 p = Inr (C_String path)" using as(6) l(2,4) by auto
  then show ?case
    using as c e l by (intro exI [of _ "p # as"]) auto
qed simp

lemma free_structs:
  "map cfg_config_path cfgs = map Some as \<Longrightarrow>
   fold_res (\<lambda>h cfg. free_ptr h (cfg_config_path cfg)) h cfgs = fold_res delete_obj h as"
proof (induction cfgs arbitrary: h as)
  case (Cons cfg cfgs)
  then obtain a as' where "as = a # as'" "cfg_config_path cfg = Some a" "map cfg_config_path cfgs = map Some as'"
    by (cases as) auto
  with Cons.IH [of as'] show ?case by (simp add: free_ptr_def)
qed simp

text \<open>
  A reload hands the library one struct for each entry of the configuration, whose C string is the
  directory of the entry, and releases all of these strings afterwards: if the library leaves the C
  memory as it is, no release fails and exactly the objects of before are live.
\<close>

theorem reload_passes_the_configuration_and_releases_it:
  assumes "store_ok (c_memory s)" and "config \<noteq> []"
    and "\<forall>cfgs n h w. fst (wafie_load_rule_sets (env_lib env) cfgs n h w) = h"
  shows "\<exists>s' cfgs h. reloadCRSRules env config s = Inr s' \<and> live (c_memory s') = live (c_memory s)
    \<and> loads s' = loads s @ [env_range env config]
    \<and> lib s' = snd (wafie_load_rule_sets (env_lib env) cfgs (word_of_nat (length config)) h (lib s))
    \<and> list_all2 (\<lambda>(path, i) cfg. GoString (cfg_config_path cfg) h = Inr (c_str path) \<and> cfg_protection_id cfg = i)
        (env_range env config) cfgs"
proof -
  obtain cfgs h where c: "config_structs (env_range env config) (c_memory s) = (cfgs, h)" by fastforce
  from config_structs_spec [OF assms(1) c] obtain as where
    as: "map cfg_config_path cfgs = map Some as" "distinct as" "set as \<inter> live (c_memory s) = {}"
      "live h = live (c_memory s) \<union> set as"
      "list_all2 (\<lambda>(path, i) cfg. GoString (cfg_config_path cfg) h = Inr (c_str path) \<and> cfg_protection_id cfg = i)
         (env_range env config) cfgs"
    by blast
  obtain w where w: "wafie_load_rule_sets (env_lib env) cfgs (word_of_nat (length config)) h (lib s) = (h, w)"
    using assms(3) by (metis prod.collapse)
  from obj.dealloc_all [OF as(2), of h] as(4) obtain h2 where
    h2: "fold_res delete_obj h as = Inr h2" "live h2 = live h - set as" by auto
  have "live h2 = live (c_memory s)" using h2(2) as(3,4) by auto
  moreover have "reloadCRSRules env config s = Inr (s\<lparr>c_memory := h2, lib := w, loads := loads s @ [env_range env config]\<rparr>)"
    using assms(2) c w h2(1) free_structs [OF as(1), of h] by (simp add: reloadCRSRules_def)
  ultimately show ?thesis
    using w as(5) by (intro exI [of _ "s\<lparr>c_memory := h2, lib := w, loads := loads s @ [env_range env config]\<rparr>"]
        exI [of _ cfgs] exI [of _ h]) simp
qed

theorem reload_passes_the_configuration_and_releases_it_witness:
  "\<exists>s'. reloadCRSRules sample_env [(''/rules/7/d4'', 7)] (sample_watcher []) = Inr s' \<and> live (c_memory s') = {}
     \<and> loads s' = [[(''/rules/7/d4'', 7)]]"
  using reload_passes_the_configuration_and_releases_it [of "sample_watcher []" "[(''/rules/7/d4'', 7)]" sample_env]
  by (auto simp: sample_watcher_def sample_env_def)

end
