(* ===== verification/Seclang.thy ===== *)
theory Seclang
  imports Go_Lib
begin

text \<open>
  A model of \<^verbatim>\<open>apisrv/pkg/seclang\<close> (\<^verbatim>\<open>parser.go\<close>, \<^verbatim>\<open>types.go\<close>): the parser and the printer of
  ModSecurity rules that the API server uses when rules are imported.  A result is a panic (a slice
  with its bounds in the wrong order), a parse error, or a rule.  The lemmas show that printed rules
  are parsed back, that a parsed rule is complete, which texts make the parser panic, and that the
  list of actions behaves like a table with one entry per name.
\<close>

section \<open>types.go\<close>

record SecVariable =
  v_Name :: string
  v_Collection :: string
  v_Transformations :: "string list"

record SecOperator =
  op_Type :: string
  op_Parameter :: string
  op_Negated :: bool

record SecAction =
  act_Name :: string
  act_Parameter :: string

record SecRule =
  Variables :: "SecVariable list"
  Operator :: SecOperator
  Actions :: "SecAction list"

definition special_chars :: string where
  "special_chars = '' '' @ [CHR 0x09, CHR 0x0A, CHR 0x0D] @ '',;'' @ [CHR 0x22, CHR 0x27] @ ''<>(){}[]|&$*?'' @ [CHR 0x5C] @ ''/''"

definition needsQuoting :: "string \<Rightarrow> bool" where
  "needsQuoting s \<longleftrightarrow> set s \<inter> set special_chars \<noteq> {}"

definition needsOperatorQuoting :: "string \<Rightarrow> bool" where
  "needsOperatorQuoting operator \<longleftrightarrow>
     (if has_prefix operator ''@'' then set operator \<inter> set special_chars \<noteq> {} else needsQuoting operator)"

definition Variable_String :: "SecVariable \<Rightarrow> string" where
  "Variable_String v = (if v_Collection v \<noteq> [] then v_Collection v else v_Name v)"

definition Operator_String :: "SecOperator \<Rightarrow> string" where
  "Operator_String p = (let negation = (if op_Negated p then ''!'' else []) in
     if op_Parameter p \<noteq> [] then negation @ op_Type p @ '' '' @ op_Parameter p else negation @ op_Type p)"

definition Action_String :: "SecAction \<Rightarrow> string" where
  "Action_String a = (if act_Parameter a \<noteq> [] then act_Name a @ '':'' @ act_Parameter a else act_Name a)"

definition SecRule_String :: "SecRule \<Rightarrow> string" where
  "SecRule_String sr = ''SecRule ['' @ join (map Variable_String (Variables sr)) '' '' @ ''] ''
     @ Operator_String (Operator sr) @ '' ['' @ join (map Action_String (Actions sr)) '' '' @ '']''"

definition quoted :: "string \<Rightarrow> string" where
  "quoted s = CHR 0x22 # s @ [CHR 0x22]"

definition buildOperatorString :: "SecOperator \<Rightarrow> string" where
  "buildOperatorString p = (let negation = (if op_Negated p then ''!'' else []) in
     if op_Parameter p \<noteq> [] then
       (let operatorWithParam = op_Type p @ '' '' @ op_Parameter p in
        if CHR '' '' \<in> set operatorWithParam \<or> needsQuoting operatorWithParam
        then negation @ quoted operatorWithParam else negation @ operatorWithParam)
     else if needsOperatorQuoting (op_Type p) then negation @ quoted (op_Type p)
     else negation @ op_Type p)"

definition toModSecurityString :: "SecAction \<Rightarrow> string" where
  "toModSecurityString a =
     (if act_Parameter a \<noteq> [] then
        (let escapedParam = replace_all (act_Parameter a) [CHR 0x27] [CHR 0x5C, CHR 0x27] in
         if needsQuoting (act_Parameter a) then act_Name a @ '':'' @ [CHR 0x27] @ escapedParam @ [CHR 0x27]
         else act_Name a @ '':'' @ act_Parameter a)
      else act_Name a)"

definition ToModSecurityRule :: "SecRule \<Rightarrow> string" where
  "ToModSecurityRule sr =
     (let variablesStr = join (map Variable_String (Variables sr)) ''|'';
          operatorStr = buildOperatorString (Operator sr);
          actionsStr = (if Actions sr \<noteq> [] then quoted (join (map toModSecurityString (Actions sr)) '','') else [])
      in if actionsStr \<noteq> [] then ''SecRule '' @ variablesStr @ '' '' @ operatorStr @ '' '' @ actionsStr
         else ''SecRule '' @ variablesStr @ '' '' @ operatorStr)"

text \<open>The actions of a rule.\<close>

definition GetActions :: "SecRule \<Rightarrow> SecAction list" where
  "GetActions sr = Actions sr"

definition SetActions :: "SecAction list \<Rightarrow> SecRule \<Rightarrow> SecRule" where
  "SetActions actions sr = sr\<lparr>Actions := actions\<rparr>"

fun add_action :: "SecAction \<Rightarrow> SecAction list \<Rightarrow> SecAction list" where
  "add_action action [] = [action]"
| "add_action action (a # as) = (if act_Name a = act_Name action then action # as else a # add_action action as)"

definition AddAction :: "SecAction \<Rightarrow> SecRule \<Rightarrow> SecRule" where
  "AddAction action sr = sr\<lparr>Actions := add_action action (Actions sr)\<rparr>"

fun remove_action :: "string \<Rightarrow> SecAction list \<Rightarrow> bool \<times> SecAction list" where
  "remove_action actionName [] = (False, [])"
| "remove_action actionName (a # as) =
     (if act_Name a = actionName then (True, as)
      else let (found, as') = remove_action actionName as in (found, a # as'))"

definition RemoveAction :: "string \<Rightarrow> SecRule \<Rightarrow> bool \<times> SecRule" where
  "RemoveAction actionName sr = (let (found, as) = remove_action actionName (Actions sr) in (found, sr\<lparr>Actions := as\<rparr>))"

text \<open>\<open>None\<close> stands for the empty action with \<open>false\<close>.\<close>

definition GetActionByName :: "string \<Rightarrow> SecRule \<Rightarrow> SecAction option" where
  "GetActionByName actionName sr = find (\<lambda>a. act_Name a = actionName) (Actions sr)"

definition HasAction :: "string \<Rightarrow> SecRule \<Rightarrow> bool" where
  "HasAction actionName sr \<longleftrightarrow> GetActionByName actionName sr \<noteq> None"

definition UpdateAction :: "SecAction \<Rightarrow> SecRule \<Rightarrow> SecRule" where
  "UpdateAction action sr = AddAction action sr"

section \<open>parser.go\<close>

datatype parse_error = ErrInvalidRule | ErrMissingOperator | ErrMissingVariables
  | Invalid_Rule_ID string | Missing_ID

type_synonym 'a parsed = "fault + (parse_error + 'a)"

text \<open>\<open>s[1:len(s)-1]\<close>: the bounds are in the wrong order for a single byte.\<close>

definition strip_ends :: "string \<Rightarrow> string res" where
  "strip_ends s = (if length s < 2 then Inl Slice_Bounds else Inr (butlast (tl s)))"

definition cleanLineContinations :: "string \<Rightarrow> string" where
  "cleanLineContinations ruleText =
     join (filter (\<lambda>l. l \<noteq> []) (map (\<lambda>line. let line = trim_space line in
        if has_suffix line [CHR 0x5C] then trim_space (butlast line) else line) (split_char (CHR 0x0A) ruleText))) '' ''"

text \<open>
  The loop of \<open>splitRuleIntoComponents\<close> on the rest of the text: whether it is inside quotes and the
  current part.  After a part that ends at a space, further spaces are skipped, and a quoted string
  that follows is a part of its own (it is dropped if it is not closed).
\<close>

function split_rule :: "bool \<Rightarrow> string \<Rightarrow> string \<Rightarrow> string list" where
  "split_rule inQuotes current [] = (if current \<noteq> [] then [current] else [])"
| "split_rule inQuotes current (c # cs) =
     (if c = CHR 0x22 then split_rule (\<not> inQuotes) (current @ [c]) cs
      else if c = CHR '' '' \<and> \<not> inQuotes then
        if current \<noteq> [] then
          (case dropWhile (\<lambda>x. x = CHR '' '') cs of
             [] \<Rightarrow> [current]
           | d # ds \<Rightarrow>
               if d = CHR 0x22 then
                 (case dropWhile (\<lambda>x. x \<noteq> CHR 0x22) ds of
                    [] \<Rightarrow> [current]
                  | _ # rest \<Rightarrow> current # quoted (takeWhile (\<lambda>x. x \<noteq> CHR 0x22) ds) # split_rule inQuotes [] rest)
               else current # split_rule inQuotes [] (d # ds))
        else split_rule inQuotes current cs
      else split_rule inQuotes (current @ [c]) cs)"
  by pat_completeness auto
termination
proof (relation "measure (\<lambda>(_, _, s). length s)", goal_cases)
  case (3 inQuotes current c cs d ds x rest)
  have "length (x # rest) \<le> length ds" "length (d # ds) \<le> length cs"
    using 3 by (metis length_dropWhile_le)+
  then show ?case by simp
next
  case (4 inQuotes current c cs d ds)
  have "length (d # ds) \<le> length cs" using 4 by (metis length_dropWhile_le)
  then show ?case by simp
qed auto

definition splitRuleIntoComponents :: "string \<Rightarrow> string list" where
  "splitRuleIntoComponents ruleText = split_rule False [] ruleText"

definition parse_variable :: "string \<Rightarrow> SecVariable" where
  "parse_variable varPart =
     (if CHR '':'' \<in> set varPart
      then \<lparr>v_Name = takeWhile (\<lambda>c. c \<noteq> CHR '':'') varPart, v_Collection = varPart, v_Transformations = []\<rparr>
      else \<lparr>v_Name = varPart, v_Collection = [], v_Transformations = []\<rparr>)"

definition parseVariables :: "string \<Rightarrow> parse_error + SecVariable list" where
  "parseVariables variablesStr =
     (if variablesStr = [] then Inl ErrMissingVariables
      else let variables = map parse_variable (filter (\<lambda>p. p \<noteq> []) (map trim_space (split_char (CHR ''|'') variablesStr)))
           in if variables = [] then Inl ErrMissingVariables else Inr variables)"

definition parseOperator :: "string \<Rightarrow> bool \<Rightarrow> parse_error + SecOperator" where
  "parseOperator operatorStr negated =
     (if operatorStr = [] then Inl ErrMissingOperator
      else if has_prefix operatorStr ''@'' then
        (let (typ, param) = cut_char (CHR '' '') operatorStr
         in Inr \<lparr>op_Type = typ, op_Parameter = trim_space param, op_Negated = negated\<rparr>)
      else Inr \<lparr>op_Type = ''@rx'', op_Parameter = operatorStr, op_Negated = negated\<rparr>)"

text \<open>
  The loop of \<open>splitActions\<close> over the runes: \<open>n\<close> is the length of the text, \<open>q\<close> the quote that was opened
  last.  Nothing is added after the last rune; it is the rune at the last byte that adds the last part.
\<close>

fun split_actions :: "nat \<Rightarrow> bool \<Rightarrow> string \<Rightarrow> string \<Rightarrow> (nat \<times> string) list \<Rightarrow> string list" where
  "split_actions n inQuotes q current [] = []"
| "split_actions n inQuotes q current ((i, r) # rs) =
     (let (ps, inQuotes, q, current) =
        (if (r = [CHR 0x27] \<or> r = [CHR 0x22]) \<and> \<not> inQuotes then ([], True, r, current @ r)
         else if r = q \<and> inQuotes then ([], False, q, current @ r)
         else if r = '','' \<and> \<not> inQuotes then (if current \<noteq> [] then ([current], inQuotes, q, []) else ([], inQuotes, q, current))
         else ([], inQuotes, q, current @ r))
      in ps @ (if i = n - 1 \<and> current \<noteq> [] then [current] else []) @ split_actions n inQuotes q current rs)"

definition splitActions :: "string \<Rightarrow> string list" where
  "splitActions actionsStr = split_actions (length actionsStr) False [NUL] [] (runes 0 actionsStr)"

definition parse_action :: "string \<Rightarrow> SecAction res" where
  "parse_action actionPart =
     (if CHR '':'' \<in> set actionPart then
        (let (name, rest) = cut_char (CHR '':'') actionPart;
             parameter = trim_space rest
         in bind_res (if has_prefix parameter [CHR 0x27] \<and> has_suffix parameter [CHR 0x27]
                      then strip_ends parameter else Inr parameter)
              (\<lambda>parameter. Inr \<lparr>act_Name = trim_space name, act_Parameter = parameter\<rparr>))
      else Inr \<lparr>act_Name = actionPart, act_Parameter = []\<rparr>)"

definition parseActions :: "string \<Rightarrow> SecAction list res" where
  "parseActions actionsStr =
     fold_res (\<lambda>actions part. bind_res (parse_action part) (\<lambda>a. Inr (actions @ [a]))) []
       (filter (\<lambda>p. p \<noteq> []) (map trim_space (splitActions actionsStr)))"

definition action_patterns :: "string list" where
  "action_patterns = [''id:'', ''phase:'', ''pass'', ''log'', ''nolog'', ''deny'', ''block'', ''allow'',
     ''status:'', ''msg:'', ''tag:'', ''severity:'', ''redirect:'', ''drop'', ''chain'', ''skip:'', ''skipAfter:'', ''t:'',
     ''capture'', ''initcol:'', ''setvar:'', ''expirevar:'', ''deprecatevar:'', ''exec:'', ''sanitiseArg:'',
     ''sanitiseMatched'', ''sanitiseRequestHeader:'', ''sanitiseResponseHeader:'', ''multimatch'', ''noauditlog'',
     ''auditlog'', ''logdata:'', ''ver:'', ''maturity:'', ''accuracy:'', ''rev:'', ''ctl:'']"

definition isActionsLikePart :: "string \<Rightarrow> bool" where
  "isActionsLikePart part \<longleftrightarrow> (\<exists>pattern \<in> set action_patterns. has_prefix (to_lower part) (to_lower pattern))"

text \<open>Which parts are the operator and where the actions start, for more than three parts.\<close>

fun find_actions :: "nat \<Rightarrow> string list \<Rightarrow> nat option" where
  "find_actions i [] = None"
| "find_actions i (p # ps) = (if isActionsLikePart (trim_space p) then Some i else find_actions (i + 1) ps)"

definition operator_and_start :: "string list \<Rightarrow> string \<times> nat" where
  "operator_and_start parts =
     (if length parts > 3 then
        (let (operatorStr, start) = (case find_actions 2 (drop 2 parts) of
               Some i \<Rightarrow> (join (drop 1 (take i parts)) '' '', i)
             | None \<Rightarrow> (trim_space (parts ! 1), 2))
         in if start = 2 then (join (drop 1 (take (length parts - 1) parts)) '' '', length parts - 1)
            else (operatorStr, start))
      else (trim_space (parts ! 1), 2))"

definition unquote_part :: "string \<Rightarrow> string res" where
  "unquote_part s = (if has_prefix s [CHR 0x22] \<and> has_suffix s [CHR 0x22] then strip_ends s else Inr s)"

definition parse_actions_part :: "string list \<Rightarrow> nat \<Rightarrow> SecAction list res" where
  "parse_actions_part parts start =
     (if length parts > start
      then bind_res (unquote_part (trim_space (parts ! start))) (\<lambda>actionsStr.
             if actionsStr \<noteq> [] then parseActions actionsStr else Inr [])
      else Inr [])"

definition parseRuleComponents :: "string \<Rightarrow> SecRule parsed" where
  "parseRuleComponents ruleText =
     (let parts = splitRuleIntoComponents ruleText in
      if length parts < 2 then Inr (Inl ErrInvalidRule)
      else let variablesStr = trim_space (parts ! 0) in
      if variablesStr = [] then Inr (Inl ErrMissingVariables)
      else case parseVariables variablesStr of
        Inl e \<Rightarrow> Inr (Inl e)
      | Inr variables \<Rightarrow>
          (let (operatorStr, start) = operator_and_start parts;
               negated = has_prefix operatorStr ''!'';
               operatorStr = (if negated then trim_space (drop 1 operatorStr) else operatorStr)
           in bind_res (unquote_part operatorStr) (\<lambda>operatorStr.
                case parseOperator operatorStr negated of
                  Inl e \<Rightarrow> Inr (Inl e)
                | Inr operator \<Rightarrow>
                    bind_res (parse_actions_part parts start) (\<lambda>actions.
                      Inr (Inr \<lparr>Variables = variables, Operator = operator, Actions = actions\<rparr>)))))"

definition ParseRule :: "string \<Rightarrow> SecRule parsed" where
  "ParseRule ruleText =
     (if ruleText = [] then Inr (Inl ErrInvalidRule)
      else let ruleText = cleanLineContinations (trim_space ruleText);
               ruleText = (if has_prefix ruleText ''SecRule'' then trim_space (drop 7 ruleText) else ruleText)
           in parseRuleComponents ruleText)"

text \<open>\<open>ValidateRule\<close>; \<open>None\<close> as an argument is a nil pointer, as a result no error.\<close>

definition ValidateRule :: "SecRule option \<Rightarrow> parse_error option" where
  "ValidateRule rule = (case rule of None \<Rightarrow> Some ErrInvalidRule
     | Some rule \<Rightarrow>
         if length (Variables rule) = 0 then Some ErrMissingVariables
         else if op_Type (Operator rule) = [] then Some ErrMissingOperator
         else (case find (\<lambda>action. act_Name action = ''id'') (Actions rule) of
                 None \<Rightarrow> Some Missing_ID
               | Some action \<Rightarrow>
                   if act_Parameter action \<noteq> [] \<and> snd (atoi (act_Parameter action))
                   then Some (Invalid_Rule_ID (act_Parameter action)) else None))"

section \<open>Splitting\<close>

lemma split_rule_word:
  "\<forall>c \<in> set w. c \<noteq> CHR 0x22 \<and> c \<noteq> CHR '' '' \<Longrightarrow> split_rule False cur (w @ rest) = split_rule False (cur @ w) rest"
  by (induction w arbitrary: cur) auto

lemma split_rule_quoted_text:
  "CHR 0x22 \<notin> set w \<Longrightarrow> split_rule True cur (w @ rest) = split_rule True (cur @ w) rest"
  by (induction w arbitrary: cur) auto

lemma split_rule_quoted:
  assumes "CHR 0x22 \<notin> set w"
  shows "split_rule False cur (quoted w @ rest) = split_rule False (cur @ quoted w) rest"
  using split_rule_quoted_text [OF assms, of "cur @ [CHR 0x22]" "CHR 0x22 # rest"]
  by (simp add: quoted_def)

lemma split_rule_part_quoted:
  assumes "cur \<noteq> []" and "CHR 0x22 \<notin> set w"
  shows "split_rule False cur (CHR '' '' # quoted w @ rest) = cur # quoted w # split_rule False [] rest"
proof -
  have "dropWhile (\<lambda>x. x \<noteq> CHR 0x22) (w @ CHR 0x22 # rest) = CHR 0x22 # rest"
    "takeWhile (\<lambda>x. x \<noteq> CHR 0x22) (w @ CHR 0x22 # rest) = w"
    using assms(2) by (induction w) auto
  with assms(1) show ?thesis by (simp add: quoted_def)
qed

lemma split_rule_part:
  assumes "cur \<noteq> []" and "d \<noteq> CHR '' ''" and "d \<noteq> CHR 0x22"
  shows "split_rule False cur (CHR '' '' # d # ds) = cur # split_rule False [] (d # ds)"
  using assms by simp

text \<open>The operator of a printed rule: a word, or quoted text that may be negated.\<close>

lemma split_rule_three:
  assumes "vs \<noteq> []" and "\<forall>c \<in> set vs. c \<noteq> CHR 0x22 \<and> c \<noteq> CHR '' ''"
    and "(\<exists>w. oper = quoted w \<and> CHR 0x22 \<notin> set w) \<or> (\<exists>w. oper = CHR ''!'' # quoted w \<and> CHR 0x22 \<notin> set w)
      \<or> (oper \<noteq> [] \<and> (\<forall>c \<in> set oper. c \<noteq> CHR 0x22 \<and> c \<noteq> CHR '' ''))"
    and "tail = [] \<or> (\<exists>as. tail = CHR '' '' # quoted as \<and> CHR 0x22 \<notin> set as)"
  shows "split_rule False [] (vs @ CHR '' '' # oper @ tail) = vs # oper # (if tail = [] then [] else [tl tail])"
proof -
  have t: "split_rule False cur tail = (if cur = [] then [] else [cur]) @ (if tail = [] then [] else [tl tail])" for cur
  proof (cases "tail = []")
    case False
    then obtain as where as: "tail = CHR '' '' # quoted as" "CHR 0x22 \<notin> set as" using assms(4) by blast
    show ?thesis
    proof (cases "cur = []")
      case True
      with as split_rule_quoted [OF as(2), of "[]" "[]"] show ?thesis by (simp add: quoted_def)
    next
      case False
      with as split_rule_part_quoted [OF False as(2), of "[]"] show ?thesis by simp
    qed
  qed simp
  have v: "split_rule False [] (vs @ CHR '' '' # oper @ tail) = split_rule False vs (CHR '' '' # oper @ tail)"
    using split_rule_word [OF assms(2), of "[]"] by simp
  from assms(3) consider (quoted) w where "oper = quoted w" "CHR 0x22 \<notin> set w"
    | (negated) w where "oper = CHR ''!'' # quoted w" "CHR 0x22 \<notin> set w"
    | (word) "oper \<noteq> []" "\<forall>c \<in> set oper. c \<noteq> CHR 0x22 \<and> c \<noteq> CHR '' ''" by blast
  then show ?thesis
  proof cases
    case (quoted w)
    with v split_rule_part_quoted [OF assms(1) quoted(2), of tail] t [of "[]"] show ?thesis by simp
  next
    case (negated w)
    with v split_rule_part [OF assms(1), of "CHR ''!''" "quoted w @ tail"] split_rule_quoted [OF negated(2), of "''!''" tail]
      t [of oper]
    show ?thesis by simp
  next
    case word
    then obtain d ds where d: "oper = d # ds" by (cases oper) auto
    with word have "d \<noteq> CHR '' ''" "d \<noteq> CHR 0x22" by auto
    with v d split_rule_part [OF assms(1), of d "ds @ tail"] split_rule_word [OF word(2), of "[]" tail] t [of oper]
    show ?thesis by simp
  qed
qed

section \<open>Splitting of actions\<close>

text \<open>The loop on ASCII text, by characters.\<close>

fun split_chars :: "bool \<Rightarrow> char \<Rightarrow> string \<Rightarrow> string \<Rightarrow> string list" where
  "split_chars inQuotes q cur [] = (if cur \<noteq> [] then [cur] else [])"
| "split_chars inQuotes q cur (c # cs) =
     (if (c = CHR 0x27 \<or> c = CHR 0x22) \<and> \<not> inQuotes then split_chars True c (cur @ [c]) cs
      else if c = q \<and> inQuotes then split_chars False q (cur @ [c]) cs
      else if c = CHR '','' \<and> \<not> inQuotes then (if cur \<noteq> [] then cur # split_chars inQuotes q [] cs else split_chars inQuotes q cur cs)
      else split_chars inQuotes q (cur @ [c]) cs)"

lemma split_actions_ascii:
  "s \<noteq> [] \<Longrightarrow> \<forall>c \<in> set s. of_char c < (128 :: nat) \<Longrightarrow> n = i + length s \<Longrightarrow>
   split_actions n inQ [q] cur (runes i s) = split_chars inQ q cur s"
proof (induction s arbitrary: i inQ q cur)
  case (Cons c s)
  have r: "runes i (c # s) = (i, [c]) # runes (i + 1) s" using Cons.prems(2) by (intro runes_ascii_Cons) simp
  show ?case
  proof (cases "s = []")
    case True
    with Cons.prems(3) show ?thesis unfolding r by auto
  next
    case False
    with Cons.prems(3) have "i \<noteq> n - 1" by (cases s) auto
    with False Cons.IH [of "i + 1"] Cons.prems(2,3) show ?thesis unfolding r by auto
  qed
qed simp

lemma split_chars_quote_irrelevant: "split_chars False q cur s = split_chars False q' cur s"
proof (induction s arbitrary: cur)
  case (Cons c s)
  then show ?case by simp
qed simp

lemma split_chars_word:
  "\<forall>c \<in> set w. c \<notin> {CHR 0x27, CHR 0x22, CHR '',''} \<Longrightarrow> split_chars False q cur (w @ rest) = split_chars False q (cur @ w) rest"
  by (induction w arbitrary: cur) auto

lemma split_chars_quoted_text:
  "q \<notin> set w \<Longrightarrow> split_chars True q cur (w @ q # rest) = split_chars False q (cur @ w @ [q]) rest"
  by (induction w arbitrary: cur) auto

section \<open>Rules that can be printed\<close>

definition wf_variable :: "SecVariable \<Rightarrow> bool" where
  "wf_variable v \<longleftrightarrow> v_Transformations v = [] \<and> v_Name v \<noteq> [] \<and> CHR '':'' \<notin> set (v_Name v)
     \<and> (v_Collection v = [] \<or> has_prefix (v_Collection v) (v_Name v @ '':''))
     \<and> (\<forall>c \<in> set (v_Name v) \<union> set (v_Collection v). solid c \<and> c \<noteq> CHR 0x22 \<and> c \<noteq> CHR ''|'')"

definition wf_operator :: "SecOperator \<Rightarrow> bool" where
  "wf_operator p \<longleftrightarrow> has_prefix (op_Type p) ''@'' \<and> (\<forall>c \<in> set (op_Type p). solid c \<and> c \<notin> set special_chars)
     \<and> (op_Parameter p = [] \<or> firm (op_Parameter p)) \<and> CHR 0x22 \<notin> set (op_Parameter p) \<and> CHR 0x0A \<notin> set (op_Parameter p)"

definition wf_action :: "SecAction \<Rightarrow> bool" where
  "wf_action a \<longleftrightarrow> act_Name a \<noteq> [] \<and> (\<forall>c \<in> set (act_Name a). solid c \<and> c \<notin> {CHR '','', CHR '':'', CHR 0x22, CHR 0x27})
     \<and> (\<forall>c \<in> set (act_Parameter a). of_char c < (128 :: nat)
          \<and> c \<notin> {CHR 0x22, CHR 0x27, CHR 0x0A, CHR 0x0B, CHR 0x0C})"

definition wf_rule :: "SecRule \<Rightarrow> bool" where
  "wf_rule r \<longleftrightarrow> Variables r \<noteq> [] \<and> list_all wf_variable (Variables r) \<and> wf_operator (Operator r)
     \<and> list_all wf_action (Actions r)"

lemma firm_solid: "s \<noteq> [] \<Longrightarrow> \<forall>c \<in> set s. solid c \<Longrightarrow> firm s"
  by (simp add: firm_def)

lemma solid_not_space [simp]: "\<not> solid (CHR '' '')" "\<not> solid (CHR 0x0A)"
  by (simp_all add: solid_def is_space_def ascii_spaces_def)

lemma solidD: "solid c \<Longrightarrow> of_char c < (128 :: nat) \<and> c \<noteq> CHR 0x0A \<and> c \<noteq> CHR '' ''"
  by (auto simp: solid_def is_space_def ascii_spaces_def)

lemma Variable_String_chars:
  assumes "wf_variable v"
  shows "Variable_String v \<noteq> []" and "\<forall>c \<in> set (Variable_String v). solid c \<and> c \<noteq> CHR 0x22 \<and> c \<noteq> CHR ''|''"
  using assms by (auto simp: wf_variable_def Variable_String_def)

lemma parse_Variable_String: "wf_variable v \<Longrightarrow> parse_variable (Variable_String v) = v"
proof -
  assume w: "wf_variable v"
  show ?thesis
  proof (cases "v_Collection v = []")
    case True
    with w show ?thesis by (cases v) (auto simp: wf_variable_def Variable_String_def parse_variable_def)
  next
    case False
    with w have "has_prefix (v_Collection v) (v_Name v @ '':'')" by (simp add: wf_variable_def)
    then obtain r where r: "v_Collection v = v_Name v @ CHR '':'' # r"
      unfolding has_prefix_def by (metis append.assoc append_Cons append_Nil append_take_drop_id)
    have "takeWhile (\<lambda>c. c \<noteq> CHR '':'') (v_Name v @ CHR '':'' # r) = v_Name v"
      using w by (subst takeWhile_append2) (auto simp: wf_variable_def)
    with w r show ?thesis by (cases v) (auto simp: wf_variable_def Variable_String_def parse_variable_def)
  qed
qed

lemma printed_variables_chars:
  assumes "vs \<noteq> []" and "list_all wf_variable vs"
  shows "join (map Variable_String vs) ''|'' \<noteq> []"
    and "\<forall>c \<in> set (join (map Variable_String vs) ''|''). solid c \<and> c \<noteq> CHR 0x22"
proof -
  show "join (map Variable_String vs) ''|'' \<noteq> []"
    using assms Variable_String_chars(1) by (cases vs rule: remdups_adj.cases) (auto simp: list_all_iff)
  have "solid (CHR ''|'')" by (simp add: solid_def is_space_def ascii_spaces_def)
  then show "\<forall>c \<in> set (join (map Variable_String vs) ''|''). solid c \<and> c \<noteq> CHR 0x22"
    using set_join_char [of "CHR ''|''" "map Variable_String vs"] Variable_String_chars(2) assms(2)
    by (fastforce simp: join_singleton list_all_iff)
qed

lemma parseVariables_printed:
  assumes "vs \<noteq> []" and "list_all wf_variable vs"
  shows "parseVariables (join (map Variable_String vs) ''|'') = Inr vs"
proof -
  let ?ps = "map Variable_String vs"
  have "\<forall>p \<in> set ?ps. CHR ''|'' \<notin> set p"
    using assms(2) Variable_String_chars(2) by (fastforce simp: list_all_iff)
  then have s: "split_char (CHR ''|'') (join ?ps ''|'') = ?ps"
    using assms(1) by (simp add: join_singleton split_join_char)
  note n = printed_variables_chars(1) [OF assms]
  have t: "map trim_space ?ps = ?ps"
    using assms(2) Variable_String_chars by (auto simp: list_all_iff intro!: trim_space_firm firm_solid)
  have f: "filter (\<lambda>p. p \<noteq> []) ?ps = ?ps"
    using assms(2) Variable_String_chars(1) by (auto simp: list_all_iff)
  have "map parse_variable ?ps = vs"
    using assms(2) by (simp add: list_all_iff parse_Variable_String map_idI)
  then show ?thesis unfolding parseVariables_def s t f Let_def using n assms(1) by (simp only: if_False)
qed

lemma quoted_ends: "firm (quoted w)" "has_prefix (quoted w) [CHR 0x22]" "has_suffix (quoted w) [CHR 0x22]"
    "strip_ends (quoted w) = Inr w" "quoted w \<noteq> []"
  by (auto simp: quoted_def firm_def solid_def is_space_def ascii_spaces_def has_prefix_def has_suffix_def
      strip_ends_def butlast_append)

lemma unquote_quoted: "unquote_part (quoted w) = Inr w"
  by (simp add: unquote_part_def quoted_ends)

lemma unquote_word: "CHR 0x22 \<notin> set w \<Longrightarrow> unquote_part w = Inr w"
  by (cases w) (auto simp: unquote_part_def has_prefix_def)

text \<open>How the operator is printed.\<close>

definition operator_text :: "SecOperator \<Rightarrow> string" where
  "operator_text p = (if op_Parameter p = [] then op_Type p else op_Type p @ '' '' @ op_Parameter p)"

lemma wf_operator_text:
  assumes "wf_operator p"
  shows "firm (operator_text p)" and "has_prefix (operator_text p) ''@''" and "CHR 0x22 \<notin> set (operator_text p)"
    and "CHR 0x0A \<notin> set (operator_text p)"
    and "buildOperatorString p = (if op_Negated p then ''!'' else []) @
           (if op_Parameter p = [] then operator_text p else quoted (operator_text p))"
    and "op_Parameter p = [] \<Longrightarrow> (\<forall>c \<in> set (operator_text p). solid c \<and> c \<noteq> CHR 0x5C)"
proof -
  obtain t where t: "op_Type p = CHR ''@'' # t"
    using assms by (cases "op_Type p") (auto simp: wf_operator_def has_prefix_def)
  have c: "\<forall>c \<in> set (op_Type p). solid c \<and> c \<notin> set special_chars" using assms by (simp add: wf_operator_def)
  have sp: "CHR 0x22 \<in> set special_chars" "CHR 0x0A \<in> set special_chars" "CHR 0x5C \<in> set special_chars"
    by (simp_all add: special_chars_def)
  have a: "solid (CHR ''@'')" by (simp add: solid_def is_space_def ascii_spaces_def)
  show "firm (operator_text p)"
    using assms a t c by (auto simp: operator_text_def firm_def wf_operator_def)
  show "has_prefix (operator_text p) ''@''" using t by (simp add: operator_text_def has_prefix_def)
  show "CHR 0x22 \<notin> set (operator_text p)" "CHR 0x0A \<notin> set (operator_text p)"
    using assms c sp by (auto simp: operator_text_def wf_operator_def)
  show "buildOperatorString p = (if op_Negated p then ''!'' else []) @
           (if op_Parameter p = [] then operator_text p else quoted (operator_text p))"
    using c t by (auto simp: buildOperatorString_def operator_text_def needsOperatorQuoting_def Let_def has_prefix_def)
  show "op_Parameter p = [] \<Longrightarrow> (\<forall>c \<in> set (operator_text p). solid c \<and> c \<noteq> CHR 0x5C)"
    using c sp by (auto simp: operator_text_def)
qed

lemma parse_operator_text:
  assumes "wf_operator p"
  shows "parseOperator (operator_text p) (op_Negated p) = Inr p"
proof -
  have c: "CHR '' '' \<notin> set (op_Type p)" using assms by (auto simp: wf_operator_def)
  have "cut_char (CHR '' '') (operator_text p) = (op_Type p, op_Parameter p)"
  proof (cases "op_Parameter p = []")
    case True
    have "cut_char (CHR '' '') s = (s, [])" if "CHR '' '' \<notin> set s" for s
      using that by (induction s) (auto simp: cut_char_def)
    with True c show ?thesis by (simp add: operator_text_def)
  next
    case False
    with cut_char_append [OF c, of "op_Parameter p"] show ?thesis by (simp add: operator_text_def)
  qed
  moreover have "trim_space (op_Parameter p) = op_Parameter p"
    using assms by (auto simp: wf_operator_def trim_space_firm)
  ultimately show ?thesis
    using wf_operator_text(1,2) [OF assms] by (simp add: parseOperator_def firm_def)
qed

text \<open>How an action is printed.\<close>

lemma toModSecurityString_wf:
  assumes "wf_action a"
  shows "toModSecurityString a = (if act_Parameter a = [] then act_Name a
    else if needsQuoting (act_Parameter a) then act_Name a @ CHR '':'' # CHR 0x27 # act_Parameter a @ [CHR 0x27]
    else act_Name a @ CHR '':'' # act_Parameter a)"
proof -
  have "replace_all (act_Parameter a) [CHR 0x27] [CHR 0x5C, CHR 0x27] = act_Parameter a"
    using assms by (intro replace_all_absent [of "CHR 0x27"]) (auto simp: wf_action_def)
  then show ?thesis by (simp add: toModSecurityString_def)
qed

lemma unquoted_parameter_solid:
  assumes "wf_action a" and "\<not> needsQuoting (act_Parameter a)" and "c \<in> set (act_Parameter a)"
  shows "solid c \<and> c \<notin> {CHR 0x27, CHR '',''}"
proof -
  have s: "c \<notin> set special_chars" using assms(2,3) by (auto simp: needsQuoting_def)
  have "c \<noteq> CHR 0x0B" "c \<noteq> CHR 0x0C" "of_char c < (128 :: nat)" using assms(1,3) by (auto simp: wf_action_def)
  moreover have "c = CHR 0x09 \<or> c = CHR 0x0A \<or> c = CHR 0x0B \<or> c = CHR 0x0C \<or> c = CHR 0x0D \<or> c = CHR '' ''" if "is_space c"
    using that unfolding is_space_def ascii_spaces_def
    by (auto simp flip: of_char_eq_iff [where 'a = nat])
  ultimately show ?thesis using s by (auto simp: solid_def special_chars_def)
qed

lemma parse_printed_action:
  assumes "wf_action a"
  shows "parse_action (toModSecurityString a) = Inr a"
proof -
  let ?n = "act_Name a" and ?p = "act_Parameter a"
  have n: "?n \<noteq> []" "CHR '':'' \<notin> set ?n" "trim_space ?n = ?n"
    using assms by (auto simp: wf_action_def intro!: trim_space_firm firm_solid)
  have q: "solid (CHR 0x27)" by (simp add: solid_def is_space_def ascii_spaces_def)
  show ?thesis
  proof (cases "?p = []")
    case True
    with n toModSecurityString_wf [OF assms] show ?thesis by (cases a) (simp add: parse_action_def)
  next
    case False
    show ?thesis
    proof (cases "needsQuoting ?p")
      case True
      let ?q = "CHR 0x27 # ?p @ [CHR 0x27]"
      have "trim_space ?q = ?q" using q by (intro trim_space_firm) (simp add: firm_def)
      moreover have "has_prefix ?q [CHR 0x27]" "has_suffix ?q [CHR 0x27]" "strip_ends ?q = Inr ?p"
        by (auto simp: has_prefix_def has_suffix_def strip_ends_def butlast_append)
      ultimately show ?thesis
        using True False n toModSecurityString_wf [OF assms] cut_char_append [OF n(2), of ?q]
        by (cases a) (simp add: parse_action_def)
    next
      case nq: False
      have s: "\<forall>c \<in> set ?p. solid c \<and> c \<noteq> CHR 0x27" using unquoted_parameter_solid [OF assms nq] by blast
      then have "trim_space ?p = ?p" using False by (intro trim_space_firm firm_solid) auto
      moreover have "\<not> has_prefix ?p [CHR 0x27]" using s False by (cases ?p) (auto simp: has_prefix_def)
      ultimately show ?thesis
        using False nq n toModSecurityString_wf [OF assms] cut_char_append [OF n(2), of ?p]
        by (cases a) (simp add: parse_action_def)
    qed
  qed
qed

lemma printed_action_chars:
  assumes "wf_action a"
  shows "toModSecurityString a \<noteq> []" and "firm (toModSecurityString a)"
    and "\<forall>c \<in> set (toModSecurityString a). of_char c < (128 :: nat) \<and> c \<noteq> CHR 0x22 \<and> c \<noteq> CHR 0x0A"
proof -
  have n: "act_Name a \<noteq> []" "\<forall>c \<in> set (act_Name a). solid c \<and> c \<noteq> CHR 0x22" using assms by (auto simp: wf_action_def)
  have p: "\<forall>c \<in> set (act_Parameter a). of_char c < (128 :: nat) \<and> c \<noteq> CHR 0x22 \<and> c \<noteq> CHR 0x0A"
    using assms by (auto simp: wf_action_def)
  have q: "solid (CHR 0x27)" "solid (CHR '':'')" by (simp_all add: solid_def is_space_def ascii_spaces_def)
  have l: "solid (last (act_Parameter a))" if "act_Parameter a \<noteq> []" "\<not> needsQuoting (act_Parameter a)"
    using unquoted_parameter_solid [OF assms that(2)] that(1) by simp
  show "toModSecurityString a \<noteq> []" using n by (simp add: toModSecurityString_wf [OF assms])
  show "firm (toModSecurityString a)"
    using n q l by (auto simp: toModSecurityString_wf [OF assms] firm_def)
  have "\<forall>c \<in> set (act_Name a). of_char c < (128 :: nat) \<and> c \<noteq> CHR 0x22 \<and> c \<noteq> CHR 0x0A"
    using n(2) solidD by blast
  with p show "\<forall>c \<in> set (toModSecurityString a). of_char c < (128 :: nat) \<and> c \<noteq> CHR 0x22 \<and> c \<noteq> CHR 0x0A"
    by (auto simp: toModSecurityString_wf [OF assms])
qed

lemma split_chars_action:
  assumes "wf_action a"
  shows "split_chars False q cur (toModSecurityString a @ rest) = split_chars False q (cur @ toModSecurityString a) rest"
proof -
  let ?n = "act_Name a" and ?p = "act_Parameter a"
  have n: "\<forall>c \<in> set (?n @ '':''). c \<notin> {CHR 0x27, CHR 0x22, CHR '',''}" using assms by (auto simp: wf_action_def)
  consider "?p = []" | "?p \<noteq> []" "needsQuoting ?p" | "?p \<noteq> []" "\<not> needsQuoting ?p" by blast
  then show ?thesis
  proof cases
    case 1
    with n toModSecurityString_wf [OF assms] split_chars_word [of ?n q cur rest] show ?thesis by simp
  next
    case 2
    have p: "CHR 0x27 \<notin> set ?p" using assms by (auto simp: wf_action_def)
    have "split_chars False q cur (toModSecurityString a @ rest)
        = split_chars False q (cur @ ?n @ '':'') (CHR 0x27 # ?p @ CHR 0x27 # rest)"
      using 2 toModSecurityString_wf [OF assms] split_chars_word [OF n, of q cur] by simp
    also have "\<dots> = split_chars False (CHR 0x27) (cur @ toModSecurityString a) rest"
      using 2 toModSecurityString_wf [OF assms] split_chars_quoted_text [OF p, of "cur @ ?n @ '':'' @ [CHR 0x27]" rest] by simp
    also have "\<dots> = split_chars False q (cur @ toModSecurityString a) rest" by (rule split_chars_quote_irrelevant)
    finally show ?thesis .
  next
    case 3
    have "c \<notin> {CHR 0x27, CHR 0x22, CHR '',''}" if "c \<in> set ?p" for c
      using unquoted_parameter_solid [OF assms 3(2) that] assms that by (simp add: wf_action_def)
    with n have "\<forall>c \<in> set (?n @ '':'' @ ?p). c \<notin> {CHR 0x27, CHR 0x22, CHR '',''}" by auto
    with 3 toModSecurityString_wf [OF assms] split_chars_word [of "?n @ '':'' @ ?p" q cur rest] show ?thesis by simp
  qed
qed

lemma split_printed_actions:
  assumes "as \<noteq> []" and "list_all wf_action as"
  shows "split_chars False q [] (join (map toModSecurityString as) '','') = map toModSecurityString as"
  using assms
proof (induction as rule: induct_list012)
  case (2 a)
  with split_chars_action [of a q "[]" "[]"] printed_action_chars(1) [of a] show ?case by simp
next
  case (3 a b as)
  with split_chars_action [of a q "[]"] printed_action_chars(1) [of a] show ?case by simp
qed simp

lemma printed_actions_chars:
  assumes "as \<noteq> []" and "list_all wf_action as"
  shows "join (map toModSecurityString as) '','' \<noteq> []"
    and "\<forall>c \<in> set (join (map toModSecurityString as) '',''). of_char c < (128 :: nat) \<and> c \<noteq> CHR 0x22 \<and> c \<noteq> CHR 0x0A"
proof -
  show "join (map toModSecurityString as) '','' \<noteq> []"
    using assms printed_action_chars(1) by (cases as rule: remdups_adj.cases) (auto simp: list_all_iff)
  show "\<forall>c \<in> set (join (map toModSecurityString as) '',''). of_char c < (128 :: nat) \<and> c \<noteq> CHR 0x22 \<and> c \<noteq> CHR 0x0A"
    using set_join_char [of "CHR '',''" "map toModSecurityString as"] printed_action_chars(3) assms(2)
    by (fastforce simp: join_singleton list_all_iff)
qed

lemma parse_printed_list:
  "list_all wf_action as \<Longrightarrow>
   fold_res (\<lambda>actions part. bind_res (parse_action part) (\<lambda>a. Inr (actions @ [a]))) acc (map toModSecurityString as)
     = Inr (acc @ as)"
  by (induction as arbitrary: acc) (auto simp: parse_printed_action)

lemma parseActions_printed:
  assumes "as \<noteq> []" and "list_all wf_action as"
  shows "parseActions (join (map toModSecurityString as) '','') = Inr as"
proof -
  let ?ps = "map toModSecurityString as"
  have "splitActions (join ?ps '','') = ?ps"
    using printed_actions_chars [OF assms] split_actions_ascii [of "join ?ps '',''" "length (join ?ps '','')" 0 False NUL "[]"]
      split_printed_actions [OF assms]
    by (simp add: splitActions_def)
  moreover have "filter (\<lambda>p. p \<noteq> []) (map trim_space ?ps) = ?ps"
    using assms(2) printed_action_chars(1,2) by (induction as) (auto simp: trim_space_firm)
  ultimately show ?thesis using parse_printed_list [OF assms(2), of "[]"] by (simp add: parseActions_def)
qed

lemma ParseRule_text:
  assumes "firm t" and "CHR 0x0A \<notin> set t" and "last t \<noteq> CHR 0x5C"
  shows "ParseRule (''SecRule '' @ t) = parseRuleComponents t"
proof -
  let ?s = "''SecRule '' @ t"
  have f: "firm ?s" using assms(1) by (simp add: firm_def solid_def is_space_def ascii_spaces_def)
  have l: "last ?s \<noteq> CHR 0x5C" using assms(1,3) by (simp add: firm_def)
  have "\<not> has_suffix ?s [CHR 0x5C]"
  proof
    assume "has_suffix ?s [CHR 0x5C]"
    then have "drop (length ?s - 1) ?s = [CHR 0x5C]" by (simp add: has_suffix_def)
    then have "last ?s = CHR 0x5C"
      by (metis append_Nil2 append_take_drop_id drop_eq_Nil2 last_appendR last_snoc not_Cons_self2 list.distinct(1))
    with l show False by blast
  qed
  moreover have "split_char (CHR 0x0A) ?s = [?s]" using assms(2) by (intro split_char_none) simp
  ultimately have c: "cleanLineContinations (trim_space ?s) = ?s"
    using f by (simp add: cleanLineContinations_def trim_space_firm del: append_Cons)
  have p: "has_prefix ?s ''SecRule''" "drop 7 ?s = CHR '' '' # t" by (simp_all add: has_prefix_def)
  show ?thesis
    unfolding ParseRule_def Let_def c p(2) using p(1) trim_space_leading [OF assms(1)] by (simp del: append_Cons)
qed

text \<open>A rule with at most three parts.\<close>

lemma parseRuleComponents_parts:
  assumes "splitRuleIntoComponents t = vs # oper # rest" and "length rest \<le> 1" and "firm vs" and "firm oper"
    and "parseVariables vs = Inr variables"
    and "unquote_part (if has_prefix oper ''!'' then trim_space (drop 1 oper) else oper) = Inr operatorStr"
    and "parseOperator operatorStr (has_prefix oper ''!'') = Inr operator"
    and "parse_actions_part (vs # oper # rest) 2 = Inr actions"
  shows "parseRuleComponents t = Inr (Inr \<lparr>Variables = variables, Operator = operator, Actions = actions\<rparr>)"
proof -
  have "operator_and_start (vs # oper # rest) = (oper, 2)"
    using assms(2,4) by (simp add: operator_and_start_def trim_space_firm)
  moreover have "trim_space vs = vs" "vs \<noteq> []" using assms(3) by (auto simp: trim_space_firm firm_def)
  ultimately show ?thesis
    using assms(1,5-8) by (simp add: parseRuleComponents_def)
qed

lemma parseOperator_type: "parseOperator oper neg = Inr p \<Longrightarrow> op_Type p \<noteq> []"
  by (cases oper) (auto simp: parseOperator_def cut_char_def has_prefix_def split: if_splits)

lemma parseRuleComponents_result:
  assumes "parseRuleComponents t = Inr (Inr r)"
  shows "\<exists>vs oper neg. parseVariables vs = Inr (Variables r) \<and> parseOperator oper neg = Inr (Operator r)"
proof -
  let ?parts = "splitRuleIntoComponents t"
  obtain vars where v: "parseVariables (trim_space (?parts ! 0)) = Inr vars"
    using assms by (auto simp: parseRuleComponents_def Let_def split: if_splits sum.splits)
  obtain os start where os: "operator_and_start ?parts = (os, start)" by fastforce
  from assms v os obtain x neg where
    "(case parseOperator x neg of Inl e \<Rightarrow> Inr (Inl e)
      | Inr operator \<Rightarrow> bind_res (parse_actions_part ?parts start) (\<lambda>actions.
          Inr (Inr \<lparr>Variables = vars, Operator = operator, Actions = actions\<rparr>))) = Inr (Inr r)"
    by (auto simp: parseRuleComponents_def Let_def bind_res_eq_Inr_iff split: if_splits)
  then have "parseOperator x neg = Inr (Operator r) \<and> vars = Variables r"
    by (cases "parseOperator x neg") (auto simp: bind_res_eq_Inr_iff)
  with v show ?thesis by blast
qed

lemma parse_printed_rule:
  assumes "wf_rule r"
  shows "ParseRule (ToModSecurityRule r) = Inr (Inr r)"
proof -
  let ?vs = "join (map Variable_String (Variables r)) ''|''" and ?oper = "buildOperatorString (Operator r)"
    and ?as = "join (map toModSecurityString (Actions r)) '',''" and ?ot = "operator_text (Operator r)"
  define tail where "tail = (if Actions r = [] then [] else CHR '' '' # quoted ?as)"
  let ?text = "?vs @ CHR '' '' # ?oper @ tail"
  have w: "Variables r \<noteq> []" "list_all wf_variable (Variables r)" "wf_operator (Operator r)" "list_all wf_action (Actions r)"
    using assms by (auto simp: wf_rule_def)
  note vs = printed_variables_chars [OF w(1,2)] and ot = wf_operator_text [OF w(3)]
  have tail: "tail = [] \<or> (\<exists>as. tail = CHR '' '' # quoted as \<and> CHR 0x22 \<notin> set as)" "CHR 0x0A \<notin> set tail"
    using printed_actions_chars(2) [OF _ w(4)] by (auto simp: tail_def quoted_def)
  have oper: "?oper \<noteq> []" "solid (last ?oper) \<and> last ?oper \<noteq> CHR 0x5C" "CHR 0x0A \<notin> set ?oper" "firm ?oper"
    using ot quoted_ends(1) [of ?ot] by (auto simp: firm_def quoted_def solid_def is_space_def ascii_spaces_def)
  have shape: "(\<exists>w. ?oper = quoted w \<and> CHR 0x22 \<notin> set w) \<or> (\<exists>w. ?oper = CHR ''!'' # quoted w \<and> CHR 0x22 \<notin> set w)
      \<or> (?oper \<noteq> [] \<and> (\<forall>c \<in> set ?oper. c \<noteq> CHR 0x22 \<and> c \<noteq> CHR '' ''))"
  proof (cases "op_Parameter (Operator r) = []")
    case True
    then have "\<forall>c \<in> set ?ot. c \<noteq> CHR 0x22 \<and> c \<noteq> CHR '' ''" using ot(3,6) solidD by blast
    then have "\<forall>c \<in> set ?oper. c \<noteq> CHR 0x22 \<and> c \<noteq> CHR '' ''" using True by (auto simp: ot(5))
    with oper(1) show ?thesis by blast
  next
    case False
    then have "?oper = quoted ?ot \<or> ?oper = CHR ''!'' # quoted ?ot" by (simp add: ot(5))
    with ot(3) show ?thesis by blast
  qed
  have last: "last ?text = (if tail = [] then last ?oper else CHR 0x22)"
    using oper(1) by (auto simp: tail_def quoted_def)
  have "firm ?vs" using vs by (intro firm_solid) auto
  then have firm: "firm ?text"
    using vs(1) last oper(2) by (auto simp: firm_def solid_def is_space_def ascii_spaces_def)
  have "ToModSecurityRule r = ''SecRule '' @ ?text"
    using quoted_ends(5) by (auto simp: ToModSecurityRule_def tail_def Let_def)
  moreover have "ParseRule (''SecRule '' @ ?text) = parseRuleComponents ?text"
  proof (rule ParseRule_text [OF firm])
    show "CHR 0x0A \<notin> set ?text" using oper(3) tail(2) vs(2) solidD by fastforce
    show "last ?text \<noteq> CHR 0x5C" using oper(2) by (simp add: last)
  qed
  moreover have parts: "splitRuleIntoComponents ?text = ?vs # ?oper # (if tail = [] then [] else [tl tail])"
    unfolding splitRuleIntoComponents_def using split_rule_three [OF vs(1) _ shape tail(1)] vs(2) by fastforce
  moreover have "has_prefix ?oper ''!'' = op_Negated (Operator r)"
    using ot(2,5) by (cases ?ot) (auto simp: has_prefix_def quoted_def)
  moreover have "unquote_part (if has_prefix ?oper ''!'' then trim_space (drop 1 ?oper) else ?oper) = Inr ?ot"
    using ot(1,3,5) calculation(4) quoted_ends(1) by (auto simp: trim_space_firm unquote_quoted unquote_word)
  moreover have "parse_actions_part (?vs # ?oper # (if tail = [] then [] else [tl tail])) 2 = Inr (Actions r)"
    using printed_actions_chars(1) [OF _ w(4)] parseActions_printed [OF _ w(4)]
    by (auto simp: parse_actions_part_def tail_def trim_space_firm quoted_ends(1) unquote_quoted)
  ultimately show ?thesis
    using parseRuleComponents_parts [OF parts _ \<open>firm ?vs\<close> oper(4) parseVariables_printed [OF w(1,2)], of ?ot "Operator r" "Actions r"]
      parse_operator_text [OF w(3)] by simp
qed

section \<open>Properties\<close>

text \<open>
  C3: Printing and parsing.  For a rule whose names are made of printable ASCII without separators, whose
  operator is a named one, and whose parameters contain no quote and no line end (they may contain
  spaces, commas and any other ASCII), \<open>ParseRule\<close> of the text that \<open>ToModSecurityRule\<close> prints gives back
  the rule.
\<close>

theorem ParseRule_ToModSecurityRule:
  assumes "wf_rule r"
  shows "ParseRule (ToModSecurityRule r) = Inr (Inr r)"
  by (rule parse_printed_rule [OF assms])

definition sample_secrule :: SecRule where
  "sample_secrule = \<lparr>
     Variables = [\<lparr>v_Name = ''ARGS'', v_Collection = [], v_Transformations = []\<rparr>,
       \<lparr>v_Name = ''REQUEST_HEADERS'', v_Collection = ''REQUEST_HEADERS:User-Agent'', v_Transformations = []\<rparr>],
     Operator = \<lparr>op_Type = ''@rx'', op_Parameter = ''select .* from'', op_Negated = True\<rparr>,
     Actions = [\<lparr>act_Name = ''id'', act_Parameter = ''942100''\<rparr>, \<lparr>act_Name = ''deny'', act_Parameter = []\<rparr>,
       \<lparr>act_Name = ''msg'', act_Parameter = ''SQL, blocked''\<rparr>]\<rparr>"

lemma wf_sample_secrule: "wf_rule sample_secrule"
  by (simp add: wf_rule_def sample_secrule_def wf_variable_def wf_operator_def wf_action_def firm_def solid_def
      is_space_def ascii_spaces_def special_chars_def has_prefix_def)

theorem ParseRule_ToModSecurityRule_witness:
  "ParseRule (ToModSecurityRule sample_secrule) = Inr (Inr sample_secrule)"
  by (rule ParseRule_ToModSecurityRule [OF wf_sample_secrule])

text \<open>
  C39: A parsed rule is complete: it has a variable and an operator, so that \<open>ValidateRule\<close> rejects it at
  most for its \<open>id\<close> action.
\<close>

theorem parsed_rules_are_complete:
  assumes "ParseRule t = Inr (Inr r)"
  shows "Variables r \<noteq> [] \<and> op_Type (Operator r) \<noteq> []
    \<and> ValidateRule (Some r) \<notin> {Some ErrInvalidRule, Some ErrMissingVariables, Some ErrMissingOperator}"
proof -
  obtain t' where p: "parseRuleComponents t' = Inr (Inr r)"
    using assms by (auto simp: ParseRule_def Let_def split: if_splits)
  from parseRuleComponents_result [OF p] obtain vs oper neg where
    v: "parseVariables vs = Inr (Variables r)" and o: "parseOperator oper neg = Inr (Operator r)" by blast
  have 1: "Variables r \<noteq> []" using v by (auto simp: parseVariables_def Let_def split: if_splits)
  have 2: "op_Type (Operator r) \<noteq> []" by (rule parseOperator_type [OF o])
  from 1 2 show ?thesis by (auto simp: ValidateRule_def split: option.splits)
qed

theorem parsed_rules_are_complete_witness:
  "Variables sample_secrule \<noteq> [] \<and> ValidateRule (Some sample_secrule) \<noteq> Some ErrMissingVariables"
  using parsed_rules_are_complete [OF parse_printed_rule [OF wf_sample_secrule]] by blast

text \<open>
  Some texts make the parser panic instead of giving an error: a rule whose operator is a negated
  single double quote, for whatever variables, slices a string of one byte with the bounds [1:0].
\<close>

theorem lone_quote_makes_the_parser_panic:
  assumes "v \<noteq> []" and "\<forall>c \<in> set v. solid c \<and> c \<noteq> CHR 0x22 \<and> c \<noteq> CHR ''|''"
  shows "ParseRule (''SecRule '' @ v @ '' !'' @ [CHR 0x22]) = Inl Slice_Bounds"
proof -
  let ?t = "v @ '' !'' @ [CHR 0x22]"
  have q: "solid (CHR 0x22)" by (simp add: solid_def is_space_def ascii_spaces_def)
  have "firm ?t" using assms q by (simp add: firm_def)
  moreover have "CHR 0x0A \<notin> set ?t" using assms(2) solidD by auto
  ultimately have "ParseRule (''SecRule '' @ ?t) = parseRuleComponents ?t" by (intro ParseRule_text) auto
  moreover have s: "splitRuleIntoComponents ?t = [v, ''!'' @ [CHR 0x22]]"
    using split_rule_word [of v "[]" "'' !'' @ [CHR 0x22]"] assms solidD
    by (fastforce simp: splitRuleIntoComponents_def)
  have f: "firm v" "firm (''!'' @ [CHR 0x22])" "firm [CHR 0x22]"
    using assms q by (auto simp: firm_def solid_def is_space_def ascii_spaces_def)
  have "split_char (CHR ''|'') v = [v]" using assms(2) by (intro split_char_none) auto
  then have "\<exists>vars. parseVariables v = Inr vars"
    using assms(1) trim_space_firm [OF f(1)] by (simp add: parseVariables_def)
  then have "parseRuleComponents ?t = Inl Slice_Bounds"
    unfolding parseRuleComponents_def s Let_def
    using trim_space_firm [OF f(1)] trim_space_firm [OF f(2)] trim_space_firm [OF f(3)] assms(1)
    by (auto simp: operator_and_start_def has_prefix_def has_suffix_def unquote_part_def strip_ends_def)
  ultimately show ?thesis by simp
qed

theorem lone_quote_makes_the_parser_panic_witness:
  "ParseRule (''SecRule '' @ ''ARGS'' @ '' !'' @ [CHR 0x22]) = Inl Slice_Bounds"
  by (rule lone_quote_makes_the_parser_panic) (simp_all add: solid_def is_space_def ascii_spaces_def)

section \<open>The table of actions\<close>

text \<open>The contract of the actions of a rule towards its clients: looking up what was added last.\<close>

locale action_table =
  fixes get :: "'k \<Rightarrow> 't \<Rightarrow> 'a option" and add :: "'a \<Rightarrow> 't \<Rightarrow> 't" and name :: "'a \<Rightarrow> 'k"
  assumes get_add: "get k (add a t) = (if k = name a then Some a else get k t)"
begin

lemma get_fold: "get k (fold add as t) = (case find (\<lambda>a. name a = k) (rev as) of Some a \<Rightarrow> Some a | None \<Rightarrow> get k t)"
proof (induction as rule: rev_induct)
  case (snoc a as)
  then show ?case by (simp add: get_add)
qed simp

lemma add_overwrites: "name a = name b \<Longrightarrow> get k (add b (add a t)) = get k (add b t)"
  by (simp add: get_add)

end

lemma find_add_action:
  "find (\<lambda>a. act_Name a = k) (add_action b as) = (if k = act_Name b then Some b else find (\<lambda>a. act_Name a = k) as)"
  by (induction as) auto

interpretation acts: action_table GetActionByName AddAction act_Name
  by unfold_locales (simp add: GetActionByName_def AddAction_def find_add_action)

lemma set_add_action: "act_Name ` set (add_action b as) = insert (act_Name b) (act_Name ` set as)"
  by (induction as) auto

lemma distinct_add_action: "distinct (map act_Name as) \<Longrightarrow> distinct (map act_Name (add_action b as))"
  by (induction as) (auto simp: set_add_action)

lemma distinct_fold_AddAction:
  "distinct (map act_Name (Actions r)) \<Longrightarrow> distinct (map act_Name (Actions (fold AddAction as r)))"
  by (induction as arbitrary: r) (simp_all add: AddAction_def distinct_add_action)

lemma find_action_None: "n \<notin> act_Name ` set as \<Longrightarrow> find (\<lambda>a. act_Name a = n) as = None"
  by (induction as) auto

lemma remove_action_spec:
  "distinct (map act_Name as) \<Longrightarrow>
   fst (remove_action n as) = (find (\<lambda>a. act_Name a = n) as \<noteq> None)
   \<and> find (\<lambda>a. act_Name a = k) (snd (remove_action n as)) = (if k = n then None else find (\<lambda>a. act_Name a = k) as)"
  by (induction as) (auto simp: find_action_None case_prod_beta)

text \<open>
  The actions of a rule are a table.  After any sequence of \<open>AddAction\<close> a name gives the action added
  last under it, or what it gave before; names stay distinct; and for distinct names \<open>RemoveAction\<close>
  tells whether the name was there and removes it and nothing else.
\<close>

theorem rule_actions_form_a_table:
  assumes "distinct (map act_Name (Actions r))"
  shows "GetActionByName k (fold AddAction as r)
      = (case find (\<lambda>a. act_Name a = k) (rev as) of Some a \<Rightarrow> Some a | None \<Rightarrow> GetActionByName k r)
    \<and> distinct (map act_Name (Actions (fold AddAction as r)))
    \<and> fst (RemoveAction n r) = HasAction n r
    \<and> GetActionByName k (snd (RemoveAction n r)) = (if k = n then None else GetActionByName k r)"
  using acts.get_fold [of k as r] distinct_fold_AddAction [OF assms, of as] remove_action_spec [OF assms, of n k]
  by (simp add: RemoveAction_def HasAction_def GetActionByName_def case_prod_beta)

theorem rule_actions_form_a_table_witness:
  "GetActionByName ''id'' (fold AddAction [\<lparr>act_Name = ''id'', act_Parameter = ''7''\<rparr>] sample_secrule)
     = Some \<lparr>act_Name = ''id'', act_Parameter = ''7''\<rparr>
   \<and> GetActionByName ''deny'' (snd (RemoveAction ''deny'' sample_secrule)) = None"
proof -
  have "distinct (map act_Name (Actions sample_secrule))" by (simp add: sample_secrule_def)
  note t = rule_actions_form_a_table [OF this]
  show ?thesis
    using t [of "''id''" "[\<lparr>act_Name = ''id'', act_Parameter = ''7''\<rparr>]"] t [of "''deny''" _ "''deny''"] by simp
qed

end
