(* ===== verification/Modsec_Filter.thy ===== *)
theory Modsec_Filter
  imports Wafie_Lib
begin

text \<open>
  A model of the Envoy filter \<^verbatim>\<open>modsecfilter/filter.go\<close> with its registration in
  \<^verbatim>\<open>modsecfilter/config.go\<close>: one filter instance per HTTP stream, whose callbacks Envoy calls with
  headers, data and, at the end, \<open>OnDestroy\<close>.  The C request struct lives in the filter; its strings and
  its header array are C objects that \<open>newEvaluationRequest\<close> allocates and \<open>freeEvaluationRequest\<close>
  releases.  A header map of Envoy is a record of its accessors; the map that \<open>GetAllHeaders\<close> returns is
  the list of its entries in the order in which the loop visits them.  The library \<open>libwafie\<close> is a
  parameter.  Log output is left out.  The lemmas show which C objects a stream allocates, which of them
  it releases, and which are left.
\<close>

section \<open>The filter\<close>

record RequestHeaderMap =
  Get :: "string \<Rightarrow> string option"
  Host :: string
  Path :: string
  Method :: string
  GetAllHeaders :: "(string \<times> string list) list"

record filter_instance =
  evalRequest :: EvaluationRequest
  logCtx :: "(string \<times> string) list"

datatype StatusType = Continue | LocalReply

text \<open>The arguments of \<open>SendLocalReply\<close> that vary: the status and the body.\<close>

type_synonym local_reply = "nat \<times> string"

definition zero_eval_request :: EvaluationRequest where
  "zero_eval_request = \<lparr>er_client_ip = None, er_uri = None, er_http_method = None, er_http_version = None,
     er_body = None, er_headers_count = 0, er_headers = None, er_transaction = None\<rparr>"

text \<open>\<open>config.go\<close>: the path of the configuration stays allocated.\<close>

definition init_filter :: "'w libwafie_filter \<Rightarrow> c_heap \<Rightarrow> 'w \<Rightarrow> c_heap \<times> 'w" where
  "init_filter lib h w = (let (p, h) = CString ''/config'' h in (h, filter_wafie_library_init lib ''/config'' w))"

definition wafieFilterFactory :: filter_instance where
  "wafieFilterFactory = \<lparr>evalRequest = zero_eval_request, logCtx = []\<rparr>"

text \<open>The values of a header are joined without a separator.\<close>

definition header_pair :: "string \<times> string list \<Rightarrow> string \<times> string" where
  "header_pair e = (fst e, join (snd e) [])"

definition evaluationRequestHeaders :: "(string \<times> string list) list \<Rightarrow> c_heap \<Rightarrow> (addr \<times> c_heap) res" where
  "evaluationRequestHeaders allHeaders h =
     (let (headers, h) = malloc_headers (length allHeaders) h
      in bind_res (put_pairs headers 0 (map header_pair allHeaders) h) (\<lambda>h. Inr (headers, h)))"

text \<open>A missing header is read as the empty string; \<open>proto\<close> is the protocol of the stream, if known.\<close>

definition get_or_empty :: "string option \<Rightarrow> string" where
  "get_or_empty v = (case v of None \<Rightarrow> [] | Some s \<Rightarrow> s)"

definition build_eval_request ::
    "RequestHeaderMap \<Rightarrow> string option \<Rightarrow> EvaluationRequest \<Rightarrow> c_heap \<Rightarrow> (EvaluationRequest \<times> c_heap) res" where
  "build_eval_request headerMap proto ev h =
     (let (ip, h) = CString (get_or_empty (Get headerMap ''X-Forwarded-For'')) h;
          (u, h) = CString (Host headerMap @ Path headerMap) h;
          (m, h) = CString (Method headerMap) h;
          (v, h) = CString (get_or_empty proto) h
      in bind_res (evaluationRequestHeaders (GetAllHeaders headerMap) h) (\<lambda>(arr, h).
           Inr (ev\<lparr>er_client_ip := Some ip, er_uri := Some u, er_http_method := Some m, er_http_version := Some v,
                  er_headers_count := word_of_nat (length (GetAllHeaders headerMap)), er_headers := Some arr,
                  er_body := None\<rparr>, h)))"

definition newEvaluationRequest ::
    "'w libwafie_filter \<Rightarrow> RequestHeaderMap \<Rightarrow> string option \<Rightarrow> filter_instance \<Rightarrow> c_heap \<Rightarrow> 'w
      \<Rightarrow> (filter_instance \<times> c_heap \<times> 'w) res" where
  "newEvaluationRequest lib headerMap proto f h w =
     bind_res (build_eval_request headerMap proto (evalRequest f) h) (\<lambda>(ev, h).
       let (ev, h, w) = filter_wafie_init_request_transaction lib ev h w
       in Inr (f\<lparr>evalRequest := ev\<rparr>, h, w))"

definition free_header :: "ptr \<Rightarrow> c_heap \<Rightarrow> nat \<Rightarrow> c_heap res" where
  "free_header headers h i =
     bind_res (read_header headers i h) (\<lambda>hdr.
       bind_res (free_ptr h (hdr_key hdr)) (\<lambda>h. free_ptr h (hdr_value hdr)))"

text \<open>The count is read as a signed integer.\<close>

definition freeEvaluationRequest :: "EvaluationRequest \<Rightarrow> c_heap \<Rightarrow> c_heap res" where
  "freeEvaluationRequest ev h =
     bind_res (fold_res free_ptr h [er_client_ip ev, er_uri ev, er_http_method ev, er_http_version ev]) (\<lambda>h.
     bind_res (fold_res (free_header (er_headers ev)) h [0..<nat (sint (er_headers_count ev))]) (\<lambda>h.
       free_ptr h (er_headers ev)))"

definition newLogCtx :: "RequestHeaderMap \<Rightarrow> filter_instance \<Rightarrow> filter_instance" where
  "newLogCtx headerMap f = f\<lparr>logCtx := [(''x-request-id'', get_or_empty (Get headerMap ''X-Request-ID''))]\<rparr>"

definition DecodeHeaders ::
    "'w libwafie_filter \<Rightarrow> RequestHeaderMap \<Rightarrow> string option \<Rightarrow> filter_instance \<Rightarrow> c_heap \<Rightarrow> 'w
      \<Rightarrow> (StatusType \<times> local_reply list \<times> filter_instance \<times> c_heap \<times> 'w) res" where
  "DecodeHeaders lib headerMap proto f h w =
     bind_res (newEvaluationRequest lib headerMap proto (newLogCtx headerMap f) h w) (\<lambda>(f, h, w).
       let (r, h, w) = filter_wafie_process_request_headers lib (evalRequest f) h w
       in if r \<noteq> 0 then Inr (LocalReply, [(403, ''Access denied on headers processing'')], f, h, w)
          else Inr (Continue, [], f, h, w))"

definition DecodeData ::
    "'w libwafie_filter \<Rightarrow> string \<Rightarrow> filter_instance \<Rightarrow> c_heap \<Rightarrow> 'w
      \<Rightarrow> (StatusType \<times> local_reply list \<times> filter_instance \<times> c_heap \<times> 'w) res" where
  "DecodeData lib bytes f h w =
     (let (p, h) = CString bytes h;
          f = f\<lparr>evalRequest := (evalRequest f)\<lparr>er_body := Some p\<rparr>\<rparr>;
          (r, h, w) = filter_wafie_process_request_body lib (evalRequest f) h w
      in if r \<noteq> 0 then Inr (LocalReply, [(403, ''Access denied on body processing'')], f, h, w)
         else Inr (Continue, [], f, h, w))"

text \<open>The strings are released before the library is asked to clean up the transaction.\<close>

definition OnDestroy :: "'w libwafie_filter \<Rightarrow> filter_instance \<Rightarrow> c_heap \<Rightarrow> 'w \<Rightarrow> (c_heap \<times> 'w) res" where
  "OnDestroy lib f h w =
     bind_res (freeEvaluationRequest (evalRequest f) h) (\<lambda>h.
       Inr (filter_wafie_transaction_cleanup lib (evalRequest f) h w))"

section \<open>The callbacks of a stream\<close>

text \<open>
  What Envoy calls before the stream is destroyed.  Trailers and everything of the response are let
  through, and the log callbacks do nothing.
\<close>

datatype stream_event =
    Headers RequestHeaderMap "string option"
  | Data string
  | Trailers
  | Response_Headers
  | Response_Data string
  | Response_Trailers
  | Log_Callback
  | Stream_Complete

type_synonym 'w filter_state = "filter_instance \<times> c_heap \<times> 'w"

fun on_event :: "'w libwafie_filter \<Rightarrow> 'w filter_state \<Rightarrow> stream_event
    \<Rightarrow> (StatusType \<times> local_reply list \<times> 'w filter_state) res" where
  "on_event lib (f, h, w) (Headers headerMap proto) = DecodeHeaders lib headerMap proto f h w"
| "on_event lib (f, h, w) (Data bytes) = DecodeData lib bytes f h w"
| "on_event lib s _ = Inr (Continue, [], s)"

text \<open>A stream: the state after each callback, with the replies in their order.\<close>

fun run_stream :: "'w libwafie_filter \<Rightarrow> 'w filter_state \<Rightarrow> stream_event list
    \<Rightarrow> ((StatusType \<times> local_reply list) list \<times> 'w filter_state) res" where
  "run_stream lib s [] = Inr ([], s)"
| "run_stream lib s (e # es) =
     bind_res (on_event lib s e) (\<lambda>(st, rs, s).
       bind_res (run_stream lib s es) (\<lambda>(outs, s). Inr ((st, rs) # outs, s)))"

section \<open>The C objects of a request\<close>

text \<open>
  The request struct owns the objects \<open>as\<close>: four strings, two strings per header and the header array,
  all different and allocated.
\<close>

definition owns :: "c_heap \<Rightarrow> EvaluationRequest \<Rightarrow> addr list \<Rightarrow> bool" where
  "owns h ev as \<longleftrightarrow> (\<exists>ip u m v arr ks. as = [ip, u, m, v] @ pair_addrs ks @ [arr]
     \<and> er_client_ip ev = Some ip \<and> er_uri ev = Some u \<and> er_http_method ev = Some m \<and> er_http_version ev = Some v
     \<and> er_headers ev = Some arr \<and> sint (er_headers_count ev) = int (length ks)
     \<and> read_obj h arr = Inr (C_Headers (map hdr_at ks)) \<and> distinct as \<and> set as \<subseteq> live h)"

text \<open>The pointers that the struct passes to the library, the body left out.\<close>

definition request_pointers :: "EvaluationRequest \<Rightarrow> ptr list" where
  "request_pointers ev = [er_client_ip ev, er_uri ev, er_http_method ev, er_http_version ev, er_headers ev]"

lemma ownsI:
  assumes "as = [ip, u, m, v] @ pair_addrs ks @ [arr]" and "er_client_ip ev = Some ip" and "er_uri ev = Some u"
    and "er_http_method ev = Some m" and "er_http_version ev = Some v" and "er_headers ev = Some arr"
    and "sint (er_headers_count ev) = int (length ks)" and "read_obj h arr = Inr (C_Headers (map hdr_at ks))"
    and "distinct as" and "set as \<subseteq> live h"
  shows "owns h ev as"
  using assms unfolding owns_def by blast

lemma owns_keeps:
  assumes "owns h ev as" and k: "keeps h h'"
  shows "owns h' ev as"
proof -
  from assms(1) obtain ip u m v arr ks where o: "as = [ip, u, m, v] @ pair_addrs ks @ [arr]
      \<and> er_client_ip ev = Some ip \<and> er_uri ev = Some u \<and> er_http_method ev = Some m \<and> er_http_version ev = Some v
      \<and> er_headers ev = Some arr \<and> sint (er_headers_count ev) = int (length ks)"
      "read_obj h arr = Inr (C_Headers (map hdr_at ks))" "distinct as" "set as \<subseteq> live h"
    unfolding owns_def by blast
  moreover have "set as \<subseteq> live h'" using o(4) k by (auto simp: keeps_def)
  ultimately show ?thesis using keeps_read [OF k o(2)] unfolding owns_def by blast
qed

lemma owns_update [simp]:
  "owns h (ev\<lparr>er_body := p\<rparr>) as = owns h ev as"
  "owns h (ev\<lparr>er_transaction := t\<rparr>) as = owns h ev as"
  by (simp_all add: owns_def)

lemma owns_pointers: "owns h ev as \<Longrightarrow> set (request_pointers ev) \<subseteq> Some ` set as"
  by (auto simp: owns_def request_pointers_def)

lemma free_headers_loop:
  assumes "read_obj h arr = Inr (C_Headers (pre @ map hdr_at ks))"
    and "distinct (pair_addrs ks)" and "set (pair_addrs ks) \<subseteq> live h" and "arr \<notin> set (pair_addrs ks)"
  shows "fold_res (free_header (Some arr)) h [length pre..<length pre + length ks] = fold_res delete_obj h (pair_addrs ks)"
  using assms
proof (induction ks arbitrary: h pre)
  case (Cons kv ks)
  obtain k v where kv: "kv = (k, v)" by fastforce
  with Cons.prems(2-4) obj.dealloc_all [of "[k, v]" h] obtain h1 where
    1: "fold_res delete_obj h [k, v] = Inr h1" "live h1 = live h - {k, v}" "read_obj h1 arr = read_obj h arr"
    by auto
  have f: "free_header (Some arr) h (length pre) = Inr h1"
    using 1(1) Cons.prems(1) kv
    by (auto simp: free_header_def read_header_def hdr_at_def free_ptr_def bind_res_eq_Inr_iff)
  have r: "[length pre..<length pre + length (kv # ks)] = length pre # [Suc (length pre)..<Suc (length pre) + length ks]"
    by (simp add: upt_rec)
  have "set (pair_addrs ks) \<subseteq> live h1" using Cons.prems(2,3) kv 1(2) by auto
  then have "fold_res (free_header (Some arr)) h1 [Suc (length pre)..<Suc (length pre) + length ks]
      = fold_res delete_obj h1 (pair_addrs ks)"
    using Cons.IH [of h1 "pre @ [hdr_at kv]"] Cons.prems(1,2,4) kv 1(3) by simp
  with f r 1(1) kv show ?case by (auto simp: bind_res_eq_Inr_iff)
qed simp

lemma free_owned:
  assumes "owns h ev as"
  shows "\<exists>h'. freeEvaluationRequest ev h = Inr h' \<and> live h' = live h - set as \<and> (store_ok h \<longrightarrow> store_ok h')
    \<and> (\<forall>b. b \<notin> set as \<longrightarrow> read_obj h' b = read_obj h b)"
proof -
  from assms obtain ip u m v arr ks where o: "as = [ip, u, m, v] @ pair_addrs ks @ [arr]"
      "er_client_ip ev = Some ip" "er_uri ev = Some u" "er_http_method ev = Some m" "er_http_version ev = Some v"
      "er_headers ev = Some arr" "sint (er_headers_count ev) = int (length ks)"
      "read_obj h arr = Inr (C_Headers (map hdr_at ks))" "distinct as" "set as \<subseteq> live h"
    unfolding owns_def by blast
  from obj.dealloc_all [of "[ip, u, m, v]" h] o(1,9,10) obtain h1 where
    1: "fold_res delete_obj h [ip, u, m, v] = Inr h1" "live h1 = live h - {ip, u, m, v}"
      "read_obj h1 arr = read_obj h arr"
    by auto
  have "fold_res (free_header (Some arr)) h1 [0..<length ks] = fold_res delete_obj h1 (pair_addrs ks)"
    using free_headers_loop [of h1 arr "[]" ks] 1(2,3) o by auto
  then have "freeEvaluationRequest ev h = fold_res delete_obj h as"
    using 1(1) o by (auto simp: freeEvaluationRequest_def free_ptr_def fault_simps bind_res_eq_Inr_iff)
  with obj.dealloc_all [OF o(9,10)] show ?thesis by simp
qed

text \<open>What the library sees of a new request.\<close>

definition holds_eval_request :: "c_heap \<Rightarrow> EvaluationRequest \<Rightarrow> RequestHeaderMap \<Rightarrow> string option \<Rightarrow> bool" where
  "holds_eval_request h ev headerMap proto \<longleftrightarrow>
     GoString (er_client_ip ev) h = Inr (c_str (get_or_empty (Get headerMap ''X-Forwarded-For'')))
     \<and> GoString (er_uri ev) h = Inr (c_str (Host headerMap @ Path headerMap))
     \<and> GoString (er_http_method ev) h = Inr (c_str (Method headerMap))
     \<and> GoString (er_http_version ev) h = Inr (c_str (get_or_empty proto))
     \<and> er_body ev = None
     \<and> (\<exists>arr ks. er_headers ev = Some arr \<and> read_obj h arr = Inr (C_Headers (map hdr_at ks))
          \<and> list_all2 (holds_pair h) ks (map header_pair (GetAllHeaders headerMap)))"

lemma length_pair_addrs: "length (pair_addrs ks) = 2 * length ks"
  by (induction ks) auto

lemma build_eval_request_spec:
  assumes "store_ok h" and "length (GetAllHeaders headerMap) < 2 ^ 63"
  shows "\<exists>ev' h' as. build_eval_request headerMap proto ev h = Inr (ev', h') \<and> store_ok h' \<and> keeps h h'
    \<and> owns h' ev' as \<and> set as \<inter> live h = {} \<and> live h' = live h \<union> set as
    \<and> length as = 5 + 2 * length (GetAllHeaders headerMap) \<and> holds_eval_request h' ev' headerMap proto"
proof -
  let ?n = "length (GetAllHeaders headerMap)"
  let ?kvs = "map header_pair (GetAllHeaders headerMap)"
  obtain ip h1 where 1: "CString (get_or_empty (Get headerMap ''X-Forwarded-For'')) h = (ip, h1)" by fastforce
  note l1 = CString_laws [OF assms(1) 1]
  obtain u h2 where 2: "CString (Host headerMap @ Path headerMap) h1 = (u, h2)" by fastforce
  note l2 = CString_laws [OF l1(1) 2]
  obtain m h3 where 3: "CString (Method headerMap) h2 = (m, h3)" by fastforce
  note l3 = CString_laws [OF l2(1) 3]
  obtain v h4 where 4: "CString (get_or_empty proto) h3 = (v, h4)" by fastforce
  note l4 = CString_laws [OF l3(1) 4]
  obtain arr h5 where 5: "malloc_headers (length ?kvs) h4 = (arr, h5)" by fastforce
  from fill_pairs_spec [OF l4(1) 5] obtain h' ks where
    6: "put_pairs arr 0 ?kvs h5 = Inr h'" "store_ok h'" "keeps h4 h'"
      "read_obj h' arr = Inr (C_Headers (map hdr_at ks))" "list_all2 (holds_pair h') ks ?kvs"
      "distinct (arr # pair_addrs ks)" "set (arr # pair_addrs ks) \<inter> live h4 = {}"
      "live h' = live h4 \<union> set (arr # pair_addrs ks)"
    by blast
  let ?ev = "ev\<lparr>er_client_ip := Some ip, er_uri := Some u, er_http_method := Some m, er_http_version := Some v,
      er_headers_count := word_of_nat ?n, er_headers := Some arr, er_body := None\<rparr>"
  let ?as = "[ip, u, m, v] @ pair_addrs ks @ [arr]"
  have b: "build_eval_request headerMap proto ev h = Inr (?ev, h')"
    using 1 2 3 4 5 6(1) by (simp add: build_eval_request_def evaluationRequestHeaders_def)
  have k: "keeps h h4" using l1(2-4) l2(2-4) l3(2-4) l4(2-4) by (auto simp: keeps_def)
  have len: "length ks = ?n" using list_all2_lengthD [OF 6(5)] by simp
  have c: "sint (word_of_nat ?n :: size_t) = int (length ks)"
    using assms(2) len by (simp add: signed_of_nat signed_take_bit_int_eq_self)
  have l: "live h4 = {ip, u, m, v} \<union> live h" "distinct [ip, u, m, v]" "{ip, u, m, v} \<inter> live h = {}"
    using l1(2,3) l2(2,3) l3(2,3) l4(2,3) by auto
  have d: "distinct ?as" "set ?as \<subseteq> live h'" using l 6(6-8) by auto
  have o: "owns h' ?ev ?as"
    by (rule ownsI [where arr = arr, OF refl _ _ _ _ _ _ 6(4) d]) (simp_all add: c)
  have r: "read_obj h' ip = Inr (C_String (get_or_empty (Get headerMap ''X-Forwarded-For'')))"
      "read_obj h' u = Inr (C_String (Host headerMap @ Path headerMap))"
      "read_obj h' m = Inr (C_String (Method headerMap))" "read_obj h' v = Inr (C_String (get_or_empty proto))"
    using l1(2,3) l2(2,3) l3(2,3) l4(3) by (auto intro!: keeps_read [OF 6(3)] simp: l1(4) l2(4) l3(4) l4(4))
  then have "holds_eval_request h' ?ev headerMap proto"
    using 6(4,5) by (auto simp: holds_eval_request_def)
  moreover have "set ?as \<inter> live h = {}" "live h' = live h \<union> set ?as" "length ?as = 5 + 2 * ?n"
    using 6(7,8) l len by (auto simp: length_pair_addrs)
  ultimately show ?thesis using b 6(2) keeps_trans [OF k 6(3)] o by blast
qed

section \<open>Streams\<close>

text \<open>
  What is relied on of the library before the cleanup: it does not touch the C objects that it finds,
  and initialising a transaction changes only the transaction of the request.
\<close>

definition filter_lib_ok :: "'w libwafie_filter \<Rightarrow> bool" where
  "filter_lib_ok lib \<longleftrightarrow> (\<forall>ev h w. store_ok h \<longrightarrow>
     (\<exists>t h' w'. filter_wafie_init_request_transaction lib ev h w = (ev\<lparr>er_transaction := t\<rparr>, h', w')
        \<and> store_ok h' \<and> keeps h h')
     \<and> (\<exists>r h' w'. filter_wafie_process_request_headers lib ev h w = (r, h', w') \<and> store_ok h' \<and> keeps h h')
     \<and> (\<exists>r h' w'. filter_wafie_process_request_body lib ev h w = (r, h', w') \<and> store_ok h' \<and> keeps h h'))"

lemma DecodeHeaders_spec:
  assumes lib: "filter_lib_ok lib" and h: "store_ok h" and n: "length (GetAllHeaders headerMap) < 2 ^ 63"
  shows "\<exists>st rs f' h' w' as. DecodeHeaders lib headerMap proto f h w = Inr (st, rs, f', h', w')
    \<and> store_ok h' \<and> keeps h h' \<and> owns h' (evalRequest f') as \<and> set as \<inter> live h = {}
    \<and> length as = 5 + 2 * length (GetAllHeaders headerMap)
    \<and> (\<exists>ev0 h0. build_eval_request headerMap proto (evalRequest f) h = Inr (ev0, h0) \<and> live h0 = live h \<union> set as)"
proof -
  from build_eval_request_spec [OF h n, of proto "evalRequest f"] obtain ev h1 as where
    1: "build_eval_request headerMap proto (evalRequest f) h = Inr (ev, h1)" "store_ok h1" "keeps h h1"
      "owns h1 ev as" "set as \<inter> live h = {}"
    and len: "length as = 5 + 2 * length (GetAllHeaders headerMap)" and l: "live h1 = live h \<union> set as"
    by blast
  from lib 1(2) obtain t h2 w2 where
    2: "filter_wafie_init_request_transaction lib ev h1 w = (ev\<lparr>er_transaction := t\<rparr>, h2, w2)" "store_ok h2" "keeps h1 h2"
    unfolding filter_lib_ok_def by meson
  from lib 2(2) obtain r h3 w3 where
    3: "filter_wafie_process_request_headers lib (ev\<lparr>er_transaction := t\<rparr>) h2 w2 = (r, h3, w3)" "store_ok h3" "keeps h2 h3"
    unfolding filter_lib_ok_def by meson
  have "owns h3 (ev\<lparr>er_transaction := t\<rparr>) as"
    using owns_keeps [OF owns_keeps [OF 1(4) 2(3)] 3(3)] by simp
  moreover have "keeps h h3" using keeps_trans 1(3) 2(3) 3(3) by blast
  ultimately show ?thesis
    using 1(1,5) 2(1) 3 len l by (auto simp: DecodeHeaders_def newEvaluationRequest_def newLogCtx_def)
qed

lemma DecodeData_spec:
  assumes lib: "filter_lib_ok lib" and h: "store_ok h" and o: "owns h (evalRequest f) as"
  shows "\<exists>st rs f' h' w' a. DecodeData lib bytes f h w = Inr (st, rs, f', h', w')
    \<and> store_ok h' \<and> keeps h h' \<and> owns h' (evalRequest f') as
    \<and> a \<notin> live h \<and> read_obj h' a = Inr (C_String bytes)"
proof -
  obtain a h1 where 1: "CString bytes h = (a, h1)" by fastforce
  note l1 = CString_keeps [OF h 1]
  let ?ev = "(evalRequest f)\<lparr>er_body := Some a\<rparr>"
  from lib l1 obtain r h2 w2 where
    2: "filter_wafie_process_request_body lib ?ev h1 w = (r, h2, w2)" "store_ok h2" "keeps h1 h2"
    unfolding filter_lib_ok_def by meson
  have k: "keeps h h2" using keeps_trans l1 2(3) by blast
  have "owns h2 ?ev as" using owns_keeps [OF o k] by simp
  moreover have "read_obj h2 a = Inr (C_String bytes)" using keeps_read [OF 2(3)] l1 by blast
  ultimately show ?thesis using k l1 1 2(1,2) by (auto simp: DecodeData_def Let_def)
qed

text \<open>The data that a stream delivers.\<close>

fun bodies :: "stream_event list \<Rightarrow> string list" where
  "bodies [] = []"
| "bodies (Data b # es) = b # bodies es"
| "bodies (_ # es) = bodies es"

fun is_headers :: "stream_event \<Rightarrow> bool" where
  "is_headers (Headers _ _) = True"
| "is_headers _ = False"

lemma run_stream_spec:
  assumes "filter_lib_ok lib" and "store_ok h" and "owns h (evalRequest f) as" and "list_all (Not \<circ> is_headers) es"
  shows "\<exists>outs f' h' w' ds. run_stream lib (f, h, w) es = Inr (outs, f', h', w')
    \<and> store_ok h' \<and> keeps h h' \<and> owns h' (evalRequest f') as \<and> distinct ds \<and> set ds \<inter> live h = {}
    \<and> list_all2 (\<lambda>a b. read_obj h' a = Inr (C_String b)) ds (bodies es)"
  using assms(2-)
proof (induction es arbitrary: f h w)
  case Nil
  then show ?case by (auto simp: keeps_def)
next
  case (Cons e es)
  show ?case
  proof (cases "\<exists>b. e = Data b")
    case True
    then obtain b where e: "e = Data b" by blast
    from DecodeData_spec [OF assms(1) Cons.prems(1,2), of b w] obtain st rs f1 h1 w1 a where
      1: "DecodeData lib b f h w = Inr (st, rs, f1, h1, w1)" "store_ok h1" "keeps h h1" "owns h1 (evalRequest f1) as"
        "a \<notin> live h" "read_obj h1 a = Inr (C_String b)"
      by blast
    from Cons.IH [OF 1(2,4), of w1] Cons.prems(3) obtain outs f' h' w' ds where
      2: "run_stream lib (f1, h1, w1) es = Inr (outs, f', h', w')" "store_ok h'" "keeps h1 h'" "owns h' (evalRequest f') as"
        "distinct ds" "set ds \<inter> live h1 = {}" "list_all2 (\<lambda>a b. read_obj h' a = Inr (C_String b)) ds (bodies es)"
      by auto
    have a: "a \<in> live h1" using 1(6) obj.read_live by blast
    have "set (a # ds) \<inter> live h = {}" "distinct (a # ds)" using a 1(3,5) 2(5,6) by (auto simp: keeps_def)
    with e 1(1) 2(1,2,4,7) keeps_trans [OF 1(3) 2(3)] keeps_read [OF 2(3) 1(6)] show ?thesis
      by (intro exI [of _ "(st, rs) # outs"] exI [of _ f'] exI [of _ h'] exI [of _ w'] exI [of _ "a # ds"]) simp
  next
    case False
    with Cons.prems(3) have "on_event lib (f, h, w) e = Inr (Continue, [], f, h, w)" "bodies (e # es) = bodies es"
      by (cases e; simp)+
    moreover from Cons.IH [OF Cons.prems(1,2), of w] Cons.prems(3) obtain outs f' h' w' ds where
      "run_stream lib (f, h, w) es = Inr (outs, f', h', w')" "store_ok h'" "keeps h h'" "owns h' (evalRequest f') as"
      "distinct ds" "set ds \<inter> live h = {}" "list_all2 (\<lambda>a b. read_obj h' a = Inr (C_String b)) ds (bodies es)"
      by auto
    ultimately show ?thesis by auto
  qed
qed

text \<open>A stream from the factory to its destruction.\<close>

lemma stream_destroy_spec:
  assumes "filter_lib_ok lib" and "store_ok h" and "length (GetAllHeaders headerMap) < 2 ^ 63"
    and "list_all (Not \<circ> is_headers) es"
  shows "\<exists>outs f h1 w1 h2 as ds. run_stream lib (wafieFilterFactory, h, w) (Headers headerMap proto # es) = Inr (outs, f, h1, w1)
    \<and> OnDestroy lib f h1 w1 = Inr (filter_wafie_transaction_cleanup lib (evalRequest f) h2 w1)
    \<and> live h2 = live h1 - set as \<and> set as \<inter> live h = {} \<and> set (request_pointers (evalRequest f)) \<subseteq> Some ` set as
    \<and> distinct as \<and> set as \<subseteq> live h1 \<and> length as = 5 + 2 * length (GetAllHeaders headerMap)
    \<and> (\<exists>ev0 h0. build_eval_request headerMap proto zero_eval_request h = Inr (ev0, h0) \<and> live h0 = live h \<union> set as)
    \<and> keeps h h2 \<and> distinct ds \<and> set ds \<inter> live h = {}
    \<and> list_all2 (\<lambda>a b. read_obj h2 a = Inr (C_String b)) ds (bodies es)"
proof -
  from DecodeHeaders_spec [OF assms(1-3), of proto wafieFilterFactory w] obtain st rs f0 h0 w0 as where
    0: "DecodeHeaders lib headerMap proto wafieFilterFactory h w = Inr (st, rs, f0, h0, w0)"
      "store_ok h0" "keeps h h0" "owns h0 (evalRequest f0) as" "set as \<inter> live h = {}"
    and b: "length as = 5 + 2 * length (GetAllHeaders headerMap)"
      "\<exists>ev0 h0. build_eval_request headerMap proto zero_eval_request h = Inr (ev0, h0) \<and> live h0 = live h \<union> set as"
    unfolding wafieFilterFactory_def filter_instance.simps by blast
  from run_stream_spec [OF assms(1) 0(2,4) assms(4), of w0] obtain outs f h1 w1 ds where
    1: "run_stream lib (f0, h0, w0) es = Inr (outs, f, h1, w1)" "store_ok h1" "keeps h0 h1" "owns h1 (evalRequest f) as"
      "distinct ds" "set ds \<inter> live h0 = {}" "list_all2 (\<lambda>a b. read_obj h1 a = Inr (C_String b)) ds (bodies es)"
    by blast
  from free_owned [OF 1(4)] obtain h2 where
    2: "freeEvaluationRequest (evalRequest f) h1 = Inr h2" "live h2 = live h1 - set as"
      "\<forall>b. b \<notin> set as \<longrightarrow> read_obj h2 b = read_obj h1 b"
    by blast
  have as: "set as \<subseteq> live h0" using 0(4) by (auto simp: owns_def)
  have k: "keeps h h2"
    using keeps_trans [OF 0(3) 1(3)] 2(2,3) 0(5) by (auto simp: keeps_def)
  have "read_obj h2 a = read_obj h1 a" if "a \<in> set ds" for a
    using that 2(3) 1(6) as by blast
  then have "list_all2 (\<lambda>a b. read_obj h2 a = Inr (C_String b)) ds (bodies es)"
    by (intro list.rel_mono_strong [OF 1(7)]) simp
  moreover have "set ds \<inter> live h = {}" using 1(6) 0(3) by (auto simp: keeps_def)
  moreover have "distinct as" "set as \<subseteq> live h1" using 1(4) by (auto simp: owns_def)
  moreover have "run_stream lib (wafieFilterFactory, h, w) (Headers headerMap proto # es) = Inr ((st, rs) # outs, f, h1, w1)"
    using 0(1) 1(1) by simp
  moreover have "OnDestroy lib f h1 w1 = Inr (filter_wafie_transaction_cleanup lib (evalRequest f) h2 w1)"
    using 2(1) by (simp add: OnDestroy_def)
  ultimately show ?thesis
    using 0(5) 1(5) 2(2) k b owns_pointers [OF 1(4)] by blast
qed

section \<open>Properties\<close>

text \<open>
  C16: The memory of a stream.  For a library that leaves the objects it finds alone, no callback
  of a stream (one header callback, any others in any order) faults, and \<open>OnDestroy\<close> releases without a
  double free exactly the objects that building the request allocated, whatever the headers are: these are five, and
  two more for each header, and all of them exist until then.  All
  objects that existed before the stream are kept.  But it does so before it calls
  \<open>wafie_transaction_cleanup\<close>: every pointer of the struct that this call gets, the body apart, points to
  no live object.
\<close>

theorem filter_releases_the_request_before_cleanup:
  assumes "filter_lib_ok lib" and "store_ok h" and "length (GetAllHeaders headerMap) < 2 ^ 63"
    and "list_all (Not \<circ> is_headers) es"
  shows "\<exists>outs f h1 w1 h2 ev0 h0. run_stream lib (wafieFilterFactory, h, w) (Headers headerMap proto # es) = Inr (outs, f, h1, w1)
    \<and> OnDestroy lib f h1 w1 = Inr (filter_wafie_transaction_cleanup lib (evalRequest f) h2 w1)
    \<and> build_eval_request headerMap proto zero_eval_request h = Inr (ev0, h0)
    \<and> card (live h0 - live h) = 5 + 2 * length (GetAllHeaders headerMap) \<and> live h0 - live h \<subseteq> live h1
    \<and> live h2 = live h1 - (live h0 - live h) \<and> keeps h h2
    \<and> (\<forall>p \<in> set (request_pointers (evalRequest f)). \<exists>a. p = Some a \<and> a \<notin> live h2)"
proof -
  from stream_destroy_spec [OF assms, of w proto] obtain outs f h1 w1 h2 as ev0 h0 where
    s: "run_stream lib (wafieFilterFactory, h, w) (Headers headerMap proto # es) = Inr (outs, f, h1, w1)"
    "OnDestroy lib f h1 w1 = Inr (filter_wafie_transaction_cleanup lib (evalRequest f) h2 w1)"
    "build_eval_request headerMap proto zero_eval_request h = Inr (ev0, h0)" "keeps h h2"
    and as: "live h2 = live h1 - set as" "set as \<inter> live h = {}" "set (request_pointers (evalRequest f)) \<subseteq> Some ` set as"
      "distinct as" "set as \<subseteq> live h1" "length as = 5 + 2 * length (GetAllHeaders headerMap)" "live h0 = live h \<union> set as"
    by blast
  have new: "live h0 - live h = set as" using as(2,7) by auto
  have "\<forall>p \<in> set (request_pointers (evalRequest f)). \<exists>a. p = Some a \<and> a \<notin> live h2" using as(1,3) by blast
  moreover have "card (live h0 - live h) = 5 + 2 * length (GetAllHeaders headerMap)"
    unfolding new using distinct_card [OF as(4)] as(6) by simp
  ultimately show ?thesis using s as(1,5) unfolding new [symmetric] by blast
qed

text \<open>
  A library whose state counts its calls, which allocates one object per transaction, and a stream.
\<close>

definition counting_lib :: "nat libwafie_filter" where
  "counting_lib = \<lparr>filter_wafie_library_init = (\<lambda>p w. w),
     filter_wafie_process_request_headers = (\<lambda>ev h w. (0, h, Suc w)),
     filter_wafie_process_request_body = (\<lambda>ev h w. (1, h, Suc w)),
     filter_wafie_init_request_transaction =
       (\<lambda>ev h w. let (t, h) = CString ''transaction'' h in (ev\<lparr>er_transaction := Some t\<rparr>, h, w)),
     filter_wafie_transaction_cleanup = (\<lambda>ev h w. (h, w)),
     filter_wafie_dump_rules = (\<lambda>w. w), filter_wafie_cleanup = (\<lambda>e r m w. w), filter_wafie_add_rule = (\<lambda>r w. (0, w))\<rparr>"

lemma counting_lib_ok: "filter_lib_ok counting_lib"
proof -
  have "\<exists>t h' w'. filter_wafie_init_request_transaction counting_lib ev h w = (ev\<lparr>er_transaction := t\<rparr>, h', w')
      \<and> store_ok h' \<and> keeps h h'" if "store_ok h" for ev h w
    using CString_keeps [OF that, of "''transaction''"]
    by (cases "CString ''transaction'' h") (auto simp: counting_lib_def)
  then show ?thesis
    by (auto simp: filter_lib_ok_def) (auto simp: counting_lib_def keeps_def)
qed

definition shop_request :: RequestHeaderMap where
  "shop_request = \<lparr>Get = [''X-Forwarded-For'' \<mapsto> ''10.0.0.1''], Host = ''shop.example'', Path = ''/cart'',
     Method = ''POST'', GetAllHeaders = [(''accept'', [''text/html'', ''image/png'']), (''te'', [''trailers''])]\<rparr>"

definition shop_events :: "stream_event list" where
  "shop_events = [Data ''a=1'', Data ''b=2'', Trailers, Stream_Complete]"

lemma shop_hypotheses:
  "store_ok (empty_store :: c_heap)" "length (GetAllHeaders shop_request) < 2 ^ 63"
  "list_all (Not \<circ> is_headers) shop_events"
  by (simp_all add: shop_request_def shop_events_def)

theorem filter_releases_the_request_before_cleanup_witness:
  "\<exists>outs f h1 w1 h2. run_stream counting_lib (wafieFilterFactory, empty_store, 0)
       (Headers shop_request (Some ''HTTP/1.1'') # shop_events) = Inr (outs, f, h1, w1)
    \<and> OnDestroy counting_lib f h1 w1 = Inr (filter_wafie_transaction_cleanup counting_lib (evalRequest f) h2 w1)
    \<and> card (live h1 - live h2) = 9 \<and> (\<forall>p \<in> set (request_pointers (evalRequest f)). \<exists>a. p = Some a \<and> a \<notin> live h2)"
proof -
  from filter_releases_the_request_before_cleanup [OF counting_lib_ok shop_hypotheses, of 0 "Some ''HTTP/1.1''"]
  obtain outs f h1 w1 h2 and h0 :: c_heap where s: "run_stream counting_lib (wafieFilterFactory, empty_store, 0)
       (Headers shop_request (Some ''HTTP/1.1'') # shop_events) = Inr (outs, f, h1, w1)"
      "OnDestroy counting_lib f h1 w1 = Inr (filter_wafie_transaction_cleanup counting_lib (evalRequest f) h2 w1)"
      "\<forall>p \<in> set (request_pointers (evalRequest f)). \<exists>a. p = Some a \<and> a \<notin> live h2"
    and c: "card (live h0 - live (empty_store :: c_heap)) = 5 + 2 * length (GetAllHeaders shop_request)"
      "live h0 - live (empty_store :: c_heap) \<subseteq> live h1" "live h2 = live h1 - (live h0 - live (empty_store :: c_heap))"
    by (elim exE conjE) (rule that; assumption)
  have "live h1 - live h2 = live h0 - live (empty_store :: c_heap)" using c(2,3) by blast
  then have "card (live h1 - live h2) = 9" using c(1) by (simp add: shop_request_def)
  with s show ?thesis by (intro exI conjI)
qed

text \<open>
  The C strings that \<open>DecodeData\<close> makes are never released: after the stream has been destroyed, up to
  the cleanup call of the library, there is one for every data callback of the stream, all different
  and none of which existed before.
\<close>

theorem filter_leaks_every_body:
  assumes "filter_lib_ok lib" and "store_ok h" and "length (GetAllHeaders headerMap) < 2 ^ 63"
    and "list_all (Not \<circ> is_headers) es"
  shows "\<exists>outs f h1 w1 h2 ds. run_stream lib (wafieFilterFactory, h, w) (Headers headerMap proto # es) = Inr (outs, f, h1, w1)
    \<and> OnDestroy lib f h1 w1 = Inr (filter_wafie_transaction_cleanup lib (evalRequest f) h2 w1)
    \<and> distinct ds \<and> set ds \<inter> live h = {} \<and> list_all2 (\<lambda>a b. read_obj h2 a = Inr (C_String b)) ds (bodies es)"
  using stream_destroy_spec [OF assms, of w proto] by blast

theorem filter_leaks_every_body_witness:
  "\<exists>outs f h1 w1 h2 a b. run_stream counting_lib (wafieFilterFactory, empty_store, 0)
       (Headers shop_request (Some ''HTTP/1.1'') # shop_events) = Inr (outs, f, h1, w1)
    \<and> OnDestroy counting_lib f h1 w1 = Inr (filter_wafie_transaction_cleanup counting_lib (evalRequest f) h2 w1)
    \<and> a \<noteq> b \<and> read_obj h2 a = Inr (C_String ''a=1'') \<and> read_obj h2 b = Inr (C_String ''b=2'')"
  using filter_leaks_every_body [OF counting_lib_ok shop_hypotheses, of 0 "Some ''HTTP/1.1''"]
  by (fastforce simp: shop_events_def list_all2_Cons2)

text \<open>
  The decision on the headers.  The struct that the library evaluates holds the forwarded address, the
  host followed by the path, the method, the protocol and one element for each header, and no body; the
  filter lets the request continue exactly when the library returns 0 and otherwise sends a local reply
  with status 403.
\<close>

theorem filter_decides_on_the_headers:
  assumes "store_ok h" and "length (GetAllHeaders headerMap) < 2 ^ 63"
  shows "\<exists>ev h1. holds_eval_request h1 ev headerMap proto \<and> keeps h h1
    \<and> (case filter_wafie_init_request_transaction lib ev h1 w of (ev', h2, w2) \<Rightarrow>
        case filter_wafie_process_request_headers lib ev' h2 w2 of (r, h3, w3) \<Rightarrow>
          DecodeHeaders lib headerMap proto f h w =
            Inr (if r = 0 then Continue else LocalReply,
                 if r = 0 then [] else [(403, ''Access denied on headers processing'')],
                 \<lparr>evalRequest = ev', logCtx = [(''x-request-id'', get_or_empty (Get headerMap ''X-Request-ID''))]\<rparr>, h3, w3))"
proof -
  from build_eval_request_spec [OF assms, of proto "evalRequest f"] obtain ev h1 where
    "build_eval_request headerMap proto (evalRequest f) h = Inr (ev, h1)" "keeps h h1"
      "holds_eval_request h1 ev headerMap proto"
    by blast
  then show ?thesis
    by (intro exI [of _ ev] exI [of _ h1])
      (cases f, auto simp: DecodeHeaders_def newEvaluationRequest_def newLogCtx_def split: prod.split)
qed

theorem filter_decides_on_the_headers_witness:
  "\<exists>f h w. DecodeHeaders counting_lib shop_request None wafieFilterFactory empty_store 0 = Inr (Continue, [], f, h, w)
    \<and> logCtx f = [(''x-request-id'', [])]"
  using filter_decides_on_the_headers [OF shop_hypotheses(1,2), where lib = counting_lib and f = wafieFilterFactory and w = 0 and proto = None]
  by (auto simp: counting_lib_def shop_request_def get_or_empty_def split: prod.splits)

end
