(* ===== verification/Wafie_Api.thy ===== *)
theory Wafie_Api
  imports Go_Lib
begin

text \<open>
  The messages of the API (\<^verbatim>\<open>api/proto/wafie/v1\<close>) that the gateway, the relay and the discovery agent
  exchange with the API server.  A field that may be nil in the generated Go code (a message, an
  \<open>optional\<close> scalar) is an option.  Lemma: which protections have everything that the accesses of the
  clients go through.
\<close>

section \<open>Routes (\<^verbatim>\<open>route.proto\<close>)\<close>

text \<open>Enumerations are open: a message may carry any other 32-bit value.\<close>

datatype UpstreamRouteType = UPSTREAM_ROUTE_TYPE_UNSPECIFIED | UPSTREAM_ROUTE_TYPE_DOMAIN | UPSTREAM_ROUTE_TYPE_PORT
  | UPSTREAM_ROUTE_TYPE_OTHER "32 word"

datatype PortStatusType = PORT_STATUS_TYPE_UNSPECIFIED | PORT_STATUS_TYPE_ENABLED | PORT_STATUS_TYPE_DISABLED
  | PORT_STATUS_TYPE_OTHER "32 word"

datatype PortType = PORT_TYPE_UNSPECIFIED | PORT_TYPE_SVC_PORT | PORT_TYPE_CONTAINER_PORT | PORT_TYPE_OTHER "32 word"

datatype DiscoveryStatusType = DISCOVERY_STATUS_TYPE_UNSPECIFIED | DISCOVERY_STATUS_TYPE_SUCCESS
  | DISCOVERY_STATUS_TYPE_INCOMPLETE | DISCOVERY_STATUS_TYPE_DISABLED
  | DISCOVERY_STATUS_TYPE_OTHER "32 word"

datatype IngressType = INGRESS_TYPE_UNSPECIFIED | INGRESS_TYPE_NGINX | INGRESS_TYPE_ISTIO | INGRESS_TYPE_OCP
  | INGRESS_TYPE_OTHER "32 word"

datatype MirrorPolicyStatus = MIRROR_POLICY_STATUS_UNSPECIFIED | MIRROR_POLICY_STATUS_ENABLED
  | MIRROR_POLICY_STATUS_DISABLED | MIRROR_POLICY_STATUS_OTHER "32 word"

record MirrorPolicy =
  mp_Status :: MirrorPolicyStatus
  mp_Ip :: string
  mp_Port :: uint32
  mp_Dns :: string

record Port =
  Number :: uint32
  port_Name :: string
  ProxyListeningPort :: uint32
  port_Description :: string
  port_Status :: PortStatusType
  PortType :: PortType

record Endpoint =
  Ip :: string
  NodeName :: string
  ep_Kind :: string
  ep_Name :: string
  ep_Namespace :: string

record Upstream =
  SvcFqdn :: string
  Endpoints :: "Endpoint list"
  Ports :: "Port list"
  up_RouteType :: UpstreamRouteType
  up_MirrorPolicy :: "MirrorPolicy option"

record Ingress =
  ing_Name :: string
  ing_Namespace :: string
  ing_Host :: string
  ing_Port :: "32 word"
  ing_Path :: string
  ing_ApplicationId :: "32 word"
  ing_Type :: IngressType
  ing_DiscoveryStatus :: DiscoveryStatusType
  ing_DiscoveryMessage :: string
  ing_Upstream :: "Upstream option"
  ing_Scheme :: string

section \<open>Applications and protections (\<^verbatim>\<open>application.proto\<close>, \<^verbatim>\<open>protection.proto\<close>)\<close>

record Application =
  app_Id :: uint32
  app_Name :: string
  app_Ingress :: "Ingress list"

datatype ProtectionMode = PROTECTION_MODE_UNSPECIFIED | PROTECTION_MODE_ON | PROTECTION_MODE_OFF
  | PROTECTION_MODE_OTHER "32 word"

type_synonym ParanoiaLevel = "32 word"

record v1_CaptchaV2 =
  v1_SiteKey :: "string option"
  v1_SecretKey :: "string option"
  v1_RedirectUrl :: "string option"
  v1_CaptchaEnabled :: "bool option"

record v1_AntiBot =
  v1_AntiBotEnabled :: "bool option"
  v1_ResponseStatuses :: "string option"
  v1_FailThreshold :: "uint32 option"
  v1_FailWindow :: "uint32 option"
  v1_BlockPeriod :: "uint32 option"
  v1_CaptchaV2 :: "v1_CaptchaV2 option"

record v1_BasicAuthUser =
  v1_User :: string
  v1_Pass :: string

record v1_TokenAuthToken =
  v1_Token :: string
  v1_ValidAfter :: "64 word option"
  v1_ValidBefore :: "64 word option"
  v1_Description :: "string option"

record v1_BasicAuthPutRequest =
  UsersToAdd :: "v1_BasicAuthUser list"
  UsersToRemove :: "v1_BasicAuthUser list"
  ba_PathWhitelistToAdd :: "string list"
  ba_PathWhitelistToRemove :: "string list"
  ba_SetEnabled :: "bool option"

record v1_TokenAuthPutRequest =
  TokensToAdd :: "v1_TokenAuthToken list"
  TokensToRemove :: "v1_TokenAuthToken list"
  ta_PathWhitelistToAdd :: "string list"
  ta_PathWhitelistToRemove :: "string list"
  ta_SetEnabled :: "bool option"
  ta_SetHeader :: "string option"

record v1_BasicAuth =
  v1_Users :: "v1_BasicAuthUser list"
  v1_ba_PathWhitelist :: "string list"
  v1_ba_Enabled :: "bool option"

record v1_TokenAuth =
  v1_Header :: string
  v1_Tokens :: "v1_TokenAuthToken list"
  v1_ta_Enabled :: "bool option"
  v1_ta_PathWhitelist :: "string list"

record v1_Auth =
  v1_BasicAuth :: "v1_BasicAuth option"
  v1_TokenAuth :: "v1_TokenAuth option"

text \<open>An \<open>IP\<close> message is its only field, the CIDR.\<close>

record v1_IPRules =
  v1_Block :: "string list"
  v1_Allow :: "string list"

record v1_Waf =
  v1_WafMode :: ProtectionMode
  v1_ParanoiaLevel :: ParanoiaLevel

record ProtectionDesiredState =
  v1_Waf :: "v1_Waf option"
  XffNumTrustedHops :: "uint32 option"
  v1_IpRules :: "v1_IPRules option"
  v1_Auth :: "v1_Auth option"
  v1_AntiBot :: "v1_AntiBot option"

record PutProtectionRequest =
  put_Id :: uint32
  put_ProtectionMode :: "ProtectionMode option"
  put_Waf :: "v1_Waf option"
  put_XffNumTrustedHops :: "uint32 option"
  IpRulesToAdd :: "v1_IPRules option"
  IpRulesToRemove :: "v1_IPRules option"
  put_BasicAuth :: "v1_BasicAuthPutRequest option"
  put_TokenAuth :: "v1_TokenAuthPutRequest option"
  put_AntiBot :: "v1_AntiBot option"

text \<open>The rule set versions of a protection are left out.\<close>

record Protection =
  prot_Id :: uint32
  ApplicationId :: uint32
  prot_Application :: "Application option"
  prot_Mode :: ProtectionMode
  DesiredState :: "ProtectionDesiredState option"

text \<open>The number of an enum value and back, as the conversions between the enum and \<open>uint32\<close> do.\<close>

fun mode_number :: "ProtectionMode \<Rightarrow> uint32" where
  "mode_number PROTECTION_MODE_UNSPECIFIED = 0"
| "mode_number PROTECTION_MODE_ON = 1"
| "mode_number PROTECTION_MODE_OFF = 2"
| "mode_number (PROTECTION_MODE_OTHER w) = w"

definition mode_of_number :: "uint32 \<Rightarrow> ProtectionMode" where
  "mode_of_number w = (if w = 0 then PROTECTION_MODE_UNSPECIFIED else if w = 1 then PROTECTION_MODE_ON
     else if w = 2 then PROTECTION_MODE_OFF else PROTECTION_MODE_OTHER w)"

fun route_type_number :: "UpstreamRouteType \<Rightarrow> uint32" where
  "route_type_number UPSTREAM_ROUTE_TYPE_UNSPECIFIED = 0"
| "route_type_number UPSTREAM_ROUTE_TYPE_DOMAIN = 1"
| "route_type_number UPSTREAM_ROUTE_TYPE_PORT = 2"
| "route_type_number (UPSTREAM_ROUTE_TYPE_OTHER w) = w"

definition route_type_of_number :: "uint32 \<Rightarrow> UpstreamRouteType" where
  "route_type_of_number w = (if w = 0 then UPSTREAM_ROUTE_TYPE_UNSPECIFIED else if w = 1 then UPSTREAM_ROUTE_TYPE_DOMAIN else if w = 2 then UPSTREAM_ROUTE_TYPE_PORT else UPSTREAM_ROUTE_TYPE_OTHER w)"

fun port_status_number :: "PortStatusType \<Rightarrow> uint32" where
  "port_status_number PORT_STATUS_TYPE_UNSPECIFIED = 0"
| "port_status_number PORT_STATUS_TYPE_ENABLED = 1"
| "port_status_number PORT_STATUS_TYPE_DISABLED = 2"
| "port_status_number (PORT_STATUS_TYPE_OTHER w) = w"

definition port_status_of_number :: "uint32 \<Rightarrow> PortStatusType" where
  "port_status_of_number w = (if w = 0 then PORT_STATUS_TYPE_UNSPECIFIED else if w = 1 then PORT_STATUS_TYPE_ENABLED else if w = 2 then PORT_STATUS_TYPE_DISABLED else PORT_STATUS_TYPE_OTHER w)"

fun port_type_number :: "PortType \<Rightarrow> uint32" where
  "port_type_number PORT_TYPE_UNSPECIFIED = 0"
| "port_type_number PORT_TYPE_SVC_PORT = 1"
| "port_type_number PORT_TYPE_CONTAINER_PORT = 2"
| "port_type_number (PORT_TYPE_OTHER w) = w"

definition port_type_of_number :: "uint32 \<Rightarrow> PortType" where
  "port_type_of_number w = (if w = 0 then PORT_TYPE_UNSPECIFIED else if w = 1 then PORT_TYPE_SVC_PORT else if w = 2 then PORT_TYPE_CONTAINER_PORT else PORT_TYPE_OTHER w)"

fun discovery_status_number :: "DiscoveryStatusType \<Rightarrow> uint32" where
  "discovery_status_number DISCOVERY_STATUS_TYPE_UNSPECIFIED = 0"
| "discovery_status_number DISCOVERY_STATUS_TYPE_SUCCESS = 1"
| "discovery_status_number DISCOVERY_STATUS_TYPE_INCOMPLETE = 2"
| "discovery_status_number DISCOVERY_STATUS_TYPE_DISABLED = 3"
| "discovery_status_number (DISCOVERY_STATUS_TYPE_OTHER w) = w"

definition discovery_status_of_number :: "uint32 \<Rightarrow> DiscoveryStatusType" where
  "discovery_status_of_number w = (if w = 0 then DISCOVERY_STATUS_TYPE_UNSPECIFIED else if w = 1 then DISCOVERY_STATUS_TYPE_SUCCESS else if w = 2 then DISCOVERY_STATUS_TYPE_INCOMPLETE else if w = 3 then DISCOVERY_STATUS_TYPE_DISABLED else DISCOVERY_STATUS_TYPE_OTHER w)"

fun ingress_type_number :: "IngressType \<Rightarrow> uint32" where
  "ingress_type_number INGRESS_TYPE_UNSPECIFIED = 0"
| "ingress_type_number INGRESS_TYPE_NGINX = 1"
| "ingress_type_number INGRESS_TYPE_ISTIO = 2"
| "ingress_type_number INGRESS_TYPE_OCP = 4"
| "ingress_type_number (INGRESS_TYPE_OTHER w) = w"

definition ingress_type_of_number :: "uint32 \<Rightarrow> IngressType" where
  "ingress_type_of_number w = (if w = 0 then INGRESS_TYPE_UNSPECIFIED else if w = 1 then INGRESS_TYPE_NGINX else if w = 2 then INGRESS_TYPE_ISTIO else if w = 4 then INGRESS_TYPE_OCP else INGRESS_TYPE_OTHER w)"

fun mirror_status_number :: "MirrorPolicyStatus \<Rightarrow> uint32" where
  "mirror_status_number MIRROR_POLICY_STATUS_UNSPECIFIED = 0"
| "mirror_status_number MIRROR_POLICY_STATUS_ENABLED = 1"
| "mirror_status_number MIRROR_POLICY_STATUS_DISABLED = 2"
| "mirror_status_number (MIRROR_POLICY_STATUS_OTHER w) = w"

definition mirror_status_of_number :: "uint32 \<Rightarrow> MirrorPolicyStatus" where
  "mirror_status_of_number w = (if w = 0 then MIRROR_POLICY_STATUS_UNSPECIFIED else if w = 1 then MIRROR_POLICY_STATUS_ENABLED else if w = 2 then MIRROR_POLICY_STATUS_DISABLED else MIRROR_POLICY_STATUS_OTHER w)"

text \<open>Converting a number to an enum value and back gives the number: nothing is lost in the database.\<close>

locale open_enum =
  fixes number :: "'e \<Rightarrow> uint32" and of_number :: "uint32 \<Rightarrow> 'e"
  assumes number_of_number [simp]: "number (of_number w) = w"
begin

lemma of_number_inject [simp]: "of_number v = of_number w \<longleftrightarrow> v = w"
  by (metis number_of_number)

lemma of_number_number: "e \<in> range of_number \<Longrightarrow> of_number (number e) = e"
  by auto

end

interpretation prot_mode: open_enum mode_number mode_of_number
  by unfold_locales (simp add: mode_of_number_def)

interpretation route_type: open_enum route_type_number route_type_of_number
  by unfold_locales (simp add: route_type_of_number_def)

interpretation port_status: open_enum port_status_number port_status_of_number
  by unfold_locales (simp add: port_status_of_number_def)

interpretation port_type: open_enum port_type_number port_type_of_number
  by unfold_locales (simp add: port_type_of_number_def)

interpretation discovery_status: open_enum discovery_status_number discovery_status_of_number
  by unfold_locales (simp add: discovery_status_of_number_def)

interpretation ingress_type: open_enum ingress_type_number ingress_type_of_number
  by unfold_locales (simp add: ingress_type_of_number_def)

interpretation mirror_status: open_enum mirror_status_number mirror_status_of_number
  by unfold_locales (simp add: mirror_status_of_number_def)

section \<open>Accesses\<close>

text \<open>Field access through a pointer, and the first element of a slice.\<close>

definition deref :: "'a option \<Rightarrow> 'a res" where
  "deref p = (case p of None \<Rightarrow> Inl Null_Dereference | Some x \<Rightarrow> Inr x)"

definition first_elem :: "'a list \<Rightarrow> 'a res" where
  "first_elem xs = (case xs of [] \<Rightarrow> Inl Slice_Bounds | x # _ \<Rightarrow> Inr x)"

text \<open>\<open>protection.Application.Ingress[0].Upstream\<close> followed by an access to a field of it.\<close>

definition protection_app :: "Protection \<Rightarrow> Application res" where
  "protection_app p = deref (prot_Application p)"

definition protection_upstream :: "Protection \<Rightarrow> Upstream res" where
  "protection_upstream p = bind_res (protection_app p) (\<lambda>app.
     bind_res (first_elem (app_Ingress app)) (\<lambda>ing. deref (ing_Upstream ing)))"

lemma deref_simps [simp, fault_simps]: "deref None = Inl Null_Dereference" "deref (Some x) = Inr x"
  by (simp_all add: deref_def)

lemma deref_eq_Inr [simp]: "deref p = Inr x \<longleftrightarrow> p = Some x"
  by (cases p) simp_all

lemma first_elem_simps [simp, fault_simps]: "first_elem [] = Inl Slice_Bounds" "first_elem (x # xs) = Inr x"
  by (simp_all add: first_elem_def)

lemma first_elem_eq_Inr: "first_elem xs = Inr x \<longleftrightarrow> (\<exists>ys. xs = x # ys)"
  by (cases xs) auto

lemma protection_upstream_eq_Inr:
  "protection_upstream p = Inr u \<longleftrightarrow> (\<exists>app ing ings. prot_Application p = Some app
     \<and> app_Ingress app = ing # ings \<and> ing_Upstream ing = Some u)"
  by (auto simp: protection_upstream_def protection_app_def bind_res_eq_Inr_iff first_elem_eq_Inr)

text \<open>Results that may be an error of the code or a panic.\<close>

type_synonym 'a eres = "(string + 'a) res"

definition bind_e :: "'a eres \<Rightarrow> ('a \<Rightarrow> 'b eres) \<Rightarrow> 'b eres" where
  "bind_e r f = bind_res r (\<lambda>x. case x of Inl e \<Rightarrow> Inr (Inl e) | Inr a \<Rightarrow> f a)"

lemma bind_e_simps [simp, fault_simps]:
  "bind_e (Inl x) f = Inl x" "bind_e (Inr (Inl e)) f = Inr (Inl e)" "bind_e (Inr (Inr a)) f = f a"
  by (simp_all add: bind_e_def)

lemma bind_e_eq_Inr_Inr: "bind_e r f = Inr (Inr y) \<longleftrightarrow> (\<exists>a. r = Inr (Inr a) \<and> f a = Inr (Inr y))"
  by (cases r; cases "projr r") auto

section \<open>Polling for a new version\<close>

text \<open>
  The gateway and the relay controller poll the version of the protections: a round does nothing when
  the version is the known one or cannot be had, and a round with a new version records it even if
  listing the protections fails.
\<close>

locale version_poller =
  fixes round :: "string option \<Rightarrow> 'l option \<Rightarrow> 's \<Rightarrow> 's res"
    and version :: "'s \<Rightarrow> string"
    and set_version :: "string \<Rightarrow> 's \<Rightarrow> 's"
  assumes same_version: "resp = None \<or> resp = Some (version s) \<Longrightarrow> round resp listed s = Inr s"
    and failed_listing: "v \<noteq> version s \<Longrightarrow> round (Some v) None s = Inr (set_version v s)"
    and version_set: "version (set_version v s) = v"
begin

text \<open>After a failed listing nothing happens until the version changes again.\<close>

lemma lost_update:
  assumes "v \<noteq> version s" and "\<forall>(resp, listed) \<in> set rounds. resp = None \<or> resp = Some v"
  shows "round (Some v) None s = Inr (set_version v s)
    \<and> fold_res (\<lambda>s (resp, listed). round resp listed s) (set_version v s) rounds = Inr (set_version v s)"
proof -
  have "fold_res (\<lambda>s (resp, listed). round resp listed s) (set_version v s) rounds = Inr (set_version v s)"
    using assms(2)
  proof (induction rounds)
    case (Cons r rounds)
    obtain resp listed where r: "r = (resp, listed)" by fastforce
    with Cons.prems have "round resp listed (set_version v s) = Inr (set_version v s)"
      using same_version [of resp "set_version v s" listed] version_set [of v s] by auto
    with r Cons.IH Cons.prems show ?case by simp
  qed simp
  with failed_listing [OF assms(1)] show ?thesis by simp
qed

end

end
