(* ===== verification/Xproc_Server.thy ===== *)
theory Xproc_Server
  imports Xproc_ModSec
begin

text \<open>
  A model of \<^verbatim>\<open>xproc/pkg/processor/server.go\<close>: the external processor that Envoy talks to, one stream
  of messages per HTTP request.  \<open>Process\<close> is a loop over what the stream delivers; its state is the
  evaluation request, the C memory and the state of the library, together with the responses sent and
  the calls of the library in their order.  A Go run-time panic is a fault of the whole loop.  The
  lemmas show the life cycle of the transaction, which streams cannot cause a panic, and that each
  message is answered in kind.
\<close>

section \<open>Messages\<close>

text \<open>
  \<open>ProcessingRequest\<close> with its one-of; a header message may lack the header map (\<open>None\<close>: the access
  panics), \<open>'b\<close> are the bodies, and \<open>OtherRequest\<close> stands for every other alternative.
\<close>

datatype 'b request_case =
    RequestHeaders "HeaderValue list option"
  | RequestBody 'b
  | ResponseHeaders "HeaderValue list option"
  | ResponseBody 'b
  | OtherRequest

record 'b ProcessingRequest =
  Request :: "'b request_case"
  Attributes :: "string \<rightharpoonup> (string \<rightharpoonup> pb_value)"

datatype ProcessingResponse =
    RequestHeadersResponse
  | RequestBodyResponse
  | ResponseHeadersResponse
  | ResponseBodyResponse
  | Immediate ImmediateResponse

text \<open>Calls of the library, for the record of a stream.\<close>

datatype lib_event = Init | Eval_Request_Headers | Eval_Request_Body | Eval_Response_Headers
  | Eval_Response_Body | Cleanup

text \<open>
  The constant environment: the library, the text of a body message (\<open>HttpBody.String()\<close> of the
  protobuf package), the cache of protections and the assets.
\<close>

record ('w, 'b, 'd) xproc =
  library :: "'w libwafie"
  body_String :: "'b \<Rightarrow> string"
  protectionCache :: "uint32 \<rightharpoonup> 'd"
  page_assets :: "'d assets"

record 'w stream_state =
  evalRequest :: "WafieEvaluationRequest option"
  memory :: c_heap
  lib_state :: 'w
  lib_events :: "lib_event list"
  sent :: "ProcessingResponse option list"

section \<open>Handlers\<close>

definition wafieProtectionIdHeader :: string where
  "wafieProtectionIdHeader = ''x-wafie-protection-id''"

fun getProtectionId :: "HeaderValue list \<Rightarrow> uint32" where
  "getProtectionId [] = 0"
| "getProtectionId (hdr # hdrs) =
     (if Key hdr = wafieProtectionIdHeader
      then (case parse_uint 32 (RawValue hdr) of None \<Rightarrow> 0 | Some val \<Rightarrow> word_of_nat val)
      else getProtectionId hdrs)"

definition forbidden_response :: ImmediateResponse where
  "forbidden_response = \<lparr>Status = 403, SetHeaders = [(''content-type'', ''text/html'')], Body = []\<rparr>"

definition interventionResponse ::
    "('w, 'b, 'd) xproc \<Rightarrow> WafieEvaluationRequest \<Rightarrow> c_heap \<Rightarrow> 'w \<Rightarrow> (ProcessingResponse \<times> c_heap \<times> 'w) res" where
  "interventionResponse s ev h w =
     bind_res (EnrichWithInterventionContext (library s) (protectionCache s) (page_assets s) ev forbidden_response h w)
       (\<lambda>(r, h, w). Inr (Immediate r, h, w))"

text \<open>
  The common end of the four cases: evaluate, note the call, and answer with an immediate response if
  the library intervened and with \<open>ok\<close> otherwise.
\<close>

definition evaluate ::
    "('w, 'b, 'd) xproc \<Rightarrow> (WafieEvaluationRequest \<Rightarrow> c_heap \<Rightarrow> 'w \<Rightarrow> bool \<times> WafieEvaluationRequest \<times> c_heap \<times> 'w) \<Rightarrow>
     lib_event \<Rightarrow> ProcessingResponse \<Rightarrow> WafieEvaluationRequest \<Rightarrow> c_heap \<Rightarrow> 'w stream_state
      \<Rightarrow> (ProcessingResponse option \<times> 'w stream_state) res" where
  "evaluate s f e ok ev h st =
     (let (intervened, ev, h, w) = f ev h (lib_state st);
          st = st\<lparr>evalRequest := Some ev, lib_events := lib_events st @ [e]\<rparr>
      in if intervened
         then bind_res (interventionResponse s ev h w)
                (\<lambda>(resp, h, w). Inr (Some resp, st\<lparr>memory := h, lib_state := w\<rparr>))
         else Inr (Some ok, st\<lparr>memory := h, lib_state := w\<rparr>))"

text \<open>One received message: the response (\<open>None\<close> is a nil response) and the new state.\<close>

definition ext_proc_attributes :: "(string \<rightharpoonup> (string \<rightharpoonup> pb_value)) \<Rightarrow> string \<rightharpoonup> pb_value" where
  "ext_proc_attributes attributes =
     (case attributes ''envoy.filters.http.ext_proc'' of None \<Rightarrow> Map.empty | Some attrs \<Rightarrow> attrs)"

definition handle ::
    "('w, 'b, 'd) xproc \<Rightarrow> 'b ProcessingRequest \<Rightarrow> 'w stream_state
      \<Rightarrow> (ProcessingResponse option \<times> 'w stream_state) res" where
  "handle s req st = (case Request req of
       RequestHeaders None \<Rightarrow> Inl Null_Dereference
     | RequestHeaders (Some hdrs) \<Rightarrow>
         bind_res (InitEvalRequest (library s) (NewEnvoyRequestAttributes (ext_proc_attributes (Attributes req)))
                     hdrs (getProtectionId hdrs) (memory st) (lib_state st))
           (\<lambda>(ev, h, w). evaluate s (ProcessRequestHeaders (library s)) Eval_Request_Headers RequestHeadersResponse ev h
              (st\<lparr>evalRequest := Some ev, lib_state := w, lib_events := lib_events st @ [Init]\<rparr>))
     | RequestBody b \<Rightarrow>
         bind_res (SetRequestBody (body_String s b) (evalRequest st) (memory st))
           (\<lambda>(ev, h). evaluate s (ProcessRequestBody (library s)) Eval_Request_Body RequestBodyResponse ev h st)
     | ResponseHeaders None \<Rightarrow> Inl Null_Dereference
     | ResponseHeaders (Some hdrs) \<Rightarrow>
         bind_res (SetResponseHeaders hdrs (evalRequest st) (memory st))
           (\<lambda>(ev, h). evaluate s (ProcessResponseHeaders (library s)) Eval_Response_Headers ResponseHeadersResponse ev h st)
     | ResponseBody b \<Rightarrow>
         bind_res (SetResponseBody (body_String s b) (evalRequest st) (memory st))
           (\<lambda>(ev, h). evaluate s (ProcessRequestBody (library s)) Eval_Request_Body ResponseBodyResponse ev h st)
     | OtherRequest \<Rightarrow> Inr (None, st))"

section \<open>The loop\<close>

text \<open>
  What \<open>stream.Recv\<close> gives; with a message comes the error, if any, of sending its response.  The loop
  returns on the end of the stream and on errors, after the deferred clean-up; \<open>Waiting\<close> is a stream
  that has delivered nothing more yet.
\<close>

datatype 'b recv = Message "'b ProcessingRequest" "string option" | EOF | Recv_Error string

datatype outcome = Waiting | Returned "string option"

definition clean_up :: "('w, 'b, 'd) xproc \<Rightarrow> 'w stream_state \<Rightarrow> 'w stream_state" where
  "clean_up s st = (case evalRequest st of None \<Rightarrow> st
     | Some ev \<Rightarrow> (let (ev, h, w) = DestroyTransaction (library s) ev (memory st) (lib_state st)
                   in st\<lparr>evalRequest := Some ev, memory := h, lib_state := w, lib_events := lib_events st @ [Cleanup]\<rparr>))"

fun Process :: "('w, 'b, 'd) xproc \<Rightarrow> 'b recv list \<Rightarrow> 'w stream_state \<Rightarrow> (outcome \<times> 'w stream_state) res" where
  "Process s [] st = Inr (Waiting, st)"
| "Process s (EOF # evs) st = Inr (Returned None, clean_up s st)"
| "Process s (Recv_Error e # evs) st = Inr (Returned (Some e), clean_up s st)"
| "Process s (Message req send_error # evs) st =
     bind_res (handle s req st) (\<lambda>(resp, st).
       case send_error of
         None \<Rightarrow> Process s evs (st\<lparr>sent := sent st @ [resp]\<rparr>)
       | Some e \<Rightarrow> Inr (Returned (Some e), clean_up s st))"

definition stream_start :: "c_heap \<Rightarrow> 'w \<Rightarrow> 'w stream_state" where
  "stream_start h w = \<lparr>evalRequest = None, memory = h, lib_state = w, lib_events = [], sent = []\<rparr>"

section \<open>What a stream does\<close>

text \<open>The messages that are handled, and those whose response is sent.\<close>

fun handled :: "'b recv list \<Rightarrow> 'b ProcessingRequest list" where
  "handled (Message req None # evs) = req # handled evs"
| "handled (Message req (Some e) # evs) = [req]"
| "handled _ = []"

fun answered :: "'b recv list \<Rightarrow> 'b ProcessingRequest list" where
  "answered (Message req None # evs) = req # answered evs"
| "answered _ = []"

fun is_request_headers :: "'b request_case \<Rightarrow> bool" where
  "is_request_headers (RequestHeaders hdrs) = True"
| "is_request_headers _ = False"

text \<open>The calls of the library that a message leads to, and the answer to it without an intervention.\<close>

fun message_events :: "'b request_case \<Rightarrow> lib_event list" where
  "message_events (RequestHeaders hdrs) = [Init, Eval_Request_Headers]"
| "message_events (RequestBody b) = [Eval_Request_Body]"
| "message_events (ResponseHeaders hdrs) = [Eval_Response_Headers]"
| "message_events (ResponseBody b) = [Eval_Request_Body]"
| "message_events OtherRequest = []"

fun reply_kind :: "'b request_case \<Rightarrow> ProcessingResponse option" where
  "reply_kind (RequestHeaders hdrs) = Some RequestHeadersResponse"
| "reply_kind (RequestBody b) = Some RequestBodyResponse"
| "reply_kind (ResponseHeaders hdrs) = Some ResponseHeadersResponse"
| "reply_kind (ResponseBody b) = Some ResponseBodyResponse"
| "reply_kind OtherRequest = None"

lemma evaluate_result:
  assumes "evaluate s f e ok ev h st = Inr (resp, st')"
  shows "lib_events st' = lib_events st @ [e] \<and> sent st' = sent st \<and> evalRequest st' \<noteq> None
    \<and> (resp = Some ok \<or> (\<exists>r. resp = Some (Immediate r)))"
proof -
  obtain i ev1 h1 w1 where f: "f ev h (lib_state st) = (i, ev1, h1, w1)" by (metis prod_cases4)
  show ?thesis
    using assms by (cases i) (auto simp: evaluate_def f interventionResponse_def bind_res_eq_Inr_iff)
qed

lemma handle_result:
  assumes "handle s req st = Inr (resp, st')"
  shows "lib_events st' = lib_events st @ message_events (Request req) \<and> sent st' = sent st
    \<and> (evalRequest st' \<noteq> None \<longleftrightarrow> evalRequest st \<noteq> None \<or> is_request_headers (Request req))
    \<and> (resp = reply_kind (Request req) \<or> (\<exists>r. resp = Some (Immediate r)))"
proof (cases "Request req")
  case (RequestHeaders hdrs)
  with assms show ?thesis
    by (cases hdrs) (auto simp: handle_def bind_res_eq_Inr_iff dest!: evaluate_result)
next
  case (RequestBody b)
  with assms show ?thesis
    by (cases "evalRequest st") (auto simp: handle_def SetRequestBody_def split: prod.splits dest!: evaluate_result)
next
  case (ResponseHeaders hdrs)
  with assms show ?thesis
    by (cases hdrs; cases "evalRequest st")
      (auto simp: handle_def SetResponseHeaders_def bind_res_eq_Inr_iff split: prod.splits dest!: evaluate_result)
next
  case (ResponseBody b)
  with assms show ?thesis
    by (cases "evalRequest st") (auto simp: handle_def SetResponseBody_def split: prod.splits dest!: evaluate_result)
next
  case OtherRequest
  with assms show ?thesis by (simp add: handle_def)
qed

lemma clean_up_events:
  "lib_events (clean_up s st) = lib_events st @ (if evalRequest st = None then [] else [Cleanup])"
  "sent (clean_up s st) = sent st"
  by (auto simp: clean_up_def split: option.splits prod.splits)

lemma Process_events:
  assumes "Process s evs st = Inr (Returned r, st')"
  shows "lib_events st' = lib_events st @ concat (map (\<lambda>req. message_events (Request req)) (handled evs))
    @ (if evalRequest st \<noteq> None \<or> (\<exists>req \<in> set (handled evs). is_request_headers (Request req)) then [Cleanup] else [])"
  using assms
proof (induction s evs st arbitrary: st' rule: Process.induct)
  case (4 s req send_error evs st)
  then obtain resp st1 where h: "handle s req st = Inr (resp, st1)" by (auto simp: bind_res_eq_Inr_iff)
  note hr = handle_result [OF h]
  show ?case
  proof (cases send_error)
    case None
    with 4(1) [OF None, of st1 resp] 4(2) h
    have "lib_events st' = lib_events (st1\<lparr>sent := sent st1 @ [resp]\<rparr>)
        @ concat (map (\<lambda>req. message_events (Request req)) (handled evs))
        @ (if evalRequest (st1\<lparr>sent := sent st1 @ [resp]\<rparr>) \<noteq> None
             \<or> (\<exists>req \<in> set (handled evs). is_request_headers (Request req)) then [Cleanup] else [])"
      by auto
    with None hr show ?thesis by auto
  next
    case (Some e)
    with 4(2) h hr show ?thesis by (auto simp: clean_up_events)
  qed
qed (auto simp: clean_up_events)

lemma Process_answers:
  assumes "Process s evs st = Inr (o', st')"
  shows "\<exists>resps. sent st' = sent st @ resps \<and>
    list_all2 (\<lambda>req resp. resp = reply_kind (Request req) \<or> (\<exists>r. resp = Some (Immediate r))) (answered evs) resps"
  using assms
proof (induction s evs st arbitrary: st' rule: Process.induct)
  case (4 s req send_error evs st)
  then obtain resp st1 where h: "handle s req st = Inr (resp, st1)" by (auto simp: bind_res_eq_Inr_iff)
  note hr = handle_result [OF h]
  show ?case
  proof (cases send_error)
    case None
    with 4(1) [OF None, of st1 resp] 4(2) h obtain resps where
      "sent st' = sent (st1\<lparr>sent := sent st1 @ [resp]\<rparr>) @ resps"
      "list_all2 (\<lambda>req resp. resp = reply_kind (Request req) \<or> (\<exists>r. resp = Some (Immediate r))) (answered evs) resps"
      by auto
    with None hr show ?thesis by (intro exI [of _ "resp # resps"]) auto
  next
    case (Some e)
    with 4(2) h hr show ?thesis by (auto simp: clean_up_events)
  qed
qed (auto simp: clean_up_events)

section \<open>Panics\<close>

text \<open>
  What the loop relies on in the library: it keeps the C memory well-formed, leaves in the request a
  null or readable \<open>intervention_url\<close>, and \<open>wafie_get_header\<close> does not release its argument and returns
  null or a readable string.
\<close>

definition eval_ok :: "'w lib_eval \<Rightarrow> bool" where
  "eval_ok f \<longleftrightarrow> (\<forall>ev h w r ev' h' w'. store_ok h \<longrightarrow> f ev h w = (r, ev', h', w') \<longrightarrow>
     store_ok h' \<and> (\<exists>t. GoString (intervention_url ev') h' = Inr t))"

definition lib_ok :: "'w libwafie \<Rightarrow> bool" where
  "lib_ok lib \<longleftrightarrow> eval_ok (wafie_process_request_headers lib) \<and> eval_ok (wafie_process_request_body lib)
     \<and> eval_ok (wafie_process_response_headers lib)
     \<and> (\<forall>ev h w ev' h' w'. store_ok h \<longrightarrow> wafie_init_transaction lib ev h w = (ev', h', w') \<longrightarrow> store_ok h')
     \<and> (\<forall>ev a h w p h' w'. store_ok h \<longrightarrow> a \<in> live h \<longrightarrow> wafie_get_header lib ev a h w = (p, h', w') \<longrightarrow>
          store_ok h' \<and> a \<in> live h' \<and> (\<exists>t. GoString p h' = Inr t))"

lemma action_body_ok:
  assumes "lib_ok lib" and "store_ok h"
  shows "\<exists>body h' w'. action_body lib cache a params ev h w = Inr (body, h', w') \<and> store_ok h'"
proof (cases "values_get params ''action'' = ''headerCheck''")
  case True
  obtain n h1 where 1: "CString (values_get params ''headerName'') h = (n, h1)" by fastforce
  note l = CString_laws [OF assms(2) 1]
  obtain p h2 w2 where 2: "wafie_get_header lib ev n h1 w = (p, h2, w2)" by (metis prod_cases3)
  with assms(1) l have 3: "store_ok h2" "n \<in> live h2" "\<exists>t. GoString p h2 = Inr t"
    unfolding lib_ok_def by (metis insertI1)+
  from obj.dealloc_live [OF 3(2)] 3(1) obtain h3 where "delete_obj h2 n = Inr h3" "store_ok h3" by blast
  with True 1 2 3(3) show ?thesis by (auto simp: action_body_def)
next
  case False
  with assms(2) show ?thesis by (auto simp: action_body_def Let_def split: option.splits)
qed

lemma interventionResponse_ok:
  assumes "lib_ok (library s)" and "store_ok h" and "GoString (intervention_url ev) h = Inr t"
  shows "\<exists>resp h' w'. interventionResponse s ev h w = Inr (resp, h', w') \<and> store_ok h'"
proof -
  have "\<exists>r h' w'. EnrichWithInterventionContext (library s) (protectionCache s) (page_assets s) ev forbidden_response h w
      = Inr (r, h', w') \<and> store_ok h'"
  proof (cases "parse_query (replace_all t InterventionContextKey [])")
    case None
    with assms(2,3) show ?thesis by (auto simp: EnrichWithInterventionContext_def)
  next
    case (Some params)
    with assms(2,3) action_body_ok [OF assms(1,2), of "protectionCache s" "page_assets s" params ev w]
    show ?thesis by (auto simp: EnrichWithInterventionContext_def)
  qed
  then show ?thesis by (auto simp: interventionResponse_def)
qed

text \<open>The evaluations that the loop uses, as steps that leave a readable URL.\<close>

definition step_ok :: "(WafieEvaluationRequest \<Rightarrow> c_heap \<Rightarrow> 'w \<Rightarrow> bool \<times> WafieEvaluationRequest \<times> c_heap \<times> 'w) \<Rightarrow> bool" where
  "step_ok f \<longleftrightarrow> (\<forall>ev h w i ev' h' w'. store_ok h \<longrightarrow> f ev h w = (i, ev', h', w') \<longrightarrow>
     store_ok h' \<and> (\<exists>t. GoString (intervention_url ev') h' = Inr t))"

lemma eval_step:
  assumes "eval_ok g" and "\<And>ev h w. f ev h w = (case g ev h w of (r, ev, h, w) \<Rightarrow> (r \<noteq> 0, ev, h, w))"
  shows "step_ok f"
  unfolding step_ok_def
proof (intro allI impI)
  fix ev h w i ev' h' w'
  assume h: "store_ok h" and f: "f ev h w = (i, ev', h', w')"
  obtain r ev1 h1 w1 where g: "g ev h w = (r, ev1, h1, w1)" by (metis prod_cases4)
  with f assms(2) have "ev1 = ev'" "h1 = h'" by auto
  with assms(1) h g show "store_ok h' \<and> (\<exists>t. GoString (intervention_url ev') h' = Inr t)"
    unfolding eval_ok_def by blast
qed

lemma steps_ok:
  assumes "lib_ok lib"
  shows "step_ok (ProcessRequestHeaders lib)" and "step_ok (ProcessRequestBody lib)"
    and "step_ok (ProcessResponseHeaders lib)"
proof -
  have e: "eval_ok (wafie_process_request_headers lib)" "eval_ok (wafie_process_request_body lib)"
      "eval_ok (wafie_process_response_headers lib)"
    using assms unfolding lib_ok_def by blast+
  show "step_ok (ProcessRequestHeaders lib)" by (rule eval_step [OF e(1)]) (simp add: ProcessRequestHeaders_def)
  show "step_ok (ProcessRequestBody lib)" by (rule eval_step [OF e(2)]) (simp add: ProcessRequestBody_def)
  show "step_ok (ProcessResponseHeaders lib)" by (rule eval_step [OF e(3)]) (simp add: ProcessResponseHeaders_def)
qed

lemma evaluate_ok:
  assumes "lib_ok (library s)" and "step_ok f" and "store_ok h"
  shows "\<exists>resp st'. evaluate s f e ok ev h st = Inr (resp, st') \<and> store_ok (memory st')"
proof -
  obtain i ev1 h1 w1 where f: "f ev h (lib_state st) = (i, ev1, h1, w1)" by (metis prod_cases4)
  with assms(2,3) obtain t where t: "store_ok h1" "GoString (intervention_url ev1) h1 = Inr t"
    unfolding step_ok_def by blast
  show ?thesis
  proof (cases i)
    case True
    with f interventionResponse_ok [OF assms(1) t, of w1] show ?thesis by (auto simp: evaluate_def)
  next
    case False
    with f t show ?thesis by (simp add: evaluate_def)
  qed
qed

text \<open>
  The message that makes the loop panic: a header message without its map, or any message about a
  request before its headers (\<open>have\<close>: the headers have arrived).
\<close>

fun acceptable :: "bool \<Rightarrow> 'b request_case \<Rightarrow> bool" where
  "acceptable have (RequestHeaders hdrs) = (hdrs \<noteq> None)"
| "acceptable have (RequestBody b) = have"
| "acceptable have (ResponseHeaders hdrs) = (have \<and> hdrs \<noteq> None)"
| "acceptable have (ResponseBody b) = have"
| "acceptable have OtherRequest = True"

fun well_ordered :: "bool \<Rightarrow> 'b request_case list \<Rightarrow> bool" where
  "well_ordered have [] = True"
| "well_ordered have (r # rs) = (acceptable have r \<and> well_ordered (have \<or> is_request_headers r) rs)"

lemma InitEvalRequest_ok:
  assumes "lib_ok lib" and "store_ok h"
  shows "\<exists>ev h' w'. InitEvalRequest lib attr hdrs pid h w = Inr (ev, h', w') \<and> store_ok h'"
proof -
  from build_request_spec [OF assms(2), of attr hdrs pid] obtain ev h1 where 1: "build_request attr hdrs pid h = Inr (ev, h1)" "store_ok h1"
    by blast
  obtain ev' h' w' where 2: "wafie_init_transaction lib ev h1 w = (ev', h', w')" by (metis prod_cases3)
  with assms(1) 1(2) have "store_ok h'" unfolding lib_ok_def by blast
  with 1 2 show ?thesis by (simp add: InitEvalRequest_def)
qed

lemma handle_total:
  assumes "lib_ok (library s)" and "store_ok (memory st)" and "acceptable (evalRequest st \<noteq> None) (Request req)"
  shows "\<exists>resp st'. handle s req st = Inr (resp, st') \<and> store_ok (memory st')"
proof (cases "Request req")
  case (RequestHeaders hdrs)
  then obtain hs where hs: "hdrs = Some hs" using assms(3) by auto
  from InitEvalRequest_ok [OF assms(1,2)] obtain ev h' w' where
    1: "InitEvalRequest (library s) (NewEnvoyRequestAttributes (ext_proc_attributes (Attributes req))) hs
      (getProtectionId hs) (memory st) (lib_state st) = Inr (ev, h', w')" "store_ok h'"
    by blast
  from evaluate_ok [OF assms(1) steps_ok(1) [OF assms(1)] 1(2)] 1(1) RequestHeaders hs show ?thesis
    by (simp add: handle_def)
next
  case (RequestBody b)
  then obtain ev where ev: "evalRequest st = Some ev" using assms(3) by auto
  obtain p h' where 1: "CString (body_String s b) (memory st) = (p, h')" by fastforce
  from evaluate_ok [OF assms(1) steps_ok(2) [OF assms(1)] CString_laws(1) [OF assms(2) 1]] 1 RequestBody ev
  show ?thesis by (simp add: handle_def SetRequestBody_def)
next
  case (ResponseHeaders hdrs)
  then obtain hs ev where hs: "hdrs = Some hs" and ev: "evalRequest st = Some ev" using assms(3) by auto
  obtain arr h1 where 1: "malloc_headers (length hs) (memory st) = (arr, h1)" by fastforce
  from fill_headers_spec [OF assms(2) 1] obtain h' where 2: "put_headers arr 0 hs h1 = Inr h'" "store_ok h'" by blast
  from evaluate_ok [OF assms(1) steps_ok(3) [OF assms(1)] 2(2)] 1 2(1) ResponseHeaders hs ev show ?thesis
    by (simp add: handle_def SetResponseHeaders_def)
next
  case (ResponseBody b)
  then obtain ev where ev: "evalRequest st = Some ev" using assms(3) by auto
  obtain p h' where 1: "CString (body_String s b) (memory st) = (p, h')" by fastforce
  from evaluate_ok [OF assms(1) steps_ok(2) [OF assms(1)] CString_laws(1) [OF assms(2) 1]] 1 ResponseBody ev
  show ?thesis by (simp add: handle_def SetResponseBody_def)
next
  case OtherRequest
  with assms(2) show ?thesis by (simp add: handle_def)
qed

lemma handle_panics:
  "\<not> acceptable (evalRequest st \<noteq> None) (Request req) \<Longrightarrow> handle s req st = Inl Null_Dereference"
  by (cases "Request req")
    (auto simp: handle_def SetRequestBody_def SetResponseHeaders_def SetResponseBody_def split: option.splits)

lemma Process_total_iff:
  assumes "lib_ok (library s)" and "store_ok (memory st)"
  shows "(\<exists>r. Process s evs st = Inr r) \<longleftrightarrow> well_ordered (evalRequest st \<noteq> None) (map Request (handled evs))"
  using assms
proof (induction s evs st rule: Process.induct)
  case (4 s req send_error evs st)
  show ?case
  proof (cases "acceptable (evalRequest st \<noteq> None) (Request req)")
    case True
    from handle_total [OF 4(2,3) True] obtain resp st1 where
      h: "handle s req st = Inr (resp, st1)" "store_ok (memory st1)" by blast
    note hr = handle_result [OF h(1)]
    show ?thesis
    proof (cases send_error)
      case None
      with 4(1) [OF None, of st1 resp] 4(2) h hr True show ?thesis by auto
    next
      case (Some e)
      with h True show ?thesis by simp
    qed
  next
    case False
    with handle_panics [OF False, of s] show ?thesis by (cases send_error) auto
  qed
qed auto

section \<open>Properties\<close>

text \<open>A library that intervenes on no request, and a stream with all four messages.\<close>

definition quiet_eval :: "unit lib_eval" where
  "quiet_eval ev h w = (0, ev\<lparr>intervention_url := None\<rparr>, h, w)"

definition quiet_lib :: "unit libwafie" where
  "quiet_lib = \<lparr>wafie_init = id, wafie_init_transaction = (\<lambda>ev h w. (ev, h, w)), wafie_cleanup = (\<lambda>ev h w. (ev, h, w)),
     wafie_load_rule_sets = (\<lambda>cfg n h w. (h, w)), wafie_process_request_headers = quiet_eval,
     wafie_process_request_body = quiet_eval, wafie_process_response_headers = quiet_eval,
     wafie_process_response_body = quiet_eval, wafie_get_header = (\<lambda>ev a h w. (None, h, w))\<rparr>"

definition quiet_xproc :: "(unit, string, unit) xproc" where
  "quiet_xproc = \<lparr>library = quiet_lib, body_String = id, protectionCache = Map.empty,
     page_assets = \<lparr>asset_file = Map.empty, render = (\<lambda>t d. None)\<rparr>\<rparr>"

definition message :: "string request_case \<Rightarrow> string recv" where
  "message r = Message \<lparr>Request = r, Attributes = Map.empty\<rparr> None"

definition sample_stream :: "string recv list" where
  "sample_stream = [message (RequestHeaders (Some sample_headers)), message (RequestBody ''a=1''),
     message (ResponseHeaders (Some [])), message (ResponseBody ''ok''), EOF]"

lemma sample_stream_returns:
  "\<exists>st. Process quiet_xproc sample_stream (stream_start empty_store ()) = Inr (Returned None, st)"
  by (simp add: sample_stream_def message_def quiet_xproc_def quiet_lib_def quiet_eval_def handle_def
      InitEvalRequest_def build_request_def put_header_def CString_def malloc_headers_def write_header_def new_obj_def
      read_obj_def write_obj_def evaluate_def ProcessRequestHeaders_def ProcessRequestBody_def
      ProcessResponseHeaders_def SetRequestBody_def SetResponseHeaders_def SetResponseBody_def
      stream_start_def sample_headers_def empty_store_def)

lemma lib_ok_quiet: "lib_ok quiet_lib"
  by (auto simp: lib_ok_def eval_ok_def quiet_lib_def quiet_eval_def)

text \<open>
  C1: Exactly which streams make the processor panic.  If the library keeps the C memory intact,
  \<open>Process\<close> runs through a sequence of messages without a panic if and only if every header message has
  its map and no message about a body or a response comes before the request headers; every other
  stream ends in a nil-pointer dereference, whatever the library does.
\<close>

theorem Process_panics_iff_out_of_order:
  assumes "lib_ok (library s)" and "store_ok h"
  shows "(\<exists>o' st. Process s evs (stream_start h w) = Inr (o', st)) \<longleftrightarrow> well_ordered False (map Request (handled evs))"
  using Process_total_iff [of s "stream_start h w" evs] assms by (simp add: stream_start_def)

theorem Process_panics_iff_out_of_order_witness:
  "(\<exists>o' st. Process quiet_xproc sample_stream (stream_start empty_store ()) = Inr (o', st))
   \<and> \<not> (\<exists>o' st. Process quiet_xproc [message (RequestBody ''a=1'')] (stream_start empty_store ()) = Inr (o', st))"
proof -
  have "lib_ok (library quiet_xproc)" using lib_ok_quiet by (simp add: quiet_xproc_def)
  note iff = Process_panics_iff_out_of_order [OF this, of empty_store]
  show ?thesis by (subst iff, simp)+ (simp add: sample_stream_def message_def)
qed

text \<open>
  C2: The life cycle of a transaction.  If a stream that returns has one message with request headers
  and it is the first, then the library's calls are: initialise the transaction, any evaluations, and
  at last clean it up, once, also when the stream ends with an error or a response cannot be sent.
\<close>

theorem transaction_is_cleaned_up_once:
  assumes "Process s evs (stream_start h w) = Inr (Returned r, st)"
    and "handled evs = req # reqs" and "is_request_headers (Request req)"
    and "\<forall>q \<in> set reqs. \<not> is_request_headers (Request q)"
  shows "\<exists>evals. lib_events st = Init # evals @ [Cleanup] \<and> set evals \<inter> {Init, Cleanup} = {}"
proof -
  have m: "set (message_events r) \<inter> {Init, Cleanup} = {}" if "\<not> is_request_headers r" for r
    using that by (cases r) auto
  have "message_events (Request req) = [Init, Eval_Request_Headers]"
    using assms(3) by (cases "Request req") auto
  with Process_events [OF assms(1)] assms(2,3)
  have "lib_events st = Init # (Eval_Request_Headers # concat (map (\<lambda>req. message_events (Request req)) reqs)) @ [Cleanup]"
    by (simp add: stream_start_def)
  moreover have "set (Eval_Request_Headers # concat (map (\<lambda>req. message_events (Request req)) reqs)) \<inter> {Init, Cleanup} = {}"
    using assms(4) m by fastforce
  ultimately show ?thesis by blast
qed

theorem transaction_is_cleaned_up_once_witness:
  "\<exists>st evals. Process quiet_xproc sample_stream (stream_start empty_store ()) = Inr (Returned None, st)
     \<and> lib_events st = Init # evals @ [Cleanup]"
proof -
  obtain st where st: "Process quiet_xproc sample_stream (stream_start empty_store ()) = Inr (Returned None, st)"
    using sample_stream_returns by blast
  show ?thesis
    using transaction_is_cleaned_up_once [OF st] st by (auto simp: sample_stream_def message_def)
qed

text \<open>
  More than one message with request headers on a stream leaks transactions: each such message
  initialises one, and only one, the last, is cleaned up when the stream returns.
\<close>

theorem each_header_message_starts_a_transaction:
  assumes "Process s evs (stream_start h w) = Inr (Returned r, st)"
  shows "count_list (lib_events st) Init = length (filter (\<lambda>q. is_request_headers (Request q)) (handled evs))
    \<and> count_list (lib_events st) Cleanup = (if \<exists>q \<in> set (handled evs). is_request_headers (Request q) then 1 else 0)"
proof -
  have i: "count_list (message_events r) Init = (if is_request_headers r then 1 else 0)"
      "count_list (message_events r) Cleanup = 0" for r
    by (cases r; simp)+
  have "count_list (concat (map (\<lambda>req. message_events (Request req)) qs)) Init
      = length (filter (\<lambda>q. is_request_headers (Request q)) qs)"
    "count_list (concat (map (\<lambda>req. message_events (Request req)) qs)) Cleanup = 0" for qs :: "'b ProcessingRequest list"
    by (induction qs) (simp_all add: i)
  with Process_events [OF assms] show ?thesis by (simp add: stream_start_def)
qed

theorem each_header_message_starts_a_transaction_witness:
  "\<exists>st. Process quiet_xproc [message (RequestHeaders (Some [])), message (RequestHeaders (Some [])), EOF]
        (stream_start empty_store ()) = Inr (Returned None, st)
     \<and> count_list (lib_events st) Init = 2 \<and> count_list (lib_events st) Cleanup = 1"
proof -
  let ?evs = "[message (RequestHeaders (Some [])), message (RequestHeaders (Some [])), EOF]"
  have "\<exists>st. Process quiet_xproc ?evs (stream_start empty_store ()) = Inr (Returned None, st)"
    by (simp add: message_def quiet_xproc_def quiet_lib_def quiet_eval_def handle_def
        InitEvalRequest_def build_request_def put_header_def CString_def malloc_headers_def write_header_def new_obj_def
        read_obj_def write_obj_def evaluate_def ProcessRequestHeaders_def stream_start_def empty_store_def)
  then obtain st where st: "Process quiet_xproc ?evs (stream_start empty_store ()) = Inr (Returned None, st)" by blast
  show ?thesis
    using each_header_message_starts_a_transaction [OF st] st by (auto simp: message_def)
qed

text \<open>
  Every response that is sent answers its message: it is the empty response of the message's kind
  or an immediate response (for a message of any other kind, a nil response).
\<close>

theorem responses_answer_in_kind:
  assumes "Process s evs (stream_start h w) = Inr (o', st)"
  shows "list_all2 (\<lambda>req resp. resp = reply_kind (Request req) \<or> (\<exists>r. resp = Some (Immediate r)))
    (answered evs) (sent st)"
  using Process_answers [OF assms] by (simp add: stream_start_def)

theorem responses_answer_in_kind_witness:
  "\<exists>st. Process quiet_xproc sample_stream (stream_start empty_store ()) = Inr (Returned None, st)
     \<and> length (sent st) = 4"
proof -
  obtain st where st: "Process quiet_xproc sample_stream (stream_start empty_store ()) = Inr (Returned None, st)"
    using sample_stream_returns by blast
  show ?thesis
    using responses_answer_in_kind [OF st, THEN list_all2_lengthD] st by (auto simp: sample_stream_def message_def)
qed

text \<open>
  Response bodies are never evaluated as such: no stream calls \<open>wafie_process_response_body\<close>, and a
  stream that returns calls \<open>wafie_process_request_body\<close> once for each request body and once more for
  each response body.
\<close>

theorem response_bodies_are_evaluated_as_request_bodies:
  assumes "Process s evs (stream_start h w) = Inr (Returned r, st)"
  shows "Eval_Response_Body \<notin> set (lib_events st)
    \<and> count_list (lib_events st) Eval_Request_Body =
        length (filter (\<lambda>q. case Request q of RequestBody b \<Rightarrow> True | ResponseBody b \<Rightarrow> True | _ \<Rightarrow> False) (handled evs))"
proof -
  have i: "Eval_Response_Body \<notin> set (message_events r)"
      "count_list (message_events r) Eval_Request_Body
        = (if case r of RequestBody b \<Rightarrow> True | ResponseBody b \<Rightarrow> True | _ \<Rightarrow> False then 1 else 0)" for r
    by (cases r; simp)+
  have "Eval_Response_Body \<notin> set (concat (map (\<lambda>req. message_events (Request req)) qs))"
    "count_list (concat (map (\<lambda>req. message_events (Request req)) qs)) Eval_Request_Body
      = length (filter (\<lambda>q. case Request q of RequestBody b \<Rightarrow> True | ResponseBody b \<Rightarrow> True | _ \<Rightarrow> False) qs)"
    for qs :: "'b ProcessingRequest list"
    by (induction qs) (simp_all add: i)
  with Process_events [OF assms] show ?thesis by (auto simp: stream_start_def)
qed

theorem response_bodies_are_evaluated_as_request_bodies_witness:
  "\<exists>st. Process quiet_xproc sample_stream (stream_start empty_store ()) = Inr (Returned None, st)
     \<and> count_list (lib_events st) Eval_Request_Body = 2"
proof -
  obtain st where st: "Process quiet_xproc sample_stream (stream_start empty_store ()) = Inr (Returned None, st)"
    using sample_stream_returns by blast
  show ?thesis
    using response_bodies_are_evaluated_as_request_bodies [OF st] st by (auto simp: sample_stream_def message_def)
qed

end
