(* ===== verification/Gateway_State.thy ===== *)
theory Gateway_State
  imports Wafie_Api Xproc_Server
begin

text \<open>
  A model of \<^verbatim>\<open>gateway/pkg/controlplane/state.go\<close> and \<^verbatim>\<open>utils.go\<close>: the Envoy listeners and clusters that the
  gateway builds from the protections.  The protobuf messages of Envoy are records with the fields that
  the code sets; a nil message is \<open>None\<close>.  \<open>anypb.New\<close> serialises a message and may fail: whether it
  succeeds is the parameter \<open>marshals\<close>.  The lemmas show when building panics, that what the listeners
  refer to is defined by the clusters, and how the filters fit to the external processor.
\<close>

section \<open>Envoy's messages\<close>

datatype HeaderSendMode = HEADER_DEFAULT | HEADER_SEND | HEADER_SKIP
datatype BodySendMode = BODY_NONE | BODY_STREAMED | BODY_BUFFERED

record ExternalProcessor =
  xp_ClusterName :: string
  xp_MessageTimeout :: nat  \<comment> \<open>seconds\<close>
  FailureModeAllow :: bool
  RequestHeaderMode :: HeaderSendMode
  ResponseHeaderMode :: HeaderSendMode
  RequestBodyMode :: BodySendMode
  ResponseBodyMode :: BodySendMode
  RequestAttributes :: "string list"
  AllowAllRouting :: bool
  AllowEnvoy :: bool

datatype HeaderAppendAction = APPEND_IF_EXISTS_OR_ADD | ADD_IF_ABSENT | OVERWRITE_IF_EXISTS_OR_ADD | OVERWRITE_IF_EXISTS

record HeaderMutation =
  hm_Key :: string
  hm_Value :: string
  hm_AppendAction :: HeaderAppendAction

datatype typed_config = ExtProcConfig ExternalProcessor | HeaderMutationConfig HeaderMutation | RouterConfig

record HttpFilter =
  hf_Name :: string
  hf_Config :: typed_config

record RouteAction =
  ra_Timeout :: nat
  ra_Cluster :: string
  AutoHostRewrite :: bool
  RequestMirrorPolicies :: "string list"  \<comment> \<open>the clusters that get a copy\<close>

record Route =
  rt_Name :: string
  rt_Prefix :: string
  rt_Action :: RouteAction

record VirtualHost =
  vh_Name :: string
  vh_Domains :: "string list"
  vh_Routes :: "Route list"

record HttpConnectionManager =
  StatPrefix :: string
  GenerateRequestId :: bool
  UseRemoteAddress :: bool
  hcm_XffNumTrustedHops :: uint32
  AccessLog :: "(string \<times> bool) list"  \<comment> \<open>names, and whether there is a configuration\<close>
  HttpFilters :: "HttpFilter option list"
  UpgradeConfigs :: "string list"
  RouteConfigName :: string
  VirtualHosts :: "VirtualHost list"

record Listener =
  ls_Name :: string
  ls_Address :: string
  ls_Port :: uint32
  ls_FilterName :: string
  ls_Config :: "HttpConnectionManager option"

datatype lb_address = SocketAddress string uint32 | Pipe string
datatype DiscoveryType = STATIC | STRICT_DNS
datatype DnsLookupFamily = DNS_AUTO | V4_ONLY

record Cluster =
  cl_Name :: string
  cl_Type :: DiscoveryType
  ConnectTimeout :: nat
  cl_DnsLookupFamily :: DnsLookupFamily
  cl_Http2 :: bool
  LoadAssignment :: "string \<times> lb_address list list"

text \<open>What is serialised.\<close>

datatype proto_msg =
    Msg_Config typed_config
  | Msg_StdoutAccessLog
  | Msg_HttpProtocolOptions
  | Msg_HttpConnectionManager HttpConnectionManager

definition anypb_New :: "(proto_msg \<Rightarrow> bool) \<Rightarrow> ('a \<Rightarrow> proto_msg) \<Rightarrow> 'a \<Rightarrow> 'a option" where
  "anypb_New marshals as_msg m = (if marshals (as_msg m) then Some m else None)"

section \<open>utils.go\<close>

definition shouldSkipProtection :: "Protection \<Rightarrow> bool" where
  "shouldSkipProtection p = (case prot_Application p of None \<Rightarrow> True | Some app \<Rightarrow> app_Ingress app = [])"

definition is_container_port :: "Port \<Rightarrow> bool" where
  "is_container_port port \<longleftrightarrow> PortType port = PORT_TYPE_CONTAINER_PORT"

definition protectionContainerPort :: "Protection \<Rightarrow> (string + Port) res" where
  "protectionContainerPort p = bind_res (protection_upstream p) (\<lambda>u.
     Inr (case find is_container_port (Ports u) of
            Some port \<Rightarrow> Inr port
          | None \<Rightarrow> Inl (''protectoin ['' @ dec_nat (unat (prot_Id p)) @ ''] does not have container ports'')))"

section \<open>state.go: filters and routes\<close>

definition wafieExtProcClusterName :: string where
  "wafieExtProcClusterName = ''wafie_xproc_cluster''"

definition gw_ProtectionIdHeader :: string where
  "gw_ProtectionIdHeader = ''x-wafie-protection-id''"

definition xproc_config :: ExternalProcessor where
  "xproc_config = \<lparr>xp_ClusterName = wafieExtProcClusterName, xp_MessageTimeout = 5, FailureModeAllow = False,
     RequestHeaderMode = HEADER_SEND, ResponseHeaderMode = HEADER_SEND, RequestBodyMode = BODY_BUFFERED,
     ResponseBodyMode = BODY_NONE,
     RequestAttributes = [''request.protocol'', ''request.method'', ''request.path'', ''source.address''],
     AllowAllRouting = True, AllowEnvoy = True\<rparr>"

definition wafieXprocFilter :: "(proto_msg \<Rightarrow> bool) \<Rightarrow> Protection \<Rightarrow> HttpFilter option" where
  "wafieXprocFilter marshals p =
     (if prot_Mode p \<noteq> PROTECTION_MODE_ON then None
      else map_option (\<lambda>cfg. \<lparr>hf_Name = ''envoy.filters.http.ext_proc'', hf_Config = cfg\<rparr>)
             (anypb_New marshals Msg_Config (ExtProcConfig xproc_config)))"

definition headerMutationFilter :: "(proto_msg \<Rightarrow> bool) \<Rightarrow> Protection \<Rightarrow> HttpFilter option" where
  "headerMutationFilter marshals p =
     map_option (\<lambda>cfg. \<lparr>hf_Name = ''envoy.filters.http.header_mutation'', hf_Config = cfg\<rparr>)
       (anypb_New marshals Msg_Config (HeaderMutationConfig
          \<lparr>hm_Key = gw_ProtectionIdHeader, hm_Value = dec_nat (unat (prot_Id p)),
           hm_AppendAction = OVERWRITE_IF_EXISTS_OR_ADD\<rparr>))"

definition httpRouterFilter :: "(proto_msg \<Rightarrow> bool) \<Rightarrow> HttpFilter option" where
  "httpRouterFilter marshals =
     map_option (\<lambda>cfg. \<lparr>hf_Name = ''envoy.filters.http.router'', hf_Config = cfg\<rparr>)
       (anypb_New marshals Msg_Config RouterConfig)"

definition httpFilters :: "(proto_msg \<Rightarrow> bool) \<Rightarrow> Protection \<Rightarrow> HttpFilter option list" where
  "httpFilters marshals p = [headerMutationFilter marshals p, wafieXprocFilter marshals p, httpRouterFilter marshals]"

definition mirroredClusterName :: "string \<Rightarrow> string" where
  "mirroredClusterName appName = appName @ ''-mirrored''"

text \<open>The mirror policy of an upstream, if there is one that is enabled.\<close>

definition enabled_mirror :: "Upstream \<Rightarrow> MirrorPolicy option" where
  "enabled_mirror u = (case up_MirrorPolicy u of None \<Rightarrow> None
     | Some mp \<Rightarrow> if mp_Status mp = MIRROR_POLICY_STATUS_ENABLED then Some mp else None)"

definition gw_routes :: "Protection \<Rightarrow> Route list res" where
  "gw_routes p = bind_res (protection_app p) (\<lambda>app.
     bind_res (protection_upstream p) (\<lambda>u.
       Inr [\<lparr>rt_Name = app_Name app, rt_Prefix = ''/'',
             rt_Action = \<lparr>ra_Timeout = 0, ra_Cluster = app_Name app, AutoHostRewrite = True,
               RequestMirrorPolicies = (if enabled_mirror u \<noteq> None then [mirroredClusterName (app_Name app)] else [])\<rparr>\<rparr>]))"

definition httpConnectionManager :: "(proto_msg \<Rightarrow> bool) \<Rightarrow> Protection \<Rightarrow> HttpConnectionManager res" where
  "httpConnectionManager marshals p = bind_res (deref (DesiredState p)) (\<lambda>desired.
     let trustedHops = (case XffNumTrustedHops desired of None \<Rightarrow> 0 | Some n \<Rightarrow> n) in
     bind_res (protection_app p) (\<lambda>app.
     bind_res (gw_routes p) (\<lambda>rs.
       Inr \<lparr>StatPrefix = ''http'', GenerateRequestId = True, UseRemoteAddress = False,
            hcm_XffNumTrustedHops = trustedHops,
            AccessLog = [(''envoy.access_loggers.stdout'', marshals Msg_StdoutAccessLog)],
            HttpFilters = httpFilters marshals p, UpgradeConfigs = [''websocket''],
            RouteConfigName = ''local_route'',
            VirtualHosts = [\<lparr>vh_Name = app_Name app, vh_Domains = [''*''], vh_Routes = rs\<rparr>]\<rparr>)))"

section \<open>state.go: listeners and clusters\<close>

text \<open>One round of the loop: a protection without a container port leaves a nil element.\<close>

definition gw_listener :: "(proto_msg \<Rightarrow> bool) \<Rightarrow> nat \<Rightarrow> Protection \<Rightarrow> Listener option res" where
  "gw_listener marshals i p = bind_res (httpConnectionManager marshals p) (\<lambda>mgr.
     bind_res (protectionContainerPort p) (\<lambda>port. case port of
       Inl err \<Rightarrow> Inr None
     | Inr port \<Rightarrow> Inr (Some \<lparr>ls_Name = ''listener-'' @ dec_nat i, ls_Address = ''0.0.0.0'',
                    ls_Port = ProxyListeningPort port,
                    ls_FilterName = ''envoy.filters.network.http_connection_manager'',
                    ls_Config = anypb_New marshals Msg_HttpConnectionManager mgr\<rparr>)))"

fun listeners_from :: "(proto_msg \<Rightarrow> bool) \<Rightarrow> nat \<Rightarrow> Protection list \<Rightarrow> Listener option list res" where
  "listeners_from marshals i [] = Inr []"
| "listeners_from marshals i (p # ps) = bind_res (gw_listener marshals i p) (\<lambda>l.
     bind_res (listeners_from marshals (Suc i) ps) (\<lambda>ls. Inr (l # ls)))"

definition gw_listeners :: "(proto_msg \<Rightarrow> bool) \<Rightarrow> Protection list \<Rightarrow> Listener option list res" where
  "gw_listeners marshals ps = listeners_from marshals 0 ps"

definition wafieXprocCluster :: "(proto_msg \<Rightarrow> bool) \<Rightarrow> string \<Rightarrow> Cluster option" where
  "wafieXprocCluster marshals xprocSocket =
     (if \<not> marshals Msg_HttpProtocolOptions then None
      else Some \<lparr>cl_Name = wafieExtProcClusterName, cl_Type = STATIC, ConnectTimeout = 5,
                 cl_DnsLookupFamily = DNS_AUTO, cl_Http2 = True,
                 LoadAssignment = (wafieExtProcClusterName, [[Pipe xprocSocket]])\<rparr>)"

definition gw_cluster :: "string \<Rightarrow> lb_address list \<Rightarrow> DiscoveryType \<Rightarrow> Cluster" where
  "gw_cluster name lbep t = \<lparr>cl_Name = name, cl_Type = t, ConnectTimeout = 20, cl_DnsLookupFamily = V4_ONLY,
     cl_Http2 = False, LoadAssignment = (name, [lbep])\<rparr>"

definition containerPortsEndpoints :: "Endpoint list \<Rightarrow> Port list \<Rightarrow> lb_address list" where
  "containerPortsEndpoints eps ports =
     concat (map (\<lambda>ep. map (\<lambda>port. SocketAddress (Ip ep) (Number port)) (filter is_container_port ports)) eps)"

definition mirror_address :: "MirrorPolicy \<Rightarrow> string" where
  "mirror_address mp = (if mp_Dns mp \<noteq> [] then mp_Dns mp else mp_Ip mp)"

definition protection_clusters :: "Protection \<Rightarrow> Cluster list res" where
  "protection_clusters p =
     (if shouldSkipProtection p then Inr []
      else bind_res (protection_app p) (\<lambda>app.
        bind_res (protection_upstream p) (\<lambda>u.
          Inr (gw_cluster (app_Name app) (containerPortsEndpoints (Endpoints u) (Ports u)) STATIC #
               (case enabled_mirror u of None \<Rightarrow> []
                | Some mp \<Rightarrow> [gw_cluster (mirroredClusterName (app_Name app))
                               [SocketAddress (mirror_address mp) (mp_Port mp)] STRICT_DNS])))))"

definition gw_clusters :: "(proto_msg \<Rightarrow> bool) \<Rightarrow> string \<Rightarrow> Protection list \<Rightarrow> Cluster option list res" where
  "gw_clusters marshals xprocSocket ps =
     bind_res (fold_res (\<lambda>cs p. bind_res (protection_clusters p) (\<lambda>new. Inr (cs @ map Some new))) [] ps) (\<lambda>cs.
       Inr (cs @ [wafieXprocCluster marshals xprocSocket]))"

type_synonym gw_resources = "Listener option list \<times> Cluster option list"

definition buildResources :: "(proto_msg \<Rightarrow> bool) \<Rightarrow> string \<Rightarrow> Protection list \<Rightarrow> gw_resources res" where
  "buildResources marshals xprocSocket ps =
     bind_res (gw_listeners marshals ps) (\<lambda>ls.
     bind_res (gw_clusters marshals xprocSocket ps) (\<lambda>cs. Inr (ls, cs)))"

section \<open>What building reads\<close>

text \<open>A protection with everything that the listeners dereference.\<close>

definition complete_protection :: "Protection \<Rightarrow> bool" where
  "complete_protection p \<longleftrightarrow> DesiredState p \<noteq> None \<and> (case prot_Application p of None \<Rightarrow> False
     | Some app \<Rightarrow> (case app_Ingress app of [] \<Rightarrow> False | ing # _ \<Rightarrow> ing_Upstream ing \<noteq> None))"

lemma complete_protectionE:
  assumes "complete_protection p"
  obtains d app ing ings u where "DesiredState p = Some d" "prot_Application p = Some app"
    "app_Ingress app = ing # ings" "ing_Upstream ing = Some u" "protection_app p = Inr app"
    "protection_upstream p = Inr u" "\<not> shouldSkipProtection p"
  using assms
  by (auto simp: complete_protection_def protection_upstream_def protection_app_def shouldSkipProtection_def
      split: option.splits list.splits)

lemma httpConnectionManager_complete:
  "httpConnectionManager marshals p = Inr mgr \<Longrightarrow> complete_protection p"
  by (auto simp: httpConnectionManager_def gw_routes_def complete_protection_def bind_res_eq_Inr_iff Let_def
      protection_app_def protection_upstream_eq_Inr)

lemma gw_listener_cases:
  assumes "complete_protection p"
  shows "\<exists>l. gw_listener marshals i p = Inr l"
  using assms
  by (elim complete_protectionE)
    (auto simp: gw_listener_def httpConnectionManager_def gw_routes_def protectionContainerPort_def Let_def split: sum.split)

lemma gw_listener_complete: "gw_listener marshals i p = Inr l \<Longrightarrow> complete_protection p"
  by (auto simp: gw_listener_def bind_res_eq_Inr_iff dest: httpConnectionManager_complete)

lemma listeners_from_total:
  "(\<exists>ls. listeners_from marshals i ps = Inr ls) \<longleftrightarrow> list_all complete_protection ps"
proof (induction ps arbitrary: i)
  case (Cons p ps)
  have "(\<exists>ls. listeners_from marshals i (p # ps) = Inr ls)
      \<longleftrightarrow> (\<exists>l. gw_listener marshals i p = Inr l) \<and> (\<exists>ls. listeners_from marshals (Suc i) ps = Inr ls)"
    by (auto simp: bind_res_eq_Inr_iff)
  also have "\<dots> \<longleftrightarrow> complete_protection p \<and> list_all complete_protection ps"
    unfolding Cons.IH using gw_listener_cases gw_listener_complete by blast
  finally show ?case by simp
qed simp

lemma listeners_from_nth:
  assumes "listeners_from marshals i ps = Inr ls"
  shows "length ls = length ps \<and> (\<forall>k < length ps. gw_listener marshals (i + k) (ps ! k) = Inr (ls ! k))"
  using assms
proof (induction ps arbitrary: i ls)
  case (Cons p ps)
  from Cons.prems obtain l ls' where ls: "gw_listener marshals i p = Inr l" "ls = l # ls'"
      "listeners_from marshals (Suc i) ps = Inr ls'"
    by (auto simp: bind_res_eq_Inr_iff)
  note IH = Cons.IH [OF ls(3)]
  have "gw_listener marshals (i + k) ((p # ps) ! k) = Inr (ls ! k)" if "k < length (p # ps)" for k
    using that ls(1,2) IH by (cases k) auto
  with IH ls(2) show ?case by simp
qed simp

text \<open>The clusters of the protections, in order, and the cluster of the external processor.\<close>

definition protection_cluster_list :: "Protection \<Rightarrow> Cluster list" where
  "protection_cluster_list p = (case protection_clusters p of Inl _ \<Rightarrow> [] | Inr cs \<Rightarrow> cs)"

lemma protection_clusters_total:
  "complete_protection p \<or> shouldSkipProtection p \<Longrightarrow> protection_clusters p = Inr (protection_cluster_list p)"
  by (elim disjE complete_protectionE) (auto simp: protection_clusters_def protection_cluster_list_def)

lemma gw_clusters_total:
  assumes "\<forall>p \<in> set ps. complete_protection p \<or> shouldSkipProtection p"
  shows "gw_clusters marshals sock ps =
    Inr (map Some (concat (map protection_cluster_list ps)) @ [wafieXprocCluster marshals sock])"
proof -
  have "fold_res (\<lambda>cs p. bind_res (protection_clusters p) (\<lambda>new. Inr (cs @ map Some new))) cs ps
      = Inr (cs @ map Some (concat (map protection_cluster_list ps)))" for cs
    using assms by (induction ps arbitrary: cs) (simp_all add: protection_clusters_total)
  then show ?thesis by (simp add: gw_clusters_def)
qed

lemma buildResources_total:
  assumes "list_all complete_protection ps"
  obtains ls where "gw_listeners marshals ps = Inr ls"
    and "buildResources marshals sock ps =
      Inr (ls, map Some (concat (map protection_cluster_list ps)) @ [wafieXprocCluster marshals sock])"
proof -
  from assms listeners_from_total [of marshals 0 ps] obtain ls where ls: "gw_listeners marshals ps = Inr ls"
    by (auto simp: gw_listeners_def)
  have "buildResources marshals sock ps =
      Inr (ls, map Some (concat (map protection_cluster_list ps)) @ [wafieXprocCluster marshals sock])"
    using ls gw_clusters_total [of ps marshals sock] assms by (simp add: buildResources_def list_all_iff)
  with ls that show ?thesis by blast
qed

lemma buildResources_complete: "buildResources marshals sock ps = Inr r \<Longrightarrow> list_all complete_protection ps"
  using listeners_from_total [of marshals 0 ps] by (auto simp: buildResources_def gw_listeners_def bind_res_eq_Inr_iff)

section \<open>References between listeners and clusters\<close>

definition filter_clusters :: "HttpFilter option \<Rightarrow> string list" where
  "filter_clusters f = (case f of None \<Rightarrow> [] | Some f \<Rightarrow>
     (case hf_Config f of ExtProcConfig x \<Rightarrow> [xp_ClusterName x] | _ \<Rightarrow> []))"

definition route_clusters :: "Route \<Rightarrow> string list" where
  "route_clusters r = ra_Cluster (rt_Action r) # RequestMirrorPolicies (rt_Action r)"

definition referenced_clusters :: "Listener \<Rightarrow> string list" where
  "referenced_clusters l = (case ls_Config l of None \<Rightarrow> [] | Some mgr \<Rightarrow>
     concat (map filter_clusters (HttpFilters mgr))
     @ concat (map (\<lambda>vh. concat (map route_clusters (vh_Routes vh))) (VirtualHosts mgr)))"

definition cluster_names :: "Cluster option list \<Rightarrow> string list" where
  "cluster_names cs = concat (map (\<lambda>c. case c of None \<Rightarrow> [] | Some c \<Rightarrow> [cl_Name c]) cs)"

lemma cluster_names_append [simp]:
  "cluster_names (xs @ ys) = cluster_names xs @ cluster_names ys"
  "cluster_names (map Some cs) = map cl_Name cs"
  by (simp_all add: cluster_names_def comp_def)

lemma httpConnectionManager_fields:
  assumes "httpConnectionManager marshals p = Inr mgr"
  shows "HttpFilters mgr = httpFilters marshals p" and "gw_routes p = Inr (concat (map vh_Routes (VirtualHosts mgr)))"
  using assms by (auto simp: httpConnectionManager_def bind_res_eq_Inr_iff Let_def)

lemma gw_listener_fields:
  assumes "gw_listener marshals i p = Inr (Some l)"
  obtains mgr port where "httpConnectionManager marshals p = Inr mgr" "protectionContainerPort p = Inr (Inr port)"
    "ls_Name l = ''listener-'' @ dec_nat i" "ls_Port l = ProxyListeningPort port"
    "ls_Config l = anypb_New marshals Msg_HttpConnectionManager mgr"
proof -
  from assms obtain mgr port where m: "httpConnectionManager marshals p = Inr mgr" "protectionContainerPort p = Inr port"
    "(case port of Inl err \<Rightarrow> Inr None | Inr port \<Rightarrow> Inr (Some \<lparr>ls_Name = ''listener-'' @ dec_nat i, ls_Address = ''0.0.0.0'',
        ls_Port = ProxyListeningPort port, ls_FilterName = ''envoy.filters.network.http_connection_manager'',
        ls_Config = anypb_New marshals Msg_HttpConnectionManager mgr\<rparr>)) = (Inr (Some l) :: Listener option res)"
    unfolding gw_listener_def bind_res_eq_Inr_iff by blast
  then show ?thesis using that by (cases port) auto
qed

lemma listener_references:
  assumes "gw_listener marshals i p = Inr (Some l)"
  shows "set (referenced_clusters l) \<subseteq> insert wafieExtProcClusterName (cl_Name ` set (protection_cluster_list p))"
proof -
  from gw_listener_complete [OF assms] obtain d app ing ings u where c: "DesiredState p = Some d"
      "prot_Application p = Some app" "protection_app p = Inr app" "protection_upstream p = Inr u" "\<not> shouldSkipProtection p"
    by (elim complete_protectionE)
  from assms have l: "ls_Config l = None \<or> (\<exists>mgr. ls_Config l = Some mgr \<and> HttpFilters mgr = httpFilters marshals p
      \<and> gw_routes p = Inr (concat (map vh_Routes (VirtualHosts mgr))))"
    by (elim gw_listener_fields) (auto simp: anypb_New_def httpConnectionManager_fields)
  have f: "set (concat (map filter_clusters (httpFilters marshals p))) \<subseteq> {wafieExtProcClusterName}"
    by (auto simp: httpFilters_def filter_clusters_def headerMutationFilter_def wafieXprocFilter_def httpRouterFilter_def
        anypb_New_def xproc_config_def)
  have r: "set (concat (map route_clusters rs)) \<subseteq> cl_Name ` set (protection_cluster_list p)" if "gw_routes p = Inr rs" for rs
    using that c by (auto simp: gw_routes_def protection_cluster_list_def protection_clusters_def route_clusters_def gw_cluster_def)
  have "set (concat (map (\<lambda>vh. concat (map route_clusters (vh_Routes vh))) vhs))
      = set (concat (map route_clusters (concat (map vh_Routes vhs))))" for vhs
    by auto
  then have refs: "set (referenced_clusters l) = set (concat (map filter_clusters (HttpFilters mgr)))
      \<union> set (concat (map route_clusters (concat (map vh_Routes (VirtualHosts mgr)))))" if "ls_Config l = Some mgr" for mgr
    using that by (simp add: referenced_clusters_def)
  show ?thesis
  proof (cases "ls_Config l")
    case (Some mgr)
    with l have m: "HttpFilters mgr = httpFilters marshals p" "gw_routes p = Inr (concat (map vh_Routes (VirtualHosts mgr)))"
      by auto
    show ?thesis
      unfolding refs [OF Some] m(1) by (subst insert_is_Un) (rule Un_mono [OF f r [OF m(2)]])
  qed (simp add: referenced_clusters_def)
qed

section \<open>Properties\<close>

text \<open>
  Building the resources panics exactly when some protection lacks its desired state, its
  application, an ingress or the upstream of its first ingress, whatever the others are.  The
  protections that \<open>clusters\<close> skips (no application or no ingress) are among them: the clusters alone
  can be built for those, the listeners cannot.
\<close>

theorem buildResources_panics_iff_incomplete:
  "((\<exists>e. buildResources marshals sock ps = Inl e) \<longleftrightarrow> (\<exists>p \<in> set ps. \<not> complete_protection p))
   \<and> ((\<forall>p \<in> set ps. shouldSkipProtection p) \<longrightarrow>
        gw_clusters marshals sock ps = Inr [wafieXprocCluster marshals sock]
        \<and> (ps \<noteq> [] \<longrightarrow> (\<exists>e. gw_listeners marshals ps = Inl e)))"
proof (intro conjI impI)
  have ok: "list_all complete_protection ps \<longleftrightarrow> (\<exists>r. buildResources marshals sock ps = Inr r)"
    using buildResources_total [of ps marshals sock] buildResources_complete [of marshals sock ps] by metis
  then show "(\<exists>e. buildResources marshals sock ps = Inl e) \<longleftrightarrow> (\<exists>p \<in> set ps. \<not> complete_protection p)"
    by (cases "buildResources marshals sock ps") (auto simp: list_all_iff)
next
  assume skip: "\<forall>p \<in> set ps. shouldSkipProtection p"
  then have "concat (map protection_cluster_list ps) = []"
    by (auto simp: protection_cluster_list_def protection_clusters_def)
  then show "gw_clusters marshals sock ps = Inr [wafieXprocCluster marshals sock]"
    using gw_clusters_total [of ps marshals sock] skip by simp
  have "\<not> complete_protection p" if "shouldSkipProtection p" for p
    using that by (auto simp: complete_protection_def shouldSkipProtection_def split: option.splits)
  then show "\<exists>e. gw_listeners marshals ps = Inl e" if "ps \<noteq> []"
    using that skip listeners_from_total [of marshals 0 ps]
    by (cases "gw_listeners marshals ps") (auto simp: gw_listeners_def list_all_iff neq_Nil_conv)
qed

text \<open>Example protections: one without an application, and one that is served and mirrored.\<close>

definition plain_desired_state :: ProtectionDesiredState where
  "plain_desired_state = \<lparr>v1_Waf = None, XffNumTrustedHops = None, v1_IpRules = None, v1_Auth = None, v1_AntiBot = None\<rparr>"

definition orphan_protection :: Protection where
  "orphan_protection = \<lparr>prot_Id = 3, ApplicationId = 9, prot_Application = None, prot_Mode = PROTECTION_MODE_ON,
     DesiredState = Some plain_desired_state\<rparr>"

definition shop_upstream :: Upstream where
  "shop_upstream = \<lparr>SvcFqdn = ''shop.default.svc'',
     Endpoints = [\<lparr>Ip = ''10.1.0.5'', NodeName = ''n1'', ep_Kind = ''Pod'', ep_Name = ''shop-0'', ep_Namespace = ''default''\<rparr>],
     Ports = [\<lparr>Number = 80, port_Name = ''http'', ProxyListeningPort = 0, port_Description = [],
                port_Status = PORT_STATUS_TYPE_ENABLED, PortType = PORT_TYPE_SVC_PORT\<rparr>,
              \<lparr>Number = 8080, port_Name = ''http'', ProxyListeningPort = 50010, port_Description = [],
                port_Status = PORT_STATUS_TYPE_ENABLED, PortType = PORT_TYPE_CONTAINER_PORT\<rparr>],
     up_RouteType = UPSTREAM_ROUTE_TYPE_PORT,
     up_MirrorPolicy = Some \<lparr>mp_Status = MIRROR_POLICY_STATUS_ENABLED, mp_Ip = ''10.2.0.1'', mp_Port = 9000, mp_Dns = []\<rparr>\<rparr>"

definition shop_protection :: Protection where
  "shop_protection = \<lparr>prot_Id = 12, ApplicationId = 4,
     prot_Application = Some \<lparr>app_Id = 4, app_Name = ''shop'',
       app_Ingress = [\<lparr>ing_Name = ''shop'', ing_Namespace = ''default'', ing_Host = ''shop.example'', ing_Port = 80,
         ing_Path = ''/'', ing_ApplicationId = 4, ing_Type = INGRESS_TYPE_NGINX,
         ing_DiscoveryStatus = DISCOVERY_STATUS_TYPE_SUCCESS, ing_DiscoveryMessage = [],
         ing_Upstream = Some shop_upstream, ing_Scheme = ''http''\<rparr>]\<rparr>,
     prot_Mode = PROTECTION_MODE_ON, DesiredState = Some (plain_desired_state\<lparr>XffNumTrustedHops := Some 1\<rparr>)\<rparr>"

lemma shop_protection_complete: "complete_protection shop_protection"
  by (simp add: complete_protection_def shop_protection_def)

theorem buildResources_panics_iff_incomplete_witness:
  "(\<exists>e. buildResources (\<lambda>_. True) ''/run/wafie.sock'' [shop_protection, orphan_protection] = Inl e)
   \<and> gw_clusters (\<lambda>_. True) ''/run/wafie.sock'' [orphan_protection] = Inr [wafieXprocCluster (\<lambda>_. True) ''/run/wafie.sock'']
   \<and> (\<exists>e. gw_listeners (\<lambda>_. True) [orphan_protection] = Inl e)"
  using buildResources_panics_iff_incomplete [of "\<lambda>_. True" "''/run/wafie.sock''" "[shop_protection, orphan_protection]"]
    buildResources_panics_iff_incomplete [of "\<lambda>_. True" "''/run/wafie.sock''" "[orphan_protection]"]
  by (simp add: orphan_protection_def shouldSkipProtection_def complete_protection_def)

text \<open>
  C5: The resources are consistent: every cluster that a listener refers to, as the target of a
  route, as the target of a mirror policy or as the external processor, is one of the clusters of the
  same version of the resources.
\<close>

theorem listeners_refer_to_clusters:
  assumes "buildResources marshals sock ps = Inr (ls, cs)" and "marshals Msg_HttpProtocolOptions"
    and "Some l \<in> set ls"
  shows "set (referenced_clusters l) \<subseteq> set (cluster_names cs)"
proof -
  from buildResources_total [OF buildResources_complete [OF assms(1)], of marshals sock] assms(1)
  have b: "gw_listeners marshals ps = Inr ls"
      "cs = map Some (concat (map protection_cluster_list ps)) @ [wafieXprocCluster marshals sock]"
    by auto
  from assms(3) obtain i where i: "i < length ls" "ls ! i = Some l" by (auto simp: in_set_conv_nth)
  from listeners_from_nth [OF b(1) [unfolded gw_listeners_def]] i
  have p: "i < length ps" "gw_listener marshals i (ps ! i) = Inr (Some l)" by auto
  have "cl_Name ` set (protection_cluster_list (ps ! i)) \<subseteq> set (cluster_names cs)"
    using nth_mem [OF p(1)] b(2) by force
  moreover have "wafieExtProcClusterName \<in> set (cluster_names cs)"
    using assms(2) b(2) by (simp add: wafieXprocCluster_def cluster_names_def)
  ultimately show ?thesis using listener_references [OF p(2)] by blast
qed

theorem listeners_refer_to_clusters_witness:
  "\<exists>l cs. buildResources (\<lambda>_. True) ''/run/wafie.sock'' [shop_protection] = Inr ([Some l], cs)
    \<and> set (referenced_clusters l) = {wafieExtProcClusterName, ''shop'', ''shop-mirrored''}
    \<and> set (referenced_clusters l) \<subseteq> set (cluster_names cs)"
proof -
  have "case buildResources (\<lambda>_. True) ''/run/wafie.sock'' [shop_protection] of
      Inr ([Some l], cs) \<Rightarrow> set (referenced_clusters l) = {wafieExtProcClusterName, ''shop'', ''shop-mirrored''}
    | _ \<Rightarrow> False"
    by code_simp
  then obtain l cs where "buildResources (\<lambda>_. True) ''/run/wafie.sock'' [shop_protection] = Inr ([Some l], cs)"
      "set (referenced_clusters l) = {wafieExtProcClusterName, ''shop'', ''shop-mirrored''}"
    by (auto split: sum.splits prod.splits list.splits option.splits) (metis neq_Nil_conv)+
  with listeners_refer_to_clusters [OF this(1)] show ?thesis by auto
qed

text \<open>
  C17: The protection of a request is passed from the gateway to the external processor.  If the first
  header named like the header that the mutation filter sets has the value that it sets, the processor
  reads the id of the protection, for every id; and the attributes that the gateway asks Envoy to send
  are those that the processor keeps.
\<close>

theorem protection_id_reaches_the_processor:
  assumes "headerMutationFilter marshals p = Some f" and "hf_Config f = HeaderMutationConfig hm"
    and "hm_Key hm \<notin> Key ` set pre" and "Key hdr = hm_Key hm" and "RawValue hdr = hm_Value hm"
  shows "getProtectionId (pre @ hdr # post) = prot_Id p
    \<and> set (RequestAttributes xproc_config) = dom (NewEnvoyRequestAttributes attributes)"
proof -
  have hm: "hm_Key hm = wafieProtectionIdHeader" "hm_Value hm = dec_nat (unat (prot_Id p))"
    using assms(1,2) by (auto simp: headerMutationFilter_def anypb_New_def gw_ProtectionIdHeader_def
        wafieProtectionIdHeader_def split: if_splits)
  have "getProtectionId (pre @ hdr # post) = getProtectionId (hdr # post)"
    using assms(3) hm(1) by (induction pre) auto
  moreover have "unat (prot_Id p) < 2 ^ 32" using unsigned_less [of "prot_Id p"] by simp
  ultimately have "getProtectionId (pre @ hdr # post) = prot_Id p"
    using assms(4,5) hm by (simp add: parse_uint_dec_nat)
  moreover have "set (RequestAttributes xproc_config) = dom (NewEnvoyRequestAttributes attributes)"
    by (auto simp: xproc_config_def NewEnvoyRequestAttributes_def split: if_splits)
  ultimately show ?thesis by simp
qed

theorem protection_id_reaches_the_processor_witness:
  "getProtectionId [\<lparr>Key = '':authority'', Value = [], RawValue = ''shop''\<rparr>,
     \<lparr>Key = ''x-wafie-protection-id'', Value = [], RawValue = ''12''\<rparr>] = prot_Id shop_protection"
proof -
  let ?hm = "\<lparr>hm_Key = ''x-wafie-protection-id'', hm_Value = ''12'', hm_AppendAction = OVERWRITE_IF_EXISTS_OR_ADD\<rparr>"
  have "headerMutationFilter (\<lambda>_. True) shop_protection =
      Some \<lparr>hf_Name = ''envoy.filters.http.header_mutation'', hf_Config = HeaderMutationConfig ?hm\<rparr>"
    by code_simp
  from protection_id_reaches_the_processor [OF this, of ?hm "[\<lparr>Key = '':authority'', Value = [], RawValue = ''shop''\<rparr>]"
      "\<lparr>Key = ''x-wafie-protection-id'', Value = [], RawValue = ''12''\<rparr>" "[]"]
  show ?thesis by (simp del: getProtectionId.simps)
qed

text \<open>
  Position, name and port of the listeners.  There is one element per protection, in order; it
  is nil exactly when the first ingress of the protection has no container port, and otherwise listens
  on the proxy port of the first container port; names of different listeners differ.
\<close>

theorem listeners_follow_the_protections:
  assumes "buildResources marshals sock ps = Inr (ls, cs)"
  shows "length ls = length ps \<and> (\<forall>i < length ps. \<exists>u. protection_upstream (ps ! i) = Inr u
      \<and> map_option ls_Port (ls ! i) = map_option ProxyListeningPort (find is_container_port (Ports u))
      \<and> (\<forall>j < length ps. i \<noteq> j \<longrightarrow> ls ! i \<noteq> None \<longrightarrow> map_option ls_Name (ls ! i) \<noteq> map_option ls_Name (ls ! j)))"
proof -
  from assms have "listeners_from marshals 0 ps = Inr ls"
    by (auto simp: buildResources_def gw_listeners_def bind_res_eq_Inr_iff)
  note n = listeners_from_nth [OF this]
  have name: "map_option ls_Name (ls ! i) = Some (''listener-'' @ dec_nat i)" if i: "i < length ps" "ls ! i \<noteq> None" for i
  proof -
    from i(2) obtain l where l: "ls ! i = Some l" by blast
    with i n have "gw_listener marshals i (ps ! i) = Inr (Some l)" by auto
    with l show ?thesis by (elim gw_listener_fields) simp
  qed
  have port: "\<exists>u. protection_upstream (ps ! i) = Inr u
      \<and> map_option ls_Port (ls ! i) = map_option ProxyListeningPort (find is_container_port (Ports u))" if "i < length ps" for i
  proof -
    have l: "gw_listener marshals i (ps ! i) = Inr (ls ! i)" using n that by simp
    from gw_listener_complete [OF l] obtain u where "protection_upstream (ps ! i) = Inr u"
      by (elim complete_protectionE)
    with l show ?thesis
      by (cases "ls ! i") (auto simp: gw_listener_def bind_res_eq_Inr_iff protectionContainerPort_def split: option.splits)
  qed
  have "map_option ls_Name (ls ! i) \<noteq> map_option ls_Name (ls ! j)"
    if "i < length ps" "j < length ps" "i \<noteq> j" "ls ! i \<noteq> None" for i j
    using name [OF that(1,4)] name [OF that(2)] that(3) by (cases "ls ! j") auto
  with n port show ?thesis by blast
qed

theorem listeners_follow_the_protections_witness:
  "\<exists>ls cs. buildResources (\<lambda>_. True) ''/run/wafie.sock'' [shop_protection] = Inr (ls, cs) \<and> length ls = 1
    \<and> map_option ls_Port (ls ! 0) = Some 50010"
proof -
  have "list_all complete_protection [shop_protection]" using shop_protection_complete by simp
  from buildResources_total [OF this, of "\<lambda>_. True" "''/run/wafie.sock''"] obtain ls cs where
    b: "buildResources (\<lambda>_. True) ''/run/wafie.sock'' [shop_protection] = Inr (ls, cs)"
    by metis
  with listeners_follow_the_protections [OF b] show ?thesis
    by (auto simp: shop_protection_def protection_upstream_def protection_app_def shop_upstream_def is_container_port_def)
qed

text \<open>
  The chain of HTTP filters of a listener.  If the three filter configurations can be serialised, the
  chain of a protection that is on is complete and ordered: the protection id is set before the external
  processor sees the request, which fails closed, and the router is last.  The chain of any other
  protection contains a nil filter.
\<close>

theorem filter_chain_is_complete_iff_on:
  assumes "\<forall>cfg. marshals (Msg_Config cfg)"
  shows "(None \<in> set (httpFilters marshals p) \<longleftrightarrow> prot_Mode p \<noteq> PROTECTION_MODE_ON)
    \<and> (prot_Mode p = PROTECTION_MODE_ON \<longrightarrow>
        map (map_option hf_Config) (httpFilters marshals p) =
          [Some (HeaderMutationConfig \<lparr>hm_Key = wafieProtectionIdHeader, hm_Value = dec_nat (unat (prot_Id p)),
              hm_AppendAction = OVERWRITE_IF_EXISTS_OR_ADD\<rparr>),
           Some (ExtProcConfig xproc_config), Some RouterConfig]
        \<and> \<not> FailureModeAllow xproc_config)"
  using assms by (auto simp: httpFilters_def headerMutationFilter_def wafieXprocFilter_def httpRouterFilter_def
      anypb_New_def xproc_config_def gw_ProtectionIdHeader_def wafieProtectionIdHeader_def)

theorem filter_chain_is_complete_iff_on_witness:
  "None \<notin> set (httpFilters (\<lambda>_. True) shop_protection)
    \<and> None \<in> set (httpFilters (\<lambda>_. True) (shop_protection\<lparr>prot_Mode := PROTECTION_MODE_OFF\<rparr>))"
  using filter_chain_is_complete_iff_on [of "\<lambda>_. True" shop_protection]
    filter_chain_is_complete_iff_on [of "\<lambda>_. True" "shop_protection\<lparr>prot_Mode := PROTECTION_MODE_OFF\<rparr>"]
  by (simp add: shop_protection_def)

end
