(* ===== verification/Gateway_ControlPlane.thy ===== *)
theory Gateway_ControlPlane
  imports Gateway_State
begin

text \<open>
  A model of \<^verbatim>\<open>gateway/pkg/controlplane/cp.go\<close>: a watcher that polls the version of the protections
  and builds new resources when it has changed, a channel with room for one version of the resources, and
  a generator that turns what it receives into snapshots of Envoy's cache.  The two loops run
  concurrently: they are a step relation on the state of the control plane.  The answers of the API
  server are inputs of the steps; the snapshot cache is a parameter.  Serving the cache to Envoy is input
  and output and left out.  The lemmas show that no version of the resources is lost or reordered between
  the loops, that pending versions can always be published, and what a failed request leads to.
\<close>

section \<open>State and rounds\<close>

text \<open>
  Besides the fields of the code: the resources that the watcher is waiting to send, and two histories,
  all resources built and all that the generator has taken, each with the version it gave them.
\<close>

record 'snap EnvoyControlPlane =
  stateVersion :: string
  pending :: "gw_resources option"
  resourcesCh :: "gw_resources list"
  cache_snapshot :: "'snap option"
  built :: "gw_resources list"
  taken :: "(string \<times> gw_resources) list"

record 'snap snapshot_cache =
  NewSnapshot :: "string \<Rightarrow> gw_resources \<Rightarrow> 'snap"
  Consistent :: "'snap \<Rightarrow> bool"
  SetSnapshot :: "'snap \<Rightarrow> bool"  \<comment> \<open>whether the cache accepts it\<close>

definition NewEnvoyControlPlane :: "'snap EnvoyControlPlane" where
  "NewEnvoyControlPlane = \<lparr>stateVersion = [], pending = None, resourcesCh = [], cache_snapshot = None,
     built = [], taken = []\<rparr>"

text \<open>The answer to the request for the version is \<open>None\<close> if it failed.\<close>

definition stateVersionChanged :: "string option \<Rightarrow> 'snap EnvoyControlPlane \<Rightarrow> bool \<times> 'snap EnvoyControlPlane" where
  "stateVersionChanged resp p = (case resp of None \<Rightarrow> (False, p)
     | Some v \<Rightarrow> if v = stateVersion p then (False, p) else (True, p\<lparr>stateVersion := v\<rparr>))"

text \<open>
  A round of the watcher up to the send, with the protections that the API server lists (\<open>None\<close>: the
  request failed).  It panics when building does.
\<close>

definition watch_round ::
    "(proto_msg \<Rightarrow> bool) \<Rightarrow> string \<Rightarrow> string option \<Rightarrow> Protection list option \<Rightarrow> 'snap EnvoyControlPlane
      \<Rightarrow> 'snap EnvoyControlPlane res" where
  "watch_round marshals sock resp listed p =
     (case stateVersionChanged resp p of
        (False, p) \<Rightarrow> Inr p
      | (True, p) \<Rightarrow> (case listed of None \<Rightarrow> Inr p
          | Some ps \<Rightarrow> bind_res (buildResources marshals sock ps) (\<lambda>r.
              Inr (p\<lparr>pending := Some r, built := built p @ [r]\<rparr>))))"

interpretation gateway_poll: version_poller "watch_round marshals sock" stateVersion "\<lambda>v p. p\<lparr>stateVersion := v\<rparr>"
  by unfold_locales (auto simp: watch_round_def stateVersionChanged_def)

text \<open>The send itself (\<open>None\<close>: it blocks), and a round of the generator with the random version number.\<close>

definition send_resources :: "'snap EnvoyControlPlane \<Rightarrow> 'snap EnvoyControlPlane option" where
  "send_resources p = (case pending p of None \<Rightarrow> None
     | Some r \<Rightarrow> map_option (\<lambda>c. p\<lparr>pending := None, resourcesCh := c\<rparr>) (chan_send 1 (resourcesCh p) r))"

definition accepted :: "'snap snapshot_cache \<Rightarrow> string \<times> gw_resources \<Rightarrow> bool" where
  "accepted api vr \<longleftrightarrow> (let snap = NewSnapshot api (fst vr) (snd vr) in Consistent api snap \<and> SetSnapshot api snap)"

definition generate_round ::
    "'snap snapshot_cache \<Rightarrow> string \<Rightarrow> 'snap EnvoyControlPlane \<Rightarrow> 'snap EnvoyControlPlane option" where
  "generate_round api version p = map_option (\<lambda>(r, c).
     let p = p\<lparr>resourcesCh := c, taken := taken p @ [(version, r)]\<rparr> in
     if accepted api (version, r) then p\<lparr>cache_snapshot := Some (NewSnapshot api version r)\<rparr> else p) (chan_recv (resourcesCh p))"

text \<open>The two loops.  The watcher starts a new round only when its send is done.\<close>

inductive cp_step :: "(proto_msg \<Rightarrow> bool) \<Rightarrow> string \<Rightarrow> 'snap snapshot_cache
    \<Rightarrow> 'snap EnvoyControlPlane \<Rightarrow> 'snap EnvoyControlPlane \<Rightarrow> bool"
  for marshals sock api where
  watch: "pending p = None \<Longrightarrow> watch_round marshals sock resp listed p = Inr p' \<Longrightarrow> cp_step marshals sock api p p'"
| send: "send_resources p = Some p' \<Longrightarrow> cp_step marshals sock api p p'"
| generate: "generate_round api version p = Some p' \<Longrightarrow> cp_step marshals sock api p p'"

inductive_cases cp_stepE: "cp_step marshals sock api p p'"

section \<open>The pipeline\<close>

text \<open>What the cache holds when the versions \<open>vrs\<close> have been taken.\<close>

definition last_accepted :: "'snap snapshot_cache \<Rightarrow> (string \<times> gw_resources) list \<Rightarrow> 'snap option" where
  "last_accepted api vrs = fold (\<lambda>vr s. if accepted api vr then Some (NewSnapshot api (fst vr) (snd vr)) else s) vrs None"

definition cp_inv :: "'snap snapshot_cache \<Rightarrow> 'snap EnvoyControlPlane \<Rightarrow> bool" where
  "cp_inv api p \<longleftrightarrow> built p = map snd (taken p) @ resourcesCh p @ (case pending p of None \<Rightarrow> [] | Some r \<Rightarrow> [r])
     \<and> length (resourcesCh p) \<le> 1 \<and> cache_snapshot p = last_accepted api (taken p)"

lemma watch_round_inv:
  assumes "cp_inv api p" and "pending p = None" and "watch_round marshals sock resp listed p = Inr p'"
  shows "cp_inv api p'"
  using assms by (auto simp: watch_round_def stateVersionChanged_def cp_inv_def bind_res_eq_Inr_iff
      split: option.splits if_splits)

lemma send_resources_inv:
  assumes "cp_inv api p" and "send_resources p = Some p'"
  shows "cp_inv api p'"
proof -
  from assms(2) obtain r c where r: "pending p = Some r" "chan_send 1 (resourcesCh p) r = Some c"
      "p' = p\<lparr>pending := None, resourcesCh := c\<rparr>"
    by (auto simp: send_resources_def split: option.splits)
  with assms(1) chan.send_contents [OF r(2)] chan.send_bounded [OF r(2)] show ?thesis by (simp add: cp_inv_def)
qed

lemma generate_round_inv:
  assumes "cp_inv api p" and "generate_round api version p = Some p'"
  shows "cp_inv api p'"
proof -
  from assms(2) obtain r c where r: "chan_recv (resourcesCh p) = Some (r, c)"
      "p' = (let p = p\<lparr>resourcesCh := c, taken := taken p @ [(version, r)]\<rparr> in
         if accepted api (version, r) then p\<lparr>cache_snapshot := Some (NewSnapshot api version r)\<rparr> else p)"
    by (auto simp: generate_round_def)
  with assms(1) chan.recv_contents [OF r(1)] chan.recv_bounded [OF r(1), of 1] show ?thesis
    by (auto simp: cp_inv_def last_accepted_def Let_def)
qed

lemma cp_inv_init: "cp_inv api NewEnvoyControlPlane"
  by (simp add: cp_inv_def NewEnvoyControlPlane_def last_accepted_def)

lemma cp_step_inv: "cp_step marshals sock api p p' \<Longrightarrow> cp_inv api p \<Longrightarrow> cp_inv api p'"
  by (erule cp_stepE) (blast intro: watch_round_inv send_resources_inv generate_round_inv)+

lemma cp_reachable_inv:
  assumes "(cp_step marshals sock api)\<^sup>*\<^sup>* NewEnvoyControlPlane p"
  shows "cp_inv api p"
  using assms by (induction rule: rtranclp_induct) (auto intro: cp_inv_init cp_step_inv)

section \<open>Properties\<close>

text \<open>
  C15: However the two loops interleave, no version of the resources is lost, duplicated or
  overtaken on its way: what has been built is what the generator has taken, followed by what the channel
  holds and what the watcher waits to send, at most one each, and Envoy's cache holds the last version
  taken that was accepted.
\<close>

theorem resources_are_published_in_order:
  assumes "(cp_step marshals sock api)\<^sup>*\<^sup>* NewEnvoyControlPlane p"
  shows "built p = map snd (taken p) @ resourcesCh p @ (case pending p of None \<Rightarrow> [] | Some r \<Rightarrow> [r])
    \<and> length (resourcesCh p) \<le> 1
    \<and> cache_snapshot p = last_accepted api (taken p)"
  using cp_reachable_inv [OF assms] by (simp add: cp_inv_def)

text \<open>A cache that accepts everything, and a run in which one version without protections is published.\<close>

definition plain_cache :: "(string \<times> gw_resources) snapshot_cache" where
  "plain_cache = \<lparr>NewSnapshot = Pair, Consistent = (\<lambda>_. True), SetSnapshot = (\<lambda>_. True)\<rparr>"

definition empty_resources :: gw_resources where
  "empty_resources = ([], [wafieXprocCluster (\<lambda>_. True) ''/run/wafie.sock''])"

lemma build_empty: "buildResources (\<lambda>_. True) ''/run/wafie.sock'' [] = Inr empty_resources"
  by (simp add: buildResources_def gw_listeners_def gw_clusters_def empty_resources_def)

lemma published_run:
  "(cp_step (\<lambda>_. True) ''/run/wafie.sock'' plain_cache)\<^sup>*\<^sup>* NewEnvoyControlPlane
     \<lparr>stateVersion = ''v1'', pending = None, resourcesCh = [], cache_snapshot = Some (''7'', empty_resources),
      built = [empty_resources], taken = [(''7'', empty_resources)]\<rparr>"
proof -
  let ?step = "cp_step (\<lambda>_. True) ''/run/wafie.sock'' plain_cache"
  let ?p1 = "\<lparr>stateVersion = ''v1'', pending = Some empty_resources, resourcesCh = [], cache_snapshot = None,
    built = [empty_resources], taken = []\<rparr>"
  let ?p2 = "?p1\<lparr>pending := None, resourcesCh := [empty_resources]\<rparr>"
  have s1: "?step NewEnvoyControlPlane ?p1"
    by (rule cp_step.watch [of _ _ _ "Some ''v1''" "Some []"])
      (simp_all add: NewEnvoyControlPlane_def watch_round_def stateVersionChanged_def build_empty)
  have s2: "?step ?p1 ?p2"
    by (rule cp_step.send) (simp add: send_resources_def chan_send_def)
  have s3: "?step ?p2 \<lparr>stateVersion = ''v1'', pending = None, resourcesCh = [],
      cache_snapshot = Some (''7'', empty_resources), built = [empty_resources], taken = [(''7'', empty_resources)]\<rparr>"
    by (rule cp_step.generate [of _ "''7''"])
      (simp add: generate_round_def chan_recv_def accepted_def plain_cache_def)
  show ?thesis
    by (rule rtranclp.rtrancl_into_rtrancl [where r = ?step, OF rtranclp.rtrancl_into_rtrancl
          [where r = ?step, OF r_into_rtranclp [where r = ?step, OF s1] s2] s3])
qed

theorem resources_are_published_in_order_witness:
  "\<exists>p. (cp_step (\<lambda>_. True) ''/run/wafie.sock'' plain_cache)\<^sup>*\<^sup>* NewEnvoyControlPlane p
    \<and> built p = [empty_resources] \<and> built p = map snd (taken p) @ resourcesCh p @ (case pending p of None \<Rightarrow> [] | Some r \<Rightarrow> [r])
    \<and> cache_snapshot p = last_accepted plain_cache (taken p)"
  using resources_are_published_in_order [OF published_run] published_run by fastforce

lemma take_buffered:
  assumes "cp_inv api p"
  shows "\<exists>p'. (cp_step marshals sock api)\<^sup>*\<^sup>* p p' \<and> cp_inv api p' \<and> built p' = built p \<and> pending p' = pending p
    \<and> resourcesCh p' = [] \<and> stateVersion p' = stateVersion p"
proof (cases "resourcesCh p")
  case (Cons r c)
  with assms have c: "c = []" by (simp add: cp_inv_def)
  obtain p' where p': "generate_round api [] p = Some p'" using Cons by (simp add: generate_round_def chan_recv_def)
  have "cp_step marshals sock api p p'" by (rule cp_step.generate [OF p'])
  moreover have "built p' = built p" "pending p' = pending p" "resourcesCh p' = []" "stateVersion p' = stateVersion p"
    using p' Cons c by (auto simp: generate_round_def chan_recv_def Let_def split: if_splits)
  ultimately show ?thesis using generate_round_inv [OF assms p'] by blast
qed (use assms in auto)

text \<open>
  C40: Nothing that was built gets stuck: from every state that the loops can reach, they can go on
  without a new answer of the API server until the generator has taken everything that was built.
\<close>

theorem built_resources_can_be_published:
  assumes "(cp_step marshals sock api)\<^sup>*\<^sup>* NewEnvoyControlPlane p"
  shows "\<exists>p'. (cp_step marshals sock api)\<^sup>*\<^sup>* p p' \<and> built p' = built p \<and> stateVersion p' = stateVersion p
    \<and> map snd (taken p') = built p \<and> cache_snapshot p' = last_accepted api (taken p')"
proof -
  from take_buffered [OF cp_reachable_inv [OF assms]] obtain p1 where
    1: "(cp_step marshals sock api)\<^sup>*\<^sup>* p p1" "cp_inv api p1" "built p1 = built p" "pending p1 = pending p"
      "resourcesCh p1 = []" "stateVersion p1 = stateVersion p"
    by blast
  show ?thesis
  proof (cases "pending p1")
    case None
    with 1 show ?thesis by (intro exI [of _ p1]) (auto simp: cp_inv_def)
  next
    case (Some r)
    let ?p2 = "p1\<lparr>pending := None, resourcesCh := [r]\<rparr>"
    have s: "send_resources p1 = Some ?p2" using Some 1(5) by (simp add: send_resources_def chan_send_def)
    from take_buffered [OF send_resources_inv [OF 1(2) s]] obtain p3 where
      3: "(cp_step marshals sock api)\<^sup>*\<^sup>* ?p2 p3" "cp_inv api p3" "built p3 = built p1" "pending p3 = None"
        "resourcesCh p3 = []" "stateVersion p3 = stateVersion p1"
      by auto
    have "(cp_step marshals sock api)\<^sup>*\<^sup>* p p3"
      using 1(1) cp_step.send [OF s] 3(1) by (meson converse_rtranclp_into_rtranclp rtranclp_trans)
    with 1 3 show ?thesis by (intro exI [of _ p3]) (auto simp: cp_inv_def)
  qed
qed

theorem built_resources_can_be_published_witness:
  "\<exists>p p'. (cp_step (\<lambda>_. True) ''/run/wafie.sock'' plain_cache)\<^sup>*\<^sup>* NewEnvoyControlPlane p \<and> built p = [empty_resources]
    \<and> (cp_step (\<lambda>_. True) ''/run/wafie.sock'' plain_cache)\<^sup>*\<^sup>* p p' \<and> map snd (taken p') = [empty_resources]"
  using built_resources_can_be_published [OF published_run] published_run by fastforce

text \<open>
  The watcher records the new version before it has the protections.  If listing them fails, the
  change is lost: as long as the API server reports the same version, or fails to report one, no round
  builds anything, whatever the server would list.
\<close>

theorem failed_listing_loses_the_update:
  assumes "v \<noteq> stateVersion p" and "\<forall>(resp, listed) \<in> set rounds. resp = None \<or> resp = Some v"
  shows "\<exists>p'. watch_round marshals sock (Some v) None p = Inr p' \<and> built p' = built p \<and> pending p' = pending p
    \<and> fold_res (\<lambda>p (resp, listed). watch_round marshals sock resp listed p) p' rounds = Inr p'"
  using gateway_poll.lost_update [OF assms, of marshals sock] by simp

theorem failed_listing_loses_the_update_witness:
  "\<exists>p'. watch_round (\<lambda>_. True) ''/run/wafie.sock'' (Some ''v1'') None (NewEnvoyControlPlane :: nat EnvoyControlPlane) = Inr p'
    \<and> fold_res (\<lambda>p (resp, listed). watch_round (\<lambda>_. True) ''/run/wafie.sock'' resp listed p) p'
        [(Some ''v1'', Some [shop_protection]), (None, None), (Some ''v1'', Some [shop_protection])] = Inr p'
    \<and> built p' = []"
  using failed_listing_loses_the_update [of "''v1''" "NewEnvoyControlPlane :: nat EnvoyControlPlane"
      "[(Some ''v1'', Some [shop_protection]), (None, None), (Some ''v1'', Some [shop_protection])]"
      "\<lambda>_. True" "''/run/wafie.sock''"]
  by (auto simp: NewEnvoyControlPlane_def)

end
