(* ===== verification/Go_Net.thy ===== *)
theory Go_Net
  imports Go_Lib
begin

text \<open>
  Go's \<open>net.ParseCIDR\<close> as far as the sources use it: whether a text is accepted.  \<open>netip.ParseAddr\<close> reads
  IPv4 addresses (four decimal fields, no leading zeros) and IPv6 addresses (groups of one to four
  hexadecimal digits, at most one \<open>::\<close>, a trailing IPv4 part); addresses with a zone are not accepted.
  Lemma: every IPv4 network in the usual notation is accepted.
\<close>

definition ipv4_field :: "string \<Rightarrow> bool" where
  "ipv4_field s = (case dec_val s of None \<Rightarrow> False
     | Some n \<Rightarrow> n \<le> 255 \<and> (length s = 1 \<or> hd s \<noteq> CHR ''0''))"

definition parse_ipv4 :: "string \<Rightarrow> bool" where
  "parse_ipv4 s = (let ps = split_char (CHR ''.'') s in length ps = 4 \<and> list_all ipv4_field ps)"

definition is_hex :: "char \<Rightarrow> bool" where
  "is_hex c = (let v = of_char c :: nat in 48 \<le> v \<and> v \<le> 57 \<or> 97 \<le> v \<and> v \<le> 102 \<or> 65 \<le> v \<and> v \<le> 70)"

text \<open>The end of the loop: all 16 bytes are there, or some are left to an ellipsis.\<close>

definition ip6_end :: "nat \<Rightarrow> bool \<Rightarrow> bool" where
  "ip6_end i ellipsis = (if i < 16 then ellipsis else i = 16 \<and> \<not> ellipsis)"

function ip6_loop :: "nat \<Rightarrow> bool \<Rightarrow> string \<Rightarrow> bool" where
  "ip6_loop i ellipsis s =
     (if 16 \<le> i \<or> takeWhile is_hex s = [] \<or> 4 < length (takeWhile is_hex s) then False
      else case dropWhile is_hex s of
        [] \<Rightarrow> ip6_end (i + 2) ellipsis
      | c # r \<Rightarrow>
          if c = CHR ''.'' then (ellipsis \<or> i = 12) \<and> i + 4 \<le> 16 \<and> parse_ipv4 s \<and> ip6_end (i + 4) ellipsis
          else if c \<noteq> CHR '':'' \<or> r = [] then False
          else if hd r = CHR '':''
            then \<not> ellipsis \<and> (if tl r = [] then ip6_end (i + 2) True else ip6_loop (i + 2) True (tl r))
          else ip6_loop (i + 2) ellipsis r)"
  by pat_completeness auto
termination
proof (relation "measure (\<lambda>(i, _, s). length s)")
  fix i ellipsis s c r
  assume "dropWhile is_hex s = c # r"
  then have "length r < length s" using length_dropWhile_le [of is_hex s] by simp
  then show "((i + 2, True, tl r), i, ellipsis, s) \<in> measure (\<lambda>(i, _, s). length s)"
    and "((i + 2, ellipsis, r), i, ellipsis, s) \<in> measure (\<lambda>(i, _, s). length s)"
    by auto
qed simp

declare ip6_loop.simps [simp del]

definition parse_ipv6 :: "string \<Rightarrow> bool" where
  "parse_ipv6 s = (CHR ''%'' \<notin> set s \<and>
     (if has_prefix s ''::'' then drop 2 s = [] \<or> ip6_loop 0 True (drop 2 s) else ip6_loop 0 False s))"

text \<open>The number of bits of the address, if it can be read.\<close>

definition parse_addr :: "string \<Rightarrow> nat option" where
  "parse_addr s = (case dropWhile (\<lambda>c. c \<notin> set ''.:%'') s of [] \<Rightarrow> None
     | c # _ \<Rightarrow> if c = CHR ''.'' then (if parse_ipv4 s then Some 32 else None)
               else if c = CHR '':'' then (if parse_ipv6 s then Some 128 else None) else None)"

definition parse_cidr :: "string \<Rightarrow> bool" where
  "parse_cidr s = (CHR ''/'' \<in> set s \<and> (case cut_char (CHR ''/'') s of (addr, ones) \<Rightarrow>
     (case parse_addr addr of None \<Rightarrow> False
      | Some bits \<Rightarrow> (case dec_val ones of None \<Rightarrow> False | Some n \<Rightarrow> n \<le> bits))))"

lemma dec_nat_leading_zero: "hd (dec_nat n) = CHR ''0'' \<Longrightarrow> n = 0"
proof (induction n rule: dec_nat.induct)
  case (1 n)
  show ?case
  proof (cases "n < 10")
    case True
    have "digit n = CHR ''0'' \<Longrightarrow> n = 0" using digit_val_digit [OF True] by (simp add: digit_val_def)
    with 1(2) True show ?thesis by (simp add: dec_nat.simps [of n])
  next
    case False
    with 1 have "n div 10 = 0" by (simp add: dec_nat.simps [of n])
    with False show ?thesis by simp
  qed
qed

lemma ipv4_field_dec_nat: "n \<le> 255 \<Longrightarrow> ipv4_field (dec_nat n)"
  using dec_nat_leading_zero [of n] by (auto simp: ipv4_field_def dec_nat.simps [of 0])

lemma parse_cidr_ipv4:
  assumes "a \<le> 255" "b \<le> 255" "c \<le> 255" "d \<le> 255" "n \<le> 32"
  shows "parse_cidr (join_char (CHR ''.'') (map dec_nat [a, b, c, d]) @ CHR ''/'' # dec_nat n)"
proof -
  let ?addr = "join_char (CHR ''.'') (map dec_nat [a, b, c, d])"
  have dig: "x \<notin> set (dec_nat k)" if "(of_char x :: nat) \<notin> {48..57}" for x k
    using dec_nat_chars [of x k] that by blast
  have "split_char (CHR ''.'') ?addr = map dec_nat [a, b, c, d]"
    by (rule split_join_char) (auto simp: dig)
  then have "parse_ipv4 ?addr" using assms by (simp add: parse_ipv4_def ipv4_field_dec_nat)
  moreover have "dropWhile (\<lambda>c. c \<notin> set ''.:%'') (dec_nat k @ CHR ''.'' # xs) = CHR ''.'' # xs" for k xs
    using dig [of _ k] by (subst dropWhile_append2) (auto dest: dec_nat_chars)
  ultimately have "parse_addr ?addr = Some 32" by (simp add: parse_addr_def)
  moreover have "cut_char (CHR ''/'') (?addr @ CHR ''/'' # dec_nat n) = (?addr, dec_nat n)"
    by (rule cut_char_append) (auto simp: dig)
  ultimately show ?thesis using assms(5) by (simp add: parse_cidr_def)
qed

lemma parse_cidr_examples:
  "parse_cidr ''10.0.0.0/8''" "parse_cidr ''2001:db8::/32''" "parse_cidr ''::/0''" "parse_cidr ''::ffff:10.0.0.1/128''"
  "\<not> parse_cidr ''10.0.0.1''" "\<not> parse_cidr ''10.0.0.256/8''" "\<not> parse_cidr ''10.01.0.0/8''" "\<not> parse_cidr ''10.0.0.0/33''"
  "\<not> parse_cidr ''1:2:3:4:5:6:7:8:9/64''" "\<not> parse_cidr ''1::2::3/64''" "\<not> parse_cidr ''fe80::1%eth0/64''" "\<not> parse_cidr ''''"
  by code_simp+

end
