(* ===== verification/Apisrv_Protection.thy ===== *)
theory Apisrv_Protection
  imports Wafie_Api Go_Net
begin

text \<open>
  A model of \<^verbatim>\<open>apisrv/internal/models/protection.go\<close>: the desired state of a protection, how a request to
  change it is merged into it, its validation and its conversion to messages, and the repository
  operations that use them.  Pointers are options, a write or read through nil is a
  \<open>Null_Dereference\<close>; nil and empty slices are not told apart.  The database and its object mapper are a
  parameter.  The lemmas show what a merge does to users, tokens, paths and IP rules, when it panics, and
  which settings are complete after it.
\<close>

section \<open>The desired state\<close>

text \<open>\<open>CaptchaV2\<close> and \<open>AntiBot\<close> have the fields of the messages of the same name, all optional.\<close>

type_synonym CaptchaV2 = v1_CaptchaV2
type_synonym AntiBot = v1_AntiBot

record Waf =
  waf_Mode :: uint32
  waf_ParanoiaLevel :: uint32

text \<open>An \<open>IP\<close> is its only field, the CIDR.\<close>

record IPRules =
  ip_Block :: "string list"
  ip_Allow :: "string list"

record BasicAuthUser =
  User :: string
  Pass :: string

record TokenAuthToken =
  Token :: string
  ValidAfter :: "64 word"
  ValidBefore :: "64 word"
  tok_Description :: string

record BasicAuth =
  Users :: "BasicAuthUser list"
  ba_Enabled :: bool
  ba_PathWhitelist :: "string list"

record TokenAuth =
  Header :: string
  Tokens :: "TokenAuthToken list"
  ta_Enabled :: bool
  ta_PathWhitelist :: "string list"

record Auth =
  auth_Basic :: "BasicAuth option"
  auth_Token :: "TokenAuth option"

record desired_state =
  ds_Waf :: "Waf option"
  ds_XffNumTrustedHops :: "uint32 option"
  ds_IPRules :: "IPRules option"
  ds_Auth :: "Auth option"
  ds_AntiBot :: "AntiBot option"

definition zero_desired_state :: desired_state where
  "zero_desired_state = \<lparr>ds_Waf = None, ds_XffNumTrustedHops = None, ds_IPRules = None, ds_Auth = None, ds_AntiBot = None\<rparr>"

definition zero_captcha :: CaptchaV2 where
  "zero_captcha = \<lparr>v1_SiteKey = None, v1_SecretKey = None, v1_RedirectUrl = None, v1_CaptchaEnabled = None\<rparr>"

definition zero_antibot :: AntiBot where
  "zero_antibot = \<lparr>v1_AntiBotEnabled = None, v1_ResponseStatuses = None, v1_FailThreshold = None, v1_FailWindow = None,
     v1_BlockPeriod = None, v1_CaptchaV2 = None\<rparr>"

section \<open>Merging lists\<close>

text \<open>
  Removal from a list: the positions of the entries to remove are collected first, one for each match,
  and then taken out one after the other, as they were.
\<close>

fun removal_indexes :: "('a \<Rightarrow> 'k) \<Rightarrow> ('r \<Rightarrow> 'k) \<Rightarrow> nat \<Rightarrow> 'a list \<Rightarrow> 'r list \<Rightarrow> nat list" where
  "removal_indexes key rkey idx [] rs = []"
| "removal_indexes key rkey idx (x # xs) rs =
     map (\<lambda>_. idx) (filter (\<lambda>r. key x = rkey r) rs) @ removal_indexes key rkey (Suc idx) xs rs"

definition remove_at :: "'a list \<Rightarrow> nat \<Rightarrow> 'a list res" where
  "remove_at xs i = (if i < length xs then Inr (take i xs @ drop (Suc i) xs) else Inl Slice_Bounds)"

definition remove_matching :: "('a \<Rightarrow> 'k) \<Rightarrow> ('r \<Rightarrow> 'k) \<Rightarrow> 'a list \<Rightarrow> 'r list \<Rightarrow> 'a list res" where
  "remove_matching key rkey xs rs = fold_res remove_at xs (removal_indexes key rkey 0 xs rs)"

definition add_path :: "string \<Rightarrow> string list \<Rightarrow> string list" where
  "add_path p paths = (if p \<in> set paths then paths else paths @ [p])"

text \<open>
  A user that is already there: the loop assigns the password to its copy of the list element, so that
  the list stays as it is.
\<close>

definition add_user :: "v1_BasicAuthUser \<Rightarrow> BasicAuthUser list \<Rightarrow> BasicAuthUser list" where
  "add_user u users = (if v1_User u \<in> User ` set users then users
     else users @ [\<lparr>User = v1_User u, Pass = v1_Pass u\<rparr>])"

text \<open>The tokens are pointers: those that are already there are updated.\<close>

definition update_token :: "v1_TokenAuthToken \<Rightarrow> TokenAuthToken \<Rightarrow> TokenAuthToken" where
  "update_token r t = t\<lparr>ValidAfter := (case v1_ValidAfter r of None \<Rightarrow> ValidAfter t | Some v \<Rightarrow> v),
     ValidBefore := (case v1_ValidBefore r of None \<Rightarrow> ValidBefore t | Some v \<Rightarrow> v),
     tok_Description := (case v1_Description r of None \<Rightarrow> tok_Description t | Some d \<Rightarrow> d)\<rparr>"

definition add_token :: "v1_TokenAuthToken \<Rightarrow> TokenAuthToken list \<Rightarrow> TokenAuthToken list" where
  "add_token r tokens = (if v1_Token r \<in> Token ` set tokens
     then map (\<lambda>t. if Token t = v1_Token r then update_token r t else t) tokens
     else tokens @ [update_token r \<lparr>Token = v1_Token r, ValidAfter = 0, ValidBefore = 0, tok_Description = []\<rparr>])"

definition BasicAuth_Merge :: "v1_BasicAuthPutRequest \<Rightarrow> BasicAuth \<Rightarrow> BasicAuth res" where
  "BasicAuth_Merge req ba =
     (let ba = (case ba_SetEnabled req of None \<Rightarrow> ba | Some e \<Rightarrow> ba\<lparr>ba_Enabled := e\<rparr>) in
      bind_res (remove_matching id id (ba_PathWhitelist ba) (ba_PathWhitelistToRemove req)) (\<lambda>paths.
      bind_res (remove_matching User v1_User (Users ba) (UsersToRemove req)) (\<lambda>users.
        Inr (ba\<lparr>ba_PathWhitelist := fold add_path (ba_PathWhitelistToAdd req) paths,
                Users := fold add_user (UsersToAdd req) users\<rparr>))))"

definition TokenAuth_Merge :: "v1_TokenAuthPutRequest \<Rightarrow> TokenAuth \<Rightarrow> TokenAuth res" where
  "TokenAuth_Merge req ta =
     (let ta = (case ta_SetEnabled req of None \<Rightarrow> ta | Some e \<Rightarrow> ta\<lparr>ta_Enabled := e\<rparr>);
          ta = (case ta_SetHeader req of None \<Rightarrow> ta | Some name \<Rightarrow> if name \<noteq> [] then ta\<lparr>Header := name\<rparr> else ta) in
      bind_res (remove_matching id id (ta_PathWhitelist ta) (ta_PathWhitelistToRemove req)) (\<lambda>paths.
      bind_res (remove_matching Token v1_Token (Tokens ta) (TokensToRemove req)) (\<lambda>tokens.
        Inr (ta\<lparr>ta_PathWhitelist := fold add_path (ta_PathWhitelistToAdd req) paths,
                Tokens := fold add_token (TokensToAdd req) tokens\<rparr>))))"

section \<open>IP rules\<close>

definition addIPs :: "string list \<Rightarrow> string list \<Rightarrow> string list" where
  "addIPs current fromReq =
     fold (\<lambda>ip res. if ip \<in> set res then res else res @ [ip]) fromReq (filter (\<lambda>ip. ip \<notin> set fromReq) current)"

definition removeIPs :: "string list \<Rightarrow> string list \<Rightarrow> string list" where
  "removeIPs current fromReq = filter (\<lambda>ip. ip \<notin> set fromReq) current"

definition IPRules_FromProto :: "v1_IPRules \<Rightarrow> IPRules" where
  "IPRules_FromProto r = \<lparr>ip_Block = v1_Block r, ip_Allow = v1_Allow r\<rparr>"

definition IPRules_Merge :: "PutProtectionRequest \<Rightarrow> IPRules \<Rightarrow> IPRules" where
  "IPRules_Merge req p =
     (let currentAllow = (case IpRulesToRemove req of None \<Rightarrow> ip_Allow p | Some r \<Rightarrow> removeIPs (ip_Allow p) (v1_Allow r));
          currentBlock = (case IpRulesToRemove req of None \<Rightarrow> ip_Block p | Some r \<Rightarrow> removeIPs (ip_Block p) (v1_Block r));
          allow = (case IpRulesToAdd req of None \<Rightarrow> currentAllow | Some r \<Rightarrow> addIPs currentAllow (v1_Allow r));
          block = (case IpRulesToAdd req of None \<Rightarrow> currentBlock | Some r \<Rightarrow> addIPs currentBlock (v1_Block r))
      in IPRules_FromProto \<lparr>v1_Block = block, v1_Allow = allow\<rparr>)"

datatype cidr_error = Empty_CIDR | Invalid_CIDR string

text \<open>Only the rules that block are looked at; the first one that is wrong is reported.\<close>

definition IPRules_Validate :: "IPRules \<Rightarrow> cidr_error option" where
  "IPRules_Validate p = (case find (\<lambda>cidr. cidr = [] \<or> \<not> parse_cidr cidr) (ip_Block p) of None \<Rightarrow> None
     | Some cidr \<Rightarrow> Some (if cidr = [] then Empty_CIDR else Invalid_CIDR cidr))"

section \<open>The merge of a request\<close>

definition Waf_FromProto :: "v1_Waf \<Rightarrow> Waf option \<Rightarrow> Waf res" where
  "Waf_FromProto r f = bind_res (deref f) (\<lambda>f.
     Inr (f\<lparr>waf_ParanoiaLevel := v1_ParanoiaLevel r, waf_Mode := mode_number (v1_WafMode r)\<rparr>))"

text \<open>A setting of a request, the current one, or else a default value.\<close>

definition set_or_default :: "'a option \<Rightarrow> 'a option \<Rightarrow> 'a \<Rightarrow> 'a option" where
  "set_or_default req cur dflt = (case req of Some v \<Rightarrow> Some v | None \<Rightarrow> (case cur of Some v \<Rightarrow> Some v | None \<Rightarrow> Some dflt))"

text \<open>The flag \<open>Enabled\<close>: where there is none, the code writes its default through the nil pointer.\<close>

definition merge_enabled :: "bool option \<Rightarrow> bool option \<Rightarrow> bool option res" where
  "merge_enabled req cur = (case req of Some e \<Rightarrow> Inr (Some e)
     | None \<Rightarrow> (case cur of Some e \<Rightarrow> Inr (Some e) | None \<Rightarrow> Inl Null_Dereference))"

definition set_if_given :: "'a option \<Rightarrow> 'a option \<Rightarrow> 'a option" where
  "set_if_given req cur = (case req of Some v \<Rightarrow> Some v | None \<Rightarrow> cur)"

definition CaptchaV2_Merge :: "v1_CaptchaV2 option \<Rightarrow> CaptchaV2 \<Rightarrow> CaptchaV2 res" where
  "CaptchaV2_Merge req c = (case req of None \<Rightarrow> Inr c | Some req \<Rightarrow>
     bind_res (merge_enabled (v1_CaptchaEnabled req) (v1_CaptchaEnabled c)) (\<lambda>e.
       Inr \<lparr>v1_SiteKey = set_if_given (v1_SiteKey req) (v1_SiteKey c),
            v1_SecretKey = set_if_given (v1_SecretKey req) (v1_SecretKey c),
            v1_RedirectUrl = set_or_default (v1_RedirectUrl req) (v1_RedirectUrl c) ''/'',
            v1_CaptchaEnabled = e\<rparr>))"

definition AntiBot_Merge :: "v1_AntiBot option \<Rightarrow> AntiBot \<Rightarrow> AntiBot res" where
  "AntiBot_Merge req b = (case req of None \<Rightarrow> Inr b | Some req \<Rightarrow>
     bind_res (merge_enabled (v1_AntiBotEnabled req) (v1_AntiBotEnabled b)) (\<lambda>e.
     bind_res (CaptchaV2_Merge (v1_CaptchaV2 req)
                 (case v1_CaptchaV2 b of None \<Rightarrow> zero_captcha | Some c \<Rightarrow> c)) (\<lambda>c.
       Inr \<lparr>v1_AntiBotEnabled = e,
            v1_ResponseStatuses = set_or_default (v1_ResponseStatuses req) (v1_ResponseStatuses b) ''^4[0-9]{2}$'',
            v1_FailThreshold = set_or_default (v1_FailThreshold req) (v1_FailThreshold b) 10,
            v1_FailWindow = set_or_default (v1_FailWindow req) (v1_FailWindow b) 30,
            v1_BlockPeriod = set_or_default (v1_BlockPeriod req) (v1_BlockPeriod b) 60,
            v1_CaptchaV2 = Some c\<rparr>)))"

text \<open>
  An optional part of the state that an optional part of the request is merged into: it is created
  when the request has it.
\<close>

definition merge_part :: "('r \<Rightarrow> 'a \<Rightarrow> 'a res) \<Rightarrow> 'a \<Rightarrow> 'r option \<Rightarrow> 'a option \<Rightarrow> 'a option res" where
  "merge_part merge zero req cur = (case req of None \<Rightarrow> Inr cur | Some r \<Rightarrow>
     bind_res (merge r (case cur of None \<Rightarrow> zero | Some x \<Rightarrow> x)) (\<lambda>x. Inr (Some x)))"

definition zero_basic_auth :: BasicAuth where
  "zero_basic_auth = \<lparr>Users = [], ba_Enabled = False, ba_PathWhitelist = []\<rparr>"

definition zero_token_auth :: TokenAuth where
  "zero_token_auth = \<lparr>Header = [], Tokens = [], ta_Enabled = False, ta_PathWhitelist = []\<rparr>"

text \<open>The WAF settings are not created: the request is written through the pointer there is.\<close>

definition merge_waf :: "v1_Waf option \<Rightarrow> Waf option \<Rightarrow> Waf option res" where
  "merge_waf req cur = (case req of None \<Rightarrow> Inr cur | Some r \<Rightarrow> bind_res (Waf_FromProto r cur) (\<lambda>f. Inr (Some f)))"

text \<open>A request that is nil leaves the state as it is; in \<open>UpdateProtection\<close> there always is one.\<close>

definition desired_state_Merge :: "PutProtectionRequest \<Rightarrow> desired_state \<Rightarrow> desired_state res" where
  "desired_state_Merge req s =
     bind_res (merge_waf (put_Waf req) (ds_Waf s)) (\<lambda>waf.
     let xff = set_if_given (put_XffNumTrustedHops req) (ds_XffNumTrustedHops s);
         ips = IPRules_Merge req (case ds_IPRules s of None \<Rightarrow> \<lparr>ip_Block = [], ip_Allow = []\<rparr> | Some p \<Rightarrow> p);
         auth = (case ds_Auth s of None \<Rightarrow> \<lparr>auth_Basic = None, auth_Token = None\<rparr> | Some a \<Rightarrow> a) in
     bind_res (merge_part BasicAuth_Merge zero_basic_auth (put_BasicAuth req) (auth_Basic auth)) (\<lambda>basic.
     bind_res (merge_part TokenAuth_Merge zero_token_auth (put_TokenAuth req) (auth_Token auth)) (\<lambda>token.
     bind_res (AntiBot_Merge (put_AntiBot req) (case ds_AntiBot s of None \<Rightarrow> zero_antibot | Some b \<Rightarrow> b)) (\<lambda>b.
       Inr \<lparr>ds_Waf = waf, ds_XffNumTrustedHops = xff, ds_IPRules = Some ips,
            ds_Auth = Some \<lparr>auth_Basic = basic, auth_Token = token\<rparr>, ds_AntiBot = Some b\<rparr>))))"

section \<open>Messages\<close>

definition desired_state_FromProto :: "ProtectionDesiredState option \<Rightarrow> desired_state \<Rightarrow> desired_state" where
  "desired_state_FromProto msg s = (case msg of None \<Rightarrow> s | Some m \<Rightarrow>
     s\<lparr>ds_Waf := (case v1_Waf m of None \<Rightarrow> ds_Waf s
                  | Some r \<Rightarrow> Some \<lparr>waf_Mode = mode_number (v1_WafMode r), waf_ParanoiaLevel = v1_ParanoiaLevel r\<rparr>),
       ds_XffNumTrustedHops := set_if_given (XffNumTrustedHops m) (ds_XffNumTrustedHops s),
       ds_IPRules := (case v1_IpRules m of None \<Rightarrow> ds_IPRules s | Some r \<Rightarrow> Some (IPRules_FromProto r))\<rparr>)"

definition token_ToProto :: "TokenAuthToken \<Rightarrow> v1_TokenAuthToken" where
  "token_ToProto t = \<lparr>v1_Token = Token t, v1_ValidAfter = Some (ValidAfter t), v1_ValidBefore = Some (ValidBefore t),
     v1_Description = Some (tok_Description t)\<rparr>"

definition auth_ToProto :: "Auth option \<Rightarrow> v1_Auth" where
  "auth_ToProto auth = \<lparr>
     v1_BasicAuth = Some (case Option.bind auth auth_Basic of
         None \<Rightarrow> \<lparr>v1_Users = [], v1_ba_PathWhitelist = [], v1_ba_Enabled = None\<rparr>
       | Some ba \<Rightarrow> \<lparr>v1_Users = map (\<lambda>u. \<lparr>v1_User = User u, v1_Pass = Pass u\<rparr>) (Users ba),
           v1_ba_PathWhitelist = ba_PathWhitelist ba, v1_ba_Enabled = Some (ba_Enabled ba)\<rparr>),
     v1_TokenAuth = Some (case Option.bind auth auth_Token of
         None \<Rightarrow> \<lparr>v1_Header = [], v1_Tokens = [], v1_ta_Enabled = None, v1_ta_PathWhitelist = []\<rparr>
       | Some ta \<Rightarrow> \<lparr>v1_Header = Header ta, v1_Tokens = map token_ToProto (Tokens ta),
           v1_ta_Enabled = Some (ta_Enabled ta), v1_ta_PathWhitelist = ta_PathWhitelist ta\<rparr>)\<rparr>"

definition desired_state_ToProto :: "desired_state \<Rightarrow> ProtectionDesiredState" where
  "desired_state_ToProto s = \<lparr>
     v1_Waf = map_option (\<lambda>w. \<lparr>v1_WafMode = mode_of_number (waf_Mode w), v1_ParanoiaLevel = waf_ParanoiaLevel w\<rparr>) (ds_Waf s),
     XffNumTrustedHops = ds_XffNumTrustedHops s,
     v1_IpRules = map_option (\<lambda>p. \<lparr>v1_Block = ip_Block p, v1_Allow = ip_Allow p\<rparr>) (ds_IPRules s),
     v1_Auth = Some (auth_ToProto (ds_Auth s)),
     v1_AntiBot = Some (case ds_AntiBot s of None \<Rightarrow> zero_antibot\<lparr>v1_CaptchaV2 := Some zero_captcha\<rparr>
       | Some b \<Rightarrow> b\<lparr>v1_CaptchaV2 := Some (case v1_CaptchaV2 b of None \<Rightarrow> zero_captcha | Some c \<Rightarrow> c)\<rparr>)\<rparr>"

section \<open>The repository\<close>

record protection_row =
  ID :: "64 word"
  Mode :: uint32
  row_ApplicationID :: "64 word"
  row_DesiredState :: desired_state

text \<open>The application, as a message, is there if it has been loaded; rule set versions are left out.\<close>

definition Protection_ToProto :: "Application option \<Rightarrow> protection_row \<Rightarrow> Protection" where
  "Protection_ToProto app p = \<lparr>prot_Id = ucast (ID p), ApplicationId = ucast (row_ApplicationID p),
     prot_Application = app, prot_Mode = mode_of_number (Mode p),
     DesiredState = Some (desired_state_ToProto (row_DesiredState p))\<rparr>"

text \<open>
  The database through its object mapper: reading three columns of a row (\<open>None\<close>: an error, no such row
  among them), the first row that matches an id or application id, updating (an error, or the number of
  rows), saving and creating a row.
\<close>

datatype db_error = ErrRecordNotFound | Db_Error string

record 'db protection_db =
  db_select :: "64 word \<Rightarrow> 'db \<Rightarrow> (uint32 \<times> 64 word \<times> desired_state) option"
  db_First :: "uint32 option \<Rightarrow> uint32 option \<Rightarrow> 'db \<Rightarrow> db_error + protection_row"
  db_Updates :: "protection_row \<Rightarrow> 'db \<Rightarrow> (db_error + nat) \<times> 'db"
  db_Save :: "protection_row \<Rightarrow> 'db \<Rightarrow> db_error option \<times> 'db"
  db_Create :: "protection_row \<Rightarrow> 'db \<Rightarrow> (db_error + protection_row) \<times> 'db"

datatype svc_error = Code_NotFound string | Code_Internal_Db db_error | Code_Internal_CIDR cidr_error | Plain_Db_Error db_error

definition GetProtection :: "'db protection_db \<Rightarrow> uint32 option \<Rightarrow> uint32 option \<Rightarrow> 'db \<Rightarrow> svc_error + protection_row" where
  "GetProtection repo pid appId db = (case db_First repo pid appId db of
     Inr p \<Rightarrow> Inr p
   | Inl ErrRecordNotFound \<Rightarrow> Inl (Code_NotFound ''protection not found'')
   | Inl err \<Rightarrow> Inl (Code_Internal_Db err))"

definition UpsertProtection :: "'db protection_db \<Rightarrow> uint32 \<Rightarrow> 'db \<Rightarrow> (svc_error + protection_row) \<times> 'db" where
  "UpsertProtection repo appId db = (case db_First repo None (Some appId) db of
     Inr existing \<Rightarrow>
       (let existing = existing\<lparr>Mode := mode_number PROTECTION_MODE_ON\<rparr>; (err, db) = db_Save repo existing db in
        case err of Some e \<Rightarrow> (Inl (Plain_Db_Error e), db) | None \<Rightarrow> (Inr existing, db))
   | Inl ErrRecordNotFound \<Rightarrow>
       (case db_Create repo \<lparr>ID = 0, Mode = mode_number PROTECTION_MODE_ON, row_ApplicationID = ucast appId,
               row_DesiredState = zero_desired_state\<rparr> db of
          (Inl e, db) \<Rightarrow> (Inl (Plain_Db_Error e), db)
        | (Inr p, db) \<Rightarrow> (Inr p, db))
   | Inl err \<Rightarrow> (Inl (Plain_Db_Error err), db))"

definition UpdateProtection ::
    "'db protection_db \<Rightarrow> PutProtectionRequest \<Rightarrow> 'db \<Rightarrow> ((svc_error + protection_row) \<times> 'db) res" where
  "UpdateProtection repo req db = (case db_select repo (ucast (put_Id req)) db of
     None \<Rightarrow> Inr (Inl (Code_NotFound ''protection not found''), db)
   | Some (m, appId, desired) \<Rightarrow>
       if appId = 0 then Inr (Inl (Code_NotFound ''protection not found''), db)
       else bind_res (desired_state_Merge req desired) (\<lambda>desired.
         bind_res (deref (ds_IPRules desired)) (\<lambda>ips. case IPRules_Validate ips of
           Some e \<Rightarrow> Inr (Inl (Code_Internal_CIDR e), db)
         | None \<Rightarrow>
             (case db_Updates repo \<lparr>ID = ucast (put_Id req),
                     Mode = (case put_ProtectionMode req of None \<Rightarrow> m | Some pm \<Rightarrow> mode_number pm),
                     row_ApplicationID = appId, row_DesiredState = desired\<rparr> db of
                (Inl e, db) \<Rightarrow> Inr (Inl (Code_Internal_Db e), db)
              | (Inr rows, db) \<Rightarrow>
                  if rows = 0 then Inr (Inl (Code_NotFound ''protection id not found''), db)
                  else Inr (GetProtection repo (Some (put_Id req)) None db, db)))))"

section \<open>Lists of entries with keys\<close>

text \<open>
  What the users, tokens and paths have in common: entries are identified by a key, and adding an entry
  whose key is present does not add another one.
\<close>

locale keyed_entries =
  fixes key :: "'a \<Rightarrow> 'k" and rkey :: "'r \<Rightarrow> 'k" and add :: "'r \<Rightarrow> 'a list \<Rightarrow> 'a list"
  assumes add_keys: "map key (add r xs) = (if rkey r \<in> set (map key xs) then map key xs else map key xs @ [rkey r])"
begin

lemma add_all_keys: "set (map key (fold add rs xs)) = set (map key xs) \<union> rkey ` set rs"
proof (induction rs arbitrary: xs)
  case (Cons r rs)
  have "set (map key (add r xs)) = insert (rkey r) (set (map key xs))" using add_keys [of r xs] by auto
  with Cons.IH [of "add r xs"] show ?case by simp
qed simp

lemma add_all_distinct: "distinct (map key xs) \<Longrightarrow> distinct (map key (fold add rs xs))"
proof (induction rs arbitrary: xs)
  case (Cons r rs)
  have "distinct (map key (add r xs))" using add_keys [of r xs] Cons.prems by auto
  with Cons.IH [of "add r xs"] show ?case by simp
qed simp

end

interpretation paths: keyed_entries id id add_path
  by unfold_locales (auto simp: add_path_def)

interpretation users: keyed_entries User v1_User add_user
  by unfold_locales (auto simp: add_user_def)

interpretation tokens: keyed_entries Token v1_Token add_token
proof
  fix r xs
  have "map Token (map (\<lambda>t. if Token t = v1_Token r then update_token r t else t) xs) = map Token xs"
    by (auto simp: update_token_def)
  then show "map Token (add_token r xs) = (if v1_Token r \<in> set (map Token xs) then map Token xs else map Token xs @ [v1_Token r])"
    by (auto simp: add_token_def update_token_def)
qed

section \<open>Removal\<close>

lemma removal_indexes_Nil: "removal_indexes key rkey i xs rs = [] \<longleftrightarrow> (\<forall>x \<in> set xs. key x \<notin> rkey ` set rs)"
  by (induction xs arbitrary: i) (auto simp: filter_empty_conv)

lemma filter_matches_Nil: "filter (\<lambda>r. key x = rkey r) rs = [] \<longleftrightarrow> key x \<notin> rkey ` set rs"
  by (auto simp: filter_empty_conv)

text \<open>One position: the entry there is the one that is removed.\<close>

lemma removal_indexes_one:
  assumes "removal_indexes key rkey i xs rs = [j]"
  shows "i \<le> j \<and> j - i < length xs
    \<and> take (j - i) xs @ drop (Suc (j - i)) xs = filter (\<lambda>x. key x \<notin> rkey ` set rs) xs"
  using assms
proof (induction xs arbitrary: i)
  case (Cons x xs)
  show ?case
  proof (cases "key x \<in> rkey ` set rs")
    case True
    then have "filter (\<lambda>r. key x = rkey r) rs \<noteq> []" by (simp add: filter_matches_Nil)
    with Cons.prems have j: "j = i" "removal_indexes key rkey (Suc i) xs rs = []"
      by (auto simp: append_eq_Cons_conv Cons_eq_append_conv)
    from j(2) have "filter (\<lambda>x. key x \<notin> rkey ` set rs) xs = xs"
      unfolding removal_indexes_Nil by (simp add: filter_id_conv)
    with j(1) True show ?thesis by simp
  next
    case False
    then have "filter (\<lambda>r. key x = rkey r) rs = []" by (simp add: filter_matches_Nil)
    with Cons.prems have "removal_indexes key rkey (Suc i) xs rs = [j]" by simp
    with Cons.IH have "Suc i \<le> j" "j - Suc i < length xs"
        "take (j - Suc i) xs @ drop (Suc (j - Suc i)) xs = filter (\<lambda>x. key x \<notin> rkey ` set rs) xs"
      by blast+
    moreover from this have "j - i = Suc (j - Suc i)" by simp
    ultimately show ?thesis using False by simp
  qed
qed simp

lemma remove_matching_one:
  assumes "length (removal_indexes key rkey 0 xs rs) \<le> 1"
  shows "remove_matching key rkey xs rs = Inr (filter (\<lambda>x. key x \<notin> rkey ` set rs) xs)"
proof (cases "removal_indexes key rkey 0 xs rs")
  case Nil
  then have "filter (\<lambda>x. key x \<notin> rkey ` set rs) xs = xs"
    unfolding removal_indexes_Nil by (simp add: filter_id_conv)
  with Nil show ?thesis by (simp add: remove_matching_def)
next
  case (Cons j js)
  with assms have "removal_indexes key rkey 0 xs rs = [j]" by simp
  with removal_indexes_one [OF this] show ?thesis by (simp add: remove_matching_def remove_at_def)
qed

text \<open>Two neighbours: the first of them and the entry after the second are removed.\<close>

lemma removal_indexes_append:
  "removal_indexes key rkey i (xs @ ys) rs = removal_indexes key rkey i xs rs @ removal_indexes key rkey (i + length xs) ys rs"
  by (induction xs arbitrary: i) simp_all

lemma remove_matching_neighbours:
  assumes "distinct (map key (pre @ a # b # post))" and "rkey ra = key a" and "rkey rb = key b"
  shows "remove_matching key rkey (pre @ a # b # post) [ra, rb] =
    (case post of [] \<Rightarrow> Inl Slice_Bounds | c # post' \<Rightarrow> Inr (pre @ b # post'))"
proof -
  have "removal_indexes key rkey 0 pre [ra, rb] = []"
    "removal_indexes key rkey (Suc (Suc (length pre))) post [ra, rb] = []"
    using assms by (auto simp: removal_indexes_Nil) (metis imageI)+
  with assms have "removal_indexes key rkey 0 (pre @ a # b # post) [ra, rb] = [length pre, Suc (length pre)]"
    by (auto simp: removal_indexes_append)
  then show ?thesis
    by (cases post) (simp_all add: remove_matching_def remove_at_def)
qed

section \<open>Complete settings\<close>

text \<open>An anti-bot setting in which everything that has a default is set.\<close>

definition antibot_complete :: "AntiBot \<Rightarrow> bool" where
  "antibot_complete b \<longleftrightarrow> v1_AntiBotEnabled b \<noteq> None \<and> v1_ResponseStatuses b \<noteq> None \<and> v1_FailThreshold b \<noteq> None
     \<and> v1_FailWindow b \<noteq> None \<and> v1_BlockPeriod b \<noteq> None \<and> v1_CaptchaV2 b \<noteq> None"

lemma set_or_default_Some [simp]: "\<exists>v. set_or_default req cur d = Some v"
  by (simp add: set_or_default_def split: option.split)

lemma merge_enabled_Inr: "merge_enabled req cur = Inr e \<Longrightarrow> e \<noteq> None"
  by (auto simp: merge_enabled_def split: option.splits)

lemma merge_enabled_fails: "(\<exists>e. merge_enabled req cur = Inl e) \<longleftrightarrow> req = None \<and> cur = None"
  by (auto simp: merge_enabled_def split: option.splits)

text \<open>When merging anti-bot settings panics.\<close>

definition antibot_nil_write :: "v1_AntiBot option \<Rightarrow> AntiBot \<Rightarrow> bool" where
  "antibot_nil_write req b = (case req of None \<Rightarrow> False | Some r \<Rightarrow>
     v1_AntiBotEnabled r = None \<and> v1_AntiBotEnabled b = None
     \<or> (case v1_CaptchaV2 r of None \<Rightarrow> False | Some rc \<Rightarrow> v1_CaptchaEnabled rc = None
          \<and> (case v1_CaptchaV2 b of None \<Rightarrow> True | Some c \<Rightarrow> v1_CaptchaEnabled c = None)))"

lemma AntiBot_Merge_fails: "AntiBot_Merge req b = Inl e \<longleftrightarrow> e = Null_Dereference \<and> antibot_nil_write req b"
  by (auto simp: AntiBot_Merge_def CaptchaV2_Merge_def antibot_nil_write_def merge_enabled_def zero_captcha_def
      split: option.splits)

section \<open>Properties\<close>

text \<open>
  C18: Revoking two tokens that are next to each other in the list does not revoke the second one: the
  positions are computed before the first removal shifts the list.  The second token stays valid and the
  token after it, if there is one, is lost; if there is none, the merge panics.  The same removal is
  used for users and for the path whitelists.
\<close>

theorem revoking_two_tokens_keeps_the_second:
  assumes "Tokens ta = pre @ a # b # post" and "distinct (map Token (Tokens ta))"
    and "TokensToRemove req = [ra, rb]" and "v1_Token ra = Token a" and "v1_Token rb = Token b"
    and "TokensToAdd req = []" and "ta_PathWhitelistToRemove req = []"
  shows "(post = [] \<longrightarrow> TokenAuth_Merge req ta = Inl Slice_Bounds)
    \<and> (\<forall>c post'. post = c # post' \<longrightarrow>
         (\<exists>ta'. TokenAuth_Merge req ta = Inr ta' \<and> Tokens ta' = pre @ b # post' \<and> b \<in> set (Tokens ta') \<and> c \<notin> set (Tokens ta')))"
proof -
  have r: "remove_matching Token v1_Token (pre @ a # b # post) [ra, rb] =
      (case post of [] \<Rightarrow> Inl Slice_Bounds | c # post' \<Rightarrow> Inr (pre @ b # post'))"
    using remove_matching_neighbours [of Token pre a b post v1_Token ra rb] assms by simp
  have p: "remove_matching id id xs [] = Inr xs" for xs :: "string list"
    using remove_matching_one [of id id xs "[]"] removal_indexes_Nil [of id id 0 xs "[]"] by simp
  have d: "c \<notin> set (pre @ b # post')" if "post = c # post'" for c post'
    using assms(1,2) that by auto
  show ?thesis
    using assms r p d by (cases post) (auto simp: TokenAuth_Merge_def Let_def split: option.splits)
qed

definition token_named :: "string \<Rightarrow> TokenAuthToken" where
  "token_named n = \<lparr>Token = n, ValidAfter = 0, ValidBefore = 0, tok_Description = []\<rparr>"

definition revoke :: "string list \<Rightarrow> v1_TokenAuthPutRequest" where
  "revoke ns = \<lparr>TokensToAdd = [],
     TokensToRemove = map (\<lambda>n. \<lparr>v1_Token = n, v1_ValidAfter = None, v1_ValidBefore = None, v1_Description = None\<rparr>) ns,
     ta_PathWhitelistToAdd = [], ta_PathWhitelistToRemove = [], ta_SetEnabled = None, ta_SetHeader = None\<rparr>"

theorem revoking_two_tokens_keeps_the_second_witness:
  "\<exists>ta'. TokenAuth_Merge (revoke [''t1'', ''t2'']) \<lparr>Header = ''x-token'', Tokens = map token_named [''t1'', ''t2'', ''t3''],
      ta_Enabled = True, ta_PathWhitelist = []\<rparr> = Inr ta' \<and> Tokens ta' = [token_named ''t2'']"
  using revoking_two_tokens_keeps_the_second [of "\<lparr>Header = ''x-token'', Tokens = map token_named [''t1'', ''t2'', ''t3''],
      ta_Enabled = True, ta_PathWhitelist = []\<rparr>" "[]" "token_named ''t1''" "token_named ''t2''" "[token_named ''t3'']"
      "revoke [''t1'', ''t2'']"]
  by (auto simp: token_named_def revoke_def)

text \<open>
  C14: What the merge does to the tokens when a request removes at most one stored token, whatever
  it adds: it succeeds as far as the tokens are concerned, the token names afterwards are the old
  ones without the removed one and with the added ones, and no name occurs twice if none did before.
\<close>

theorem token_merge_updates_the_set_of_tokens:
  assumes "length (removal_indexes Token v1_Token 0 (Tokens ta) (TokensToRemove req)) \<le> 1"
    and "length (removal_indexes id id 0 (ta_PathWhitelist ta) (ta_PathWhitelistToRemove req)) \<le> 1"
    and "distinct (map Token (Tokens ta))"
  shows "\<exists>ta'. TokenAuth_Merge req ta = Inr ta' \<and> distinct (map Token (Tokens ta'))
    \<and> Token ` set (Tokens ta') = (Token ` set (Tokens ta) - v1_Token ` set (TokensToRemove req)) \<union> v1_Token ` set (TokensToAdd req)
    \<and> set (ta_PathWhitelist ta') = (set (ta_PathWhitelist ta) - set (ta_PathWhitelistToRemove req)) \<union> set (ta_PathWhitelistToAdd req)"
proof -
  let ?kept = "filter (\<lambda>t. Token t \<notin> v1_Token ` set (TokensToRemove req)) (Tokens ta)"
  let ?paths = "filter (\<lambda>p. p \<notin> set (ta_PathWhitelistToRemove req)) (ta_PathWhitelist ta)"
  have "\<exists>ta'. TokenAuth_Merge req ta = Inr ta' \<and> Tokens ta' = fold add_token (TokensToAdd req) ?kept
      \<and> ta_PathWhitelist ta' = fold add_path (ta_PathWhitelistToAdd req) ?paths"
    using remove_matching_one [OF assms(1)] remove_matching_one [OF assms(2)]
    by (auto simp: TokenAuth_Merge_def Let_def split: option.splits)
  then obtain ta' where ta': "TokenAuth_Merge req ta = Inr ta'" "Tokens ta' = fold add_token (TokensToAdd req) ?kept"
      "ta_PathWhitelist ta' = fold add_path (ta_PathWhitelistToAdd req) ?paths"
    by blast
  have "distinct (map Token (Tokens ta'))"
    unfolding ta'(2) by (rule tokens.add_all_distinct) (simp add: distinct_map_filter assms(3))
  moreover have "Token ` set (Tokens ta') = Token ` set ?kept \<union> v1_Token ` set (TokensToAdd req)"
    unfolding ta'(2) using tokens.add_all_keys [of "TokensToAdd req" ?kept] by simp
  moreover have "set (ta_PathWhitelist ta') = set ?paths \<union> set (ta_PathWhitelistToAdd req)"
    unfolding ta'(3) using paths.add_all_keys [of "ta_PathWhitelistToAdd req" ?paths] by simp
  moreover have "Token ` set ?kept = Token ` set (Tokens ta) - v1_Token ` set (TokensToRemove req)"
    by (auto simp: image_iff)
  moreover have "set ?paths = set (ta_PathWhitelist ta) - set (ta_PathWhitelistToRemove req)" by auto
  ultimately show ?thesis using ta'(1) by metis
qed

theorem token_merge_updates_the_set_of_tokens_witness:
  "\<exists>ta'. TokenAuth_Merge (revoke [''t2'', ''t9'']) \<lparr>Header = ''x-token'', Tokens = map token_named [''t1'', ''t2'', ''t3''],
      ta_Enabled = True, ta_PathWhitelist = []\<rparr> = Inr ta' \<and> Token ` set (Tokens ta') = {''t1'', ''t3''}"
  using token_merge_updates_the_set_of_tokens [of "\<lparr>Header = ''x-token'', Tokens = map token_named [''t1'', ''t2'', ''t3''],
      ta_Enabled = True, ta_PathWhitelist = []\<rparr>" "revoke [''t2'', ''t9'']"]
  by (auto simp: token_named_def revoke_def insert_Diff_if)

lemma removal_from_Nil [simp]: "remove_matching key rkey [] rs = Inr []"
  by (simp add: remove_matching_def)

text \<open>
  The first change of a new protection.  A protection is created with an empty desired state;
  merging a request into it panics exactly when the request sets the WAF, or sets the bot protection or
  its captcha without saying whether it is enabled.
\<close>

theorem first_update_panics_iff:
  "(\<exists>e. desired_state_Merge req zero_desired_state = Inl e) \<longleftrightarrow>
     (\<exists>r. put_Waf req = Some r) \<or> antibot_nil_write (put_AntiBot req) zero_antibot"
proof -
  have "\<exists>x. merge_part BasicAuth_Merge zero_basic_auth (put_BasicAuth req) None = Inr x"
    by (auto simp: merge_part_def BasicAuth_Merge_def zero_basic_auth_def Let_def split: option.split)
  moreover have "\<exists>y. merge_part TokenAuth_Merge zero_token_auth (put_TokenAuth req) None = Inr y"
    by (auto simp: merge_part_def TokenAuth_Merge_def zero_token_auth_def Let_def split: option.split)
  ultimately show ?thesis
    by (cases "put_Waf req") (auto simp: desired_state_Merge_def zero_desired_state_def merge_waf_def Waf_FromProto_def Let_def
        bind_res_eq_Inl_iff AntiBot_Merge_fails)
qed

text \<open>
  Anti-bot settings after a merge.  Whatever is merged, the result has a value for each
  setting with a default and a captcha; a value of the request replaces the stored one and the other
  stored values are kept; and a merge into complete settings can only panic on the captcha's flag.
\<close>

theorem antibot_merge_completes_the_settings:
  assumes "AntiBot_Merge (Some req) b = Inr b'"
  shows "antibot_complete b'
    \<and> (\<forall>n. v1_FailThreshold req = Some n \<longrightarrow> v1_FailThreshold b' = Some n)
    \<and> (\<forall>n. v1_FailThreshold req = None \<longrightarrow> v1_FailThreshold b = Some n \<longrightarrow> v1_FailThreshold b' = Some n)
    \<and> (\<forall>req' e. AntiBot_Merge (Some req') b' = Inl e \<longrightarrow>
         (\<exists>rc c. v1_CaptchaV2 req' = Some rc \<and> v1_CaptchaEnabled rc = None \<and> v1_CaptchaV2 b' = Some c \<and> v1_CaptchaEnabled c = None))"
proof -
  have c: "antibot_complete b'"
    using assms by (auto simp: AntiBot_Merge_def antibot_complete_def bind_res_eq_Inr_iff dest: merge_enabled_Inr)
  have "v1_FailThreshold b' = set_or_default (v1_FailThreshold req) (v1_FailThreshold b) 10"
    using assms by (auto simp: AntiBot_Merge_def bind_res_eq_Inr_iff)
  moreover have "\<exists>rc c. v1_CaptchaV2 req' = Some rc \<and> v1_CaptchaEnabled rc = None \<and> v1_CaptchaV2 b' = Some c \<and> v1_CaptchaEnabled c = None"
    if "AntiBot_Merge (Some req') b' = Inl e" for req' e
    using that c unfolding AntiBot_Merge_fails
    by (auto simp: antibot_nil_write_def antibot_complete_def split: option.splits)
  ultimately show ?thesis using c by (auto simp: set_or_default_def)
qed

theorem antibot_merge_completes_the_settings_witness:
  "\<exists>b'. AntiBot_Merge (Some (zero_antibot\<lparr>v1_AntiBotEnabled := Some True\<rparr>)) zero_antibot = Inr b' \<and> antibot_complete b'"
proof -
  obtain b' where b': "AntiBot_Merge (Some (zero_antibot\<lparr>v1_AntiBotEnabled := Some True\<rparr>)) zero_antibot = Inr b'"
    by (simp add: AntiBot_Merge_def merge_enabled_def CaptchaV2_Merge_def zero_antibot_def)
  with antibot_merge_completes_the_settings [OF b'] show ?thesis by blast
qed

lemma addIPs_set: "set (addIPs current new) = set current \<union> set new"
proof -
  have "set (fold (\<lambda>ip res. if ip \<in> set res then res else res @ [ip]) new xs) = set xs \<union> set new" for xs
    by (induction new arbitrary: xs) auto
  then show ?thesis by (auto simp: addIPs_def)
qed

lemma addIPs_distinct: "distinct current \<Longrightarrow> distinct (addIPs current new)"
proof -
  have "distinct xs \<Longrightarrow> distinct (fold (\<lambda>ip res. if ip \<in> set res then res else res @ [ip]) new xs)" for xs
    by (induction new arbitrary: xs) auto
  then show "distinct current \<Longrightarrow> distinct (addIPs current new)" by (simp add: addIPs_def)
qed

definition opt_cidrs :: "(v1_IPRules \<Rightarrow> string list) \<Rightarrow> v1_IPRules option \<Rightarrow> string set" where
  "opt_cidrs sel r = (case r of None \<Rightarrow> {} | Some r \<Rightarrow> set (sel r))"

text \<open>
  IP rules are merged as sets: the rules to remove are taken away first, then the rules to add are
  joined, separately for the allowed and the blocked networks, and no network is listed twice if none
  was before.
\<close>

theorem ip_rules_are_merged_as_sets:
  "set (ip_Allow (IPRules_Merge req p)) = (set (ip_Allow p) - opt_cidrs v1_Allow (IpRulesToRemove req)) \<union> opt_cidrs v1_Allow (IpRulesToAdd req)
   \<and> set (ip_Block (IPRules_Merge req p)) = (set (ip_Block p) - opt_cidrs v1_Block (IpRulesToRemove req)) \<union> opt_cidrs v1_Block (IpRulesToAdd req)
   \<and> (distinct (ip_Allow p) \<longrightarrow> distinct (ip_Allow (IPRules_Merge req p)))
   \<and> (distinct (ip_Block p) \<longrightarrow> distinct (ip_Block (IPRules_Merge req p)))"
  by (auto simp: IPRules_Merge_def IPRules_FromProto_def opt_cidrs_def removeIPs_def addIPs_set addIPs_distinct
      split: option.splits)

definition empty_request :: PutProtectionRequest where
  "empty_request = \<lparr>put_Id = 1, put_ProtectionMode = None, put_Waf = None, put_XffNumTrustedHops = None, IpRulesToAdd = None,
     IpRulesToRemove = None, put_BasicAuth = None, put_TokenAuth = None, put_AntiBot = None\<rparr>"

theorem ip_rules_are_merged_as_sets_witness:
  "set (ip_Block (IPRules_Merge (empty_request\<lparr>IpRulesToRemove := Some \<lparr>v1_Block = [''10.0.0.0/8''], v1_Allow = []\<rparr>,
      IpRulesToAdd := Some \<lparr>v1_Block = [''10.1.0.0/16''], v1_Allow = []\<rparr>\<rparr>)
      \<lparr>ip_Block = [''10.0.0.0/8'', ''10.2.0.0/16''], ip_Allow = []\<rparr>)) = {''10.1.0.0/16'', ''10.2.0.0/16''}"
  using ip_rules_are_merged_as_sets [of "empty_request\<lparr>IpRulesToRemove := Some \<lparr>v1_Block = [''10.0.0.0/8''], v1_Allow = []\<rparr>,
      IpRulesToAdd := Some \<lparr>v1_Block = [''10.1.0.0/16''], v1_Allow = []\<rparr>\<rparr>"
      "\<lparr>ip_Block = [''10.0.0.0/8'', ''10.2.0.0/16''], ip_Allow = []\<rparr>"]
  by (auto simp: opt_cidrs_def)

lemma add_user_keeps: "u \<in> set users \<Longrightarrow> u \<in> set (fold add_user rs users)"
  by (induction rs arbitrary: users) (auto simp: add_user_def)

text \<open>
  A password that was set cannot be changed.  If a user is stored and not removed, then after a merge
  the user has the password it had before, whatever passwords the request gives for it.
\<close>

theorem password_update_has_no_effect:
  assumes "u \<in> set (Users ba)" and "distinct (map User (Users ba))" and "User u \<notin> v1_User ` set (UsersToRemove req)"
    and "length (removal_indexes User v1_User 0 (Users ba) (UsersToRemove req)) \<le> 1"
    and "length (removal_indexes id id 0 (ba_PathWhitelist ba) (ba_PathWhitelistToRemove req)) \<le> 1"
  shows "\<exists>ba'. BasicAuth_Merge req ba = Inr ba' \<and> (\<forall>u'. u' \<in> set (Users ba') \<and> User u' = User u \<longleftrightarrow> u' = u)"
proof -
  let ?kept = "filter (\<lambda>x. User x \<notin> v1_User ` set (UsersToRemove req)) (Users ba)"
  have "\<exists>ba'. BasicAuth_Merge req ba = Inr ba' \<and> Users ba' = fold add_user (UsersToAdd req) ?kept"
    using remove_matching_one [OF assms(4)] remove_matching_one [OF assms(5)]
    by (auto simp: BasicAuth_Merge_def Let_def split: option.splits)
  then obtain ba' where ba': "BasicAuth_Merge req ba = Inr ba'" "Users ba' = fold add_user (UsersToAdd req) ?kept"
    by blast
  have "u \<in> set (Users ba')" unfolding ba'(2) using assms(1,3) by (intro add_user_keeps) simp
  moreover have "distinct (map User (Users ba'))"
    unfolding ba'(2) by (rule users.add_all_distinct) (simp add: distinct_map_filter assms(2))
  ultimately have "\<forall>u'. u' \<in> set (Users ba') \<and> User u' = User u \<longleftrightarrow> u' = u"
    by (auto simp: distinct_map inj_on_def)
  with ba'(1) show ?thesis by blast
qed

theorem password_update_has_no_effect_witness:
  "\<exists>ba'. BasicAuth_Merge \<lparr>UsersToAdd = [\<lparr>v1_User = ''ann'', v1_Pass = ''new''\<rparr>], UsersToRemove = [],
       ba_PathWhitelistToAdd = [], ba_PathWhitelistToRemove = [], ba_SetEnabled = None\<rparr>
     \<lparr>Users = [\<lparr>User = ''ann'', Pass = ''old''\<rparr>], ba_Enabled = True, ba_PathWhitelist = []\<rparr> = Inr ba'
     \<and> (\<forall>u'. u' \<in> set (Users ba') \<and> User u' = ''ann'' \<longleftrightarrow> u' = \<lparr>User = ''ann'', Pass = ''old''\<rparr>)"
  using password_update_has_no_effect [of "\<lparr>User = ''ann'', Pass = ''old''\<rparr>"
      "\<lparr>Users = [\<lparr>User = ''ann'', Pass = ''old''\<rparr>], ba_Enabled = True, ba_PathWhitelist = []\<rparr>"
      "\<lparr>UsersToAdd = [\<lparr>v1_User = ''ann'', v1_Pass = ''new''\<rparr>], UsersToRemove = [],
       ba_PathWhitelistToAdd = [], ba_PathWhitelistToRemove = [], ba_SetEnabled = None\<rparr>"]
  by simp

lemma desired_state_Merge_IPRules: "desired_state_Merge req s = Inr s' \<Longrightarrow> \<exists>ips. ds_IPRules s' = Some ips"
  by (auto simp: desired_state_Merge_def Let_def bind_res_eq_Inr_iff)

lemma IPRules_Validate_None: "IPRules_Validate ips = None \<longleftrightarrow> list_all parse_cidr (ip_Block ips)"
proof -
  have "\<not> parse_cidr []" by (simp add: parse_cidr_def)
  then have "find (\<lambda>cidr. cidr = [] \<or> \<not> parse_cidr cidr) (ip_Block ips) = None \<longleftrightarrow> list_all parse_cidr (ip_Block ips)"
    by (auto simp: list_all_iff find_None_iff)
  then show ?thesis by (auto simp: IPRules_Validate_def split: option.splits)
qed

text \<open>
  What an update checks.  If a stored protection and a request merge to IP rules in which some blocked
  network is malformed, the update reports it and leaves the database alone; if the blocked networks are
  well formed, the row goes to the database, whatever the allowed networks are.
\<close>

theorem update_checks_blocked_networks_only:
  assumes "db_select repo (ucast (put_Id req)) db = Some (m, appId, desired)" and "appId \<noteq> 0"
    and "desired_state_Merge req desired = Inr desired'"
  shows "\<exists>ips. ds_IPRules desired' = Some ips
    \<and> (\<not> list_all parse_cidr (ip_Block ips) \<longrightarrow> (\<exists>e. UpdateProtection repo req db = Inr (Inl (Code_Internal_CIDR e), db)))
    \<and> (list_all parse_cidr (ip_Block ips) \<longrightarrow>
        (\<forall>n db'. db_Updates repo \<lparr>ID = ucast (put_Id req),
             Mode = (case put_ProtectionMode req of None \<Rightarrow> m | Some pm \<Rightarrow> mode_number pm),
             row_ApplicationID = appId, row_DesiredState = desired'\<rparr> db = (Inr (Suc n), db') \<longrightarrow>
          UpdateProtection repo req db = Inr (GetProtection repo (Some (put_Id req)) None db', db')))"
proof -
  from desired_state_Merge_IPRules [OF assms(3)] obtain ips where ips: "ds_IPRules desired' = Some ips" by blast
  show ?thesis
  proof (cases "IPRules_Validate ips")
    case None
    then have "list_all parse_cidr (ip_Block ips)" by (simp add: IPRules_Validate_None)
    with None ips assms show ?thesis by (simp add: UpdateProtection_def)
  next
    case (Some e)
    then have "\<not> list_all parse_cidr (ip_Block ips)" by (metis IPRules_Validate_None option.distinct(1))
    with Some ips assms show ?thesis by (auto simp: UpdateProtection_def)
  qed
qed

text \<open>A database with one row, and a request that allows a network that is none.\<close>

definition one_row_db :: "protection_row protection_db" where
  "one_row_db = \<lparr>db_select = (\<lambda>i p. if i = ID p then Some (Mode p, row_ApplicationID p, row_DesiredState p) else None),
     db_First = (\<lambda>i a p. Inr p), db_Updates = (\<lambda>p db. (Inr 1, p)), db_Save = (\<lambda>p db. (None, p)), db_Create = (\<lambda>p db. (Inr p, p))\<rparr>"

definition new_row :: protection_row where
  "new_row = \<lparr>ID = 1, Mode = 1, row_ApplicationID = 4, row_DesiredState = zero_desired_state\<rparr>"

definition allow_request :: PutProtectionRequest where
  "allow_request = empty_request\<lparr>IpRulesToAdd := Some \<lparr>v1_Block = [], v1_Allow = [''everybody'']\<rparr>\<rparr>"

theorem update_checks_blocked_networks_only_witness:
  "\<exists>p. UpdateProtection one_row_db allow_request new_row = Inr (Inr p, p)
    \<and> map_option ip_Allow (ds_IPRules (row_DesiredState p)) = Some [''everybody''] \<and> \<not> parse_cidr ''everybody''"
proof -
  obtain d where d: "desired_state_Merge allow_request zero_desired_state = Inr d"
      "ds_IPRules d = Some \<lparr>ip_Block = [], ip_Allow = [''everybody'']\<rparr>"
    by (simp add: desired_state_Merge_def merge_waf_def merge_part_def AntiBot_Merge_def IPRules_Merge_def
        IPRules_FromProto_def addIPs_def allow_request_def empty_request_def zero_desired_state_def)
  have "\<not> parse_cidr ''everybody''" by code_simp
  with update_checks_blocked_networks_only [of one_row_db allow_request new_row 1 4 zero_desired_state d] d show ?thesis
    by (auto simp: one_row_db_def new_row_def allow_request_def empty_request_def GetProtection_def)
qed

end
