(* ===== verification/Relay_Controller.thy ===== *)
theory Relay_Controller
  imports Gateway_State
begin

text \<open>
  A model of the relay controller, \<^verbatim>\<open>relay/pkg/control/controller.go\<close> and \<^verbatim>\<open>instancespec.go\<close>: on every node it
  polls the protections, derives the relay instances of the pods on its node and starts or stops them.
  The Kubernetes API (pods), the container runtime (network namespaces) and the relay processes with
  their health check are parameters; what the latter do is a change of the state \<open>'w\<close> of the world.  The
  lemmas show which pods get a relay and with which options, that these agree with the listeners of
  the gateway, and what starting an instance leads to.
\<close>

section \<open>Relay instances\<close>

record RelayOptions =
  ProxyFqdn :: string
  ProxyIp :: string
  opt_ProxyListeningPort :: string
  AppContainerPort :: string
  RelayPort :: string
  Netns :: string

record RelayInstanceSpec =
  containerId :: string
  runtimeSock :: string
  nodeName :: string
  netnsPath :: string
  apiAddr :: string
  podName :: string
  relayOptions :: RelayOptions

definition empty_options :: RelayOptions where
  "empty_options = \<lparr>ProxyFqdn = [], ProxyIp = [], opt_ProxyListeningPort = [], AppContainerPort = [], RelayPort = [], Netns = []\<rparr>"

definition ContainerdCRISock :: string where
  "ContainerdCRISock = ''unix:///run/containerd/containerd.sock''"

definition CRIoCRISock :: string where
  "CRIoCRISock = ''unix:///var/run/crio/crio.sock''"

definition parseContainerId :: "string \<Rightarrow> string + string \<times> string" where
  "parseContainerId cid = (case split_str ''://'' cid of
     [runtime, i] \<Rightarrow> if runtime = ''cri-o'' then Inr (i, CRIoCRISock)
       else if runtime = ''containerd'' then Inr (i, ContainerdCRISock)
       else Inl ''unable to detect container runtime''
   | _ \<Rightarrow> Inl ''unable to parse container id'')"

definition ApiListeningPort :: nat where
  "ApiListeningPort = 57812"

text \<open>
  The status of a container carries JSON texts.  Decoded objects are lists of entries in the order of
  their keys, in which they are printed again.
\<close>

definition as_object :: "json option \<Rightarrow> (string \<times> json) list res" where
  "as_object v = (case v of Some (JObject kvs) \<Rightarrow> Inr kvs | _ \<Rightarrow> Inl Type_Assertion)"

definition as_array :: "json option \<Rightarrow> json list res" where
  "as_array v = (case v of Some (JArray vs) \<Rightarrow> Inr vs | _ \<Rightarrow> Inl Type_Assertion)"

text \<open>
  Decoding into a map: it stays empty, and the error is only printed, if the text is not an object.
  Decoding an element into a struct: keys match without regard to case, a later entry overwrites an
  earlier one, values of another type leave the field as it is.
\<close>

definition decode_map :: "json option \<Rightarrow> (string \<times> json) list" where
  "decode_map v = (case v of Some (JObject kvs) \<Rightarrow> kvs | _ \<Rightarrow> [])"

definition string_field :: "string \<Rightarrow> json \<Rightarrow> string" where
  "string_field name v = (case v of
     JObject kvs \<Rightarrow> fold (\<lambda>(k, w) cur. if to_lower k = name then (case w of JString s \<Rightarrow> s | _ \<Rightarrow> cur) else cur) kvs []
   | _ \<Rightarrow> [])"

definition getContainerNetworkNs :: "(string \<Rightarrow> json option) \<Rightarrow> (string \<rightharpoonup> string) \<Rightarrow> string eres" where
  "getContainerNetworkNs unmarshal info = (case info ''info'' of
     None \<Rightarrow> Inr (Inl ''info not found in response'')
   | Some text \<Rightarrow>
       bind_res (as_object (map_of (decode_map (unmarshal text)) ''runtimeSpec'')) (\<lambda>runtimeSpec.
       bind_res (as_object (map_of runtimeSpec ''linux'')) (\<lambda>linux.
       bind_res (as_array (map_of linux ''namespaces'')) (\<lambda>namespaces.
         (case find (\<lambda>ns. string_field ''type'' ns = ''network'') namespaces of
            None \<Rightarrow> Inr (Inl ''failed to find network namespace'')
          | Some ns \<Rightarrow> Inr (Inr (string_field ''path'' ns)))))))"

text \<open>
  The world of the controller: the pod of a name in a namespace with the ids of its containers, the status
  information of a container from its runtime, the JSON decoder, the health check in a namespace, starting the relay binary,
  the two calls of its service, and the passing of time.
\<close>

datatype health = Unavailable | Check_Failed | Serving | Not_Serving

record 'w relay_env =
  get_pod :: "string \<Rightarrow> string \<Rightarrow> (string \<times> string list) option"
  ContainerStatus :: "string \<Rightarrow> string \<Rightarrow> string + (string \<rightharpoonup> string)"
  json_unmarshal :: "string \<Rightarrow> json option"
  health_check :: "string \<Rightarrow> 'w \<Rightarrow> health"
  run_binary :: "string \<Rightarrow> 'w \<Rightarrow> string option \<times> 'w"
  call_StartRelay :: "string \<Rightarrow> RelayOptions \<Rightarrow> 'w \<Rightarrow> string option \<times> 'w"
  call_StopRelay :: "string \<Rightarrow> 'w \<Rightarrow> string option \<times> 'w"
  pass_time :: "'w \<Rightarrow> 'w"

definition discoverNetnsPath :: "'w relay_env \<Rightarrow> string \<Rightarrow> string \<Rightarrow> string eres" where
  "discoverNetnsPath env sock i = (case ContainerStatus env sock i of
     Inl err \<Rightarrow> Inr (Inl (''failed to get container status: '' @ err @ [CHR 0x0A]))
   | Inr info \<Rightarrow> getContainerNetworkNs (json_unmarshal env) info)"

definition NewRelayInstanceSpec ::
    "'w relay_env \<Rightarrow> string \<Rightarrow> string \<Rightarrow> string \<Rightarrow> RelayOptions \<Rightarrow> RelayInstanceSpec eres" where
  "NewRelayInstanceSpec env cid pod node options =
     bind_e (Inr (parseContainerId cid)) (\<lambda>(i, sock).
     bind_e (discoverNetnsPath env sock i) (\<lambda>path.
       Inr (Inr \<lparr>containerId = i, runtimeSock = sock, nodeName = node, netnsPath = path,
            apiAddr = ''http://127.0.0.1:'' @ dec_nat ApiListeningPort, podName = pod, relayOptions = options\<lparr>Netns := path\<rparr>\<rparr>)))"

definition relayRunning :: "'w relay_env \<Rightarrow> RelayInstanceSpec \<Rightarrow> 'w \<Rightarrow> bool" where
  "relayRunning env s w = (case health_check env (netnsPath s) w of
     Unavailable \<Rightarrow> False | Check_Failed \<Rightarrow> True | Serving \<Rightarrow> True | Not_Serving \<Rightarrow> False)"

definition startRelay :: "'w relay_env \<Rightarrow> RelayInstanceSpec \<Rightarrow> 'w \<Rightarrow> string option \<times> 'w" where
  "startRelay env s w = (if \<not> relayRunning env s w then (None, w)
     else call_StartRelay env (netnsPath s) (relayOptions s) w)"

definition StartSpec :: "'w relay_env \<Rightarrow> RelayInstanceSpec \<Rightarrow> 'w \<Rightarrow> string option \<times> 'w" where
  "StartSpec env s w =
     (if \<not> relayRunning env s w then
        (case run_binary env (netnsPath s) w of
           (Some e, w) \<Rightarrow> (Some e, w)
         | (None, w) \<Rightarrow> startRelay env s (pass_time env w))
      else startRelay env s w)"

definition StopSpec :: "'w relay_env \<Rightarrow> RelayInstanceSpec \<Rightarrow> 'w \<Rightarrow> string option \<times> 'w" where
  "StopSpec env s w = (if \<not> relayRunning env s w then (None, w) else call_StopRelay env (netnsPath s) w)"

section \<open>The controller\<close>

definition discoverRelayOptions :: "Protection \<Rightarrow> (string + RelayOptions) res" where
  "discoverRelayOptions p =
     (if prot_Mode p = PROTECTION_MODE_OFF \<or> prot_Mode p = PROTECTION_MODE_UNSPECIFIED then Inr (Inr empty_options)
      else bind_res (protectionContainerPort p) (\<lambda>port. case port of
        Inl err \<Rightarrow> Inr (Inl err)
      | Inr port \<Rightarrow> Inr (Inr (empty_options\<lparr>ProxyFqdn := ''wafie-gateway.default.svc'',
          opt_ProxyListeningPort := dec_nat (unat (ProxyListeningPort port)),
          AppContainerPort := dec_nat (unat (Number port)), RelayPort := ''50010''\<rparr>))))"

text \<open>
  One endpoint: every failure is logged and skips the endpoint; nil pointers and a container status of
  another shape panic.
\<close>

definition endpoint_spec :: "'w relay_env \<Rightarrow> string \<Rightarrow> Protection \<Rightarrow> Endpoint \<Rightarrow> RelayInstanceSpec list res" where
  "endpoint_spec env node p ep = (case get_pod env (ep_Namespace ep) (ep_Name ep) of
     None \<Rightarrow> Inr []
   | Some (pod, []) \<Rightarrow> Inr []
   | Some (pod, cid # _) \<Rightarrow>
       if NodeName ep \<noteq> node then Inr []
       else bind_res (discoverRelayOptions p) (\<lambda>opts. case opts of
         Inl err \<Rightarrow> Inr []
       | Inr opts \<Rightarrow> bind_res (NewRelayInstanceSpec env cid pod (NodeName ep) opts) (\<lambda>spec. case spec of
           Inl err \<Rightarrow> Inr []
         | Inr spec \<Rightarrow> Inr [spec])))"

definition getRelayInstanceSpecs :: "'w relay_env \<Rightarrow> string \<Rightarrow> Protection \<Rightarrow> RelayInstanceSpec list res" where
  "getRelayInstanceSpecs env node p =
     bind_res (protection_app p) (\<lambda>app.
       fold_res (\<lambda>specs i. bind_res (deref (ing_Upstream i)) (\<lambda>u.
         fold_res (\<lambda>specs ep. bind_res (endpoint_spec env node p ep) (\<lambda>new. Inr (specs @ new))) specs (Endpoints u)))
       [] (app_Ingress app))"

definition deployRelayInstances :: "'w relay_env \<Rightarrow> RelayInstanceSpec list \<Rightarrow> 'w \<Rightarrow> 'w" where
  "deployRelayInstances env specs w = fold (\<lambda>s w. snd (StartSpec env s w)) specs w"

definition destroyRelayInstances :: "'w relay_env \<Rightarrow> RelayInstanceSpec list \<Rightarrow> 'w \<Rightarrow> 'w" where
  "destroyRelayInstances env specs w = fold (\<lambda>s w. snd (StopSpec env s w)) specs w"

definition apply_protection :: "'w relay_env \<Rightarrow> string \<Rightarrow> 'w \<Rightarrow> Protection \<Rightarrow> 'w res" where
  "apply_protection env node w p =
     bind_res (getRelayInstanceSpecs env node p) (\<lambda>specs. Inr (case prot_Mode p of
       PROTECTION_MODE_ON \<Rightarrow> deployRelayInstances env specs w
     | PROTECTION_MODE_OFF \<Rightarrow> destroyRelayInstances env specs w
     | _ \<Rightarrow> w))"

text \<open>A round of \<open>Run\<close>; the state is the known version and the world.\<close>

definition controller_round ::
    "'w relay_env \<Rightarrow> string \<Rightarrow> string option \<Rightarrow> Protection list option \<Rightarrow> string \<times> 'w \<Rightarrow> (string \<times> 'w) res" where
  "controller_round env node resp listed st = (case (resp, st) of
     (None, _) \<Rightarrow> Inr st
   | (Some v, (version, w)) \<Rightarrow>
       if v = version then Inr st
       else (case listed of None \<Rightarrow> Inr (v, w)
         | Some ps \<Rightarrow> bind_res (fold_res (apply_protection env node) w ps) (\<lambda>w. Inr (v, w))))"

interpretation relay_poll: version_poller "controller_round env node" fst "\<lambda>v st. (v, snd st)"
  by unfold_locales (auto simp: controller_round_def split: prod.splits)

section \<open>Which relays there are\<close>

lemma split_str_first:
  assumes "x \<notin> set p" and "sep = x # sep'"
  shows "split_str sep (p @ sep @ s) = p # split_str sep s"
  using assms(1)
proof (induction p)
  case Nil
  show ?case by (subst split_str.simps) (simp add: assms(2) has_prefix_def)
next
  case (Cons c p)
  then have "\<not> has_prefix (c # p @ sep @ s) sep" by (auto simp: assms(2) has_prefix_def)
  with Cons show ?case by (subst split_str.simps) simp
qed

lemma split_str_none:
  assumes "x \<notin> set s" and "sep = x # sep'"
  shows "split_str sep s = [s]"
  using assms(1)
proof (induction s)
  case Nil
  show ?case by (subst split_str.simps) (simp add: assms(2) has_prefix_def)
next
  case (Cons c s)
  then have "\<not> has_prefix (c # s) sep" by (auto simp: assms(2) has_prefix_def)
  with Cons show ?case by (subst split_str.simps) simp
qed

text \<open>The container id of a runtime is read back from its URL.\<close>

lemma parseContainerId_url:
  assumes "CHR '':'' \<notin> set i"
  shows "parseContainerId (''containerd'' @ ''://'' @ i) = Inr (i, ContainerdCRISock)"
    and "parseContainerId (''cri-o'' @ ''://'' @ i) = Inr (i, CRIoCRISock)"
proof -
  have "split_str ''://'' (p @ ''://'' @ i) = [p, i]" if "CHR '':'' \<notin> set p" for p
    using split_str_first [OF that, of "''://''" "''//''" i] split_str_none [OF assms, of "''://''" "''//''"] by simp
  from this [of "''containerd''"] this [of "''cri-o''"]
  show "parseContainerId (''containerd'' @ ''://'' @ i) = Inr (i, ContainerdCRISock)"
    and "parseContainerId (''cri-o'' @ ''://'' @ i) = Inr (i, CRIoCRISock)"
    by (simp_all add: parseContainerId_def)
qed

text \<open>A spec that comes from an endpoint of the protection on the node.\<close>

definition spec_of_endpoint :: "'w relay_env \<Rightarrow> string \<Rightarrow> Protection \<Rightarrow> Endpoint \<Rightarrow> RelayInstanceSpec \<Rightarrow> bool" where
  "spec_of_endpoint env node p ep spec \<longleftrightarrow> NodeName ep = node \<and> nodeName spec = node
     \<and> (\<exists>cid cids opts. get_pod env (ep_Namespace ep) (ep_Name ep) = Some (podName spec, cid # cids)
          \<and> parseContainerId cid = Inr (containerId spec, runtimeSock spec)
          \<and> discoverNetnsPath env (runtimeSock spec) (containerId spec) = Inr (Inr (netnsPath spec))
          \<and> discoverRelayOptions p = Inr (Inr opts) \<and> relayOptions spec = opts\<lparr>Netns := netnsPath spec\<rparr>)"

lemma NewRelayInstanceSpec_fields:
  assumes "NewRelayInstanceSpec env cid pod node opts = Inr (Inr spec)"
  shows "parseContainerId cid = Inr (containerId spec, runtimeSock spec)"
    and "discoverNetnsPath env (runtimeSock spec) (containerId spec) = Inr (Inr (netnsPath spec))"
    and "nodeName spec = node" and "podName spec = pod" and "relayOptions spec = opts\<lparr>Netns := netnsPath spec\<rparr>"
  using assms by (auto simp: NewRelayInstanceSpec_def bind_e_eq_Inr_Inr)

lemma endpoint_spec_sound:
  assumes "endpoint_spec env node p ep = Inr specs" and "spec \<in> set specs"
  shows "spec_of_endpoint env node p ep spec"
proof -
  from assms obtain pod cid cids where pod: "get_pod env (ep_Namespace ep) (ep_Name ep) = Some (pod, cid # cids)"
      "NodeName ep = node"
    by (auto simp: endpoint_spec_def split: option.splits list.splits if_splits)
  with assms(1) obtain o' where o': "discoverRelayOptions p = Inr o'"
      "(case o' of Inl err \<Rightarrow> Inr [] | Inr opts \<Rightarrow> bind_res (NewRelayInstanceSpec env cid pod (NodeName ep) opts)
         (\<lambda>spec. case spec of Inl err \<Rightarrow> Inr [] | Inr spec \<Rightarrow> Inr [spec])) = (Inr specs :: RelayInstanceSpec list res)"
    by (auto simp: endpoint_spec_def bind_res_eq_Inr_iff)
  with assms(2) obtain opts s' where s': "o' = Inr opts" "NewRelayInstanceSpec env cid pod (NodeName ep) opts = Inr s'"
      "(case s' of Inl err \<Rightarrow> Inr [] | Inr spec \<Rightarrow> Inr [spec]) = (Inr specs :: RelayInstanceSpec list res)"
    by (cases o') (auto simp: bind_res_eq_Inr_iff)
  with assms(2) have opts: "o' = Inr opts" "NewRelayInstanceSpec env cid pod (NodeName ep) opts = Inr (Inr spec)"
    by (cases s'; simp; fastforce)+
  note f = NewRelayInstanceSpec_fields [OF opts(2)]
  from pod o'(1) opts(1) f show ?thesis unfolding spec_of_endpoint_def by blast
qed

lemma fold_collect:
  assumes "fold_res (\<lambda>acc x. bind_res (f x) (\<lambda>new. Inr (acc @ new))) acc xs = Inr out" and "y \<in> set out"
  shows "y \<in> set acc \<or> (\<exists>x \<in> set xs. \<exists>new. f x = Inr new \<and> y \<in> set new)"
  using assms by (induction xs arbitrary: acc) (auto simp: bind_res_eq_Inr_iff, force)

lemma specs_sound:
  assumes "getRelayInstanceSpecs env node p = Inr specs" and "spec \<in> set specs"
  shows "\<exists>app ing u ep. prot_Application p = Some app \<and> ing \<in> set (app_Ingress app) \<and> ing_Upstream ing = Some u
    \<and> ep \<in> set (Endpoints u) \<and> spec_of_endpoint env node p ep spec"
proof -
  let ?step = "\<lambda>specs i. bind_res (deref (ing_Upstream i)) (\<lambda>u.
         fold_res (\<lambda>specs ep. bind_res (endpoint_spec env node p ep) (\<lambda>new. Inr (specs @ new))) specs (Endpoints u))"
  from assms(1) obtain app where app: "prot_Application p = Some app" "fold_res ?step [] (app_Ingress app) = Inr specs"
    by (auto simp: getRelayInstanceSpecs_def protection_app_def bind_res_eq_Inr_iff)
  have "\<exists>ing \<in> set is. \<exists>u ep. ing_Upstream ing = Some u \<and> ep \<in> set (Endpoints u) \<and> spec_of_endpoint env node p ep spec"
    if "fold_res ?step acc is = Inr out" "spec \<in> set out" "spec \<notin> set acc" for acc "is" out
    using that
  proof (induction "is" arbitrary: acc)
    case (Cons i "is")
    then obtain u acc' where u: "ing_Upstream i = Some u"
        "fold_res (\<lambda>specs ep. bind_res (endpoint_spec env node p ep) (\<lambda>new. Inr (specs @ new))) acc (Endpoints u) = Inr acc'"
        "fold_res ?step acc' is = Inr out"
      by (auto simp: bind_res_eq_Inr_iff)
    show ?case
    proof (cases "spec \<in> set acc'")
      case True
      with fold_collect [OF u(2)] Cons.prems(3) u(1) endpoint_spec_sound show ?thesis by fastforce
    next
      case False
      with Cons.IH [OF u(3) Cons.prems(2)] show ?thesis by auto
    qed
  qed simp
  with app assms(2) show ?thesis by fastforce
qed

section \<open>Properties\<close>

text \<open>
  Which relays a controller handles: every instance that it derives from a protection belongs to an
  endpoint of one of the upstreams of the protection that runs on the controller's own node, with the
  name of its pod, the container and network namespace that the runtime reports for its first container,
  and options that carry this namespace.
\<close>

theorem relays_belong_to_pods_of_the_node:
  assumes "getRelayInstanceSpecs env node p = Inr specs" and "spec \<in> set specs"
  shows "nodeName spec = node \<and> Netns (relayOptions spec) = netnsPath spec
    \<and> (\<exists>app ing u ep. prot_Application p = Some app \<and> ing \<in> set (app_Ingress app) \<and> ing_Upstream ing = Some u
         \<and> ep \<in> set (Endpoints u) \<and> spec_of_endpoint env node p ep spec)"
  using specs_sound [OF assms] by (auto simp: spec_of_endpoint_def)

text \<open>A cluster with one pod, in which every container has a namespace and relays answer at once.\<close>

definition one_pod_env :: "string list relay_env" where
  "one_pod_env = \<lparr>get_pod = (\<lambda>ns n. if n = ''shop-0'' then Some (n, [''containerd://c1'']) else None),
     ContainerStatus = (\<lambda>sock i. Inr [''info'' \<mapsto> i]),
     json_unmarshal = (\<lambda>text. Some (JObject [(''runtimeSpec'', JObject [(''linux'', JObject [(''namespaces'',
       JArray [JObject [(''type'', JString ''pid'')],
         JObject [(''path'', JString (''/proc/'' @ text)), (''type'', JString ''network'')]])])])])),
     health_check = (\<lambda>ns w. if w = [] then Unavailable else Serving),
     run_binary = (\<lambda>ns w. (None, w @ [''run''])), call_StartRelay = (\<lambda>ns opts w. (None, w @ [''start''])),
     call_StopRelay = (\<lambda>ns w. (None, w @ [''stop''])), pass_time = (\<lambda>w. w)\<rparr>"

lemma shop_specs:
  "\<exists>spec. getRelayInstanceSpecs one_pod_env ''n1'' shop_protection = Inr [spec] \<and> podName spec = ''shop-0''"
proof -
  have "parseContainerId ''containerd://c1'' = Inr (''c1'', ContainerdCRISock)"
    using parseContainerId_url(1) [of "''c1''"] by simp
  then show ?thesis
    by (simp add: getRelayInstanceSpecs_def protection_app_def shop_protection_def shop_upstream_def endpoint_spec_def
        one_pod_env_def NewRelayInstanceSpec_def discoverNetnsPath_def getContainerNetworkNs_def as_object_def as_array_def
        decode_map_def string_field_def discoverRelayOptions_def protectionContainerPort_def
        protection_upstream_def is_container_port_def)
qed

theorem relays_belong_to_pods_of_the_node_witness:
  "\<exists>spec. getRelayInstanceSpecs one_pod_env ''n1'' shop_protection = Inr [spec] \<and> nodeName spec = ''n1''"
proof -
  from shop_specs obtain spec where s: "getRelayInstanceSpecs one_pod_env ''n1'' shop_protection = Inr [spec]" by blast
  with relays_belong_to_pods_of_the_node [OF s] show ?thesis by auto
qed

lemma gw_listener_port:
  assumes "gw_listener marshals i p = Inr l" and "protectionContainerPort p = Inr (Inr port)"
  shows "\<exists>l'. l = Some l' \<and> ls_Port l' = ProxyListeningPort port"
  using assms by (auto simp: gw_listener_def bind_res_eq_Inr_iff)

lemma options_on:
  assumes "discoverRelayOptions p = Inr (Inr opts)" and "prot_Mode p = PROTECTION_MODE_ON"
  shows "\<exists>port. protectionContainerPort p = Inr (Inr port)
    \<and> opt_ProxyListeningPort opts = dec_nat (unat (ProxyListeningPort port))"
proof -
  from assms obtain port where "protectionContainerPort p = Inr port"
      "(case port of Inl err \<Rightarrow> Inr (Inl err) | Inr port \<Rightarrow> Inr (Inr (empty_options\<lparr>ProxyFqdn := ''wafie-gateway.default.svc'',
          opt_ProxyListeningPort := dec_nat (unat (ProxyListeningPort port)),
          AppContainerPort := dec_nat (unat (Number port)), RelayPort := ''50010''\<rparr>))) = (Inr (Inr opts) :: (string + RelayOptions) res)"
    by (auto simp: discoverRelayOptions_def bind_res_eq_Inr_iff)
  then show ?thesis by (cases port) auto
qed

text \<open>
  The relays and the gateway agree on the port.  If the resources of the gateway are built from the
  same list of protections, every relay instance of a protection that is on forwards to a port on which
  the gateway has a listener, the one of that protection, and this listener is not nil.
\<close>

theorem relays_forward_to_the_listener:
  assumes "buildResources marshals sock ps = Inr (ls, cs)" and "i < length ps" and "prot_Mode (ps ! i) = PROTECTION_MODE_ON"
    and "getRelayInstanceSpecs env node (ps ! i) = Inr specs" and "spec \<in> set specs"
  shows "\<exists>l. ls ! i = Some l \<and> opt_ProxyListeningPort (relayOptions spec) = dec_nat (unat (ls_Port l))"
proof -
  from assms(1) have "listeners_from marshals 0 ps = Inr ls"
    by (auto simp: buildResources_def gw_listeners_def bind_res_eq_Inr_iff)
  with assms(2) have l: "gw_listener marshals i (ps ! i) = Inr (ls ! i)" using listeners_from_nth by fastforce
  from specs_sound [OF assms(4,5)] obtain opts where
    o: "discoverRelayOptions (ps ! i) = Inr (Inr opts)" "relayOptions spec = opts\<lparr>Netns := netnsPath spec\<rparr>"
    by (auto simp: spec_of_endpoint_def)
  from options_on [OF o(1) assms(3)] obtain port where
    port: "protectionContainerPort (ps ! i) = Inr (Inr port)" "opt_ProxyListeningPort opts = dec_nat (unat (ProxyListeningPort port))"
    by blast
  from gw_listener_port [OF l port(1)] port(2) o(2) show ?thesis by auto
qed

theorem relays_forward_to_the_listener_witness:
  "\<exists>ls cs spec l. buildResources (\<lambda>_. True) ''/run/wafie.sock'' [shop_protection] = Inr (ls, cs)
    \<and> getRelayInstanceSpecs one_pod_env ''n1'' shop_protection = Inr [spec]
    \<and> ls ! 0 = Some l \<and> opt_ProxyListeningPort (relayOptions spec) = dec_nat (unat (ls_Port l))"
proof -
  have "list_all complete_protection [shop_protection]" using shop_protection_complete by simp
  from buildResources_total [OF this, of "\<lambda>_. True" "''/run/wafie.sock''"] obtain ls cs where
    b: "buildResources (\<lambda>_. True) ''/run/wafie.sock'' [shop_protection] = Inr (ls, cs)"
    by metis
  from shop_specs obtain spec where s: "getRelayInstanceSpecs one_pod_env ''n1'' shop_protection = Inr [spec]" by blast
  from relays_forward_to_the_listener [OF b, of 0 one_pod_env "''n1''" "[spec]" spec] b s show ?thesis
    by (auto simp: shop_protection_def)
qed

text \<open>
  What starting an instance reports.  Success (no error) is reported in two cases besides a relay that was
  started: a relay that does not serve yet after the waiting time is not started, and no error is
  reported.  An error in the health check counts as a running relay: the binary is not run.
\<close>

theorem start_reports_success_without_a_relay:
  assumes "health_check env (netnsPath s) w \<in> {Unavailable, Not_Serving}" and "run_binary env (netnsPath s) w = (None, w1)"
    and "health_check env (netnsPath s) (pass_time env w1) \<in> {Unavailable, Not_Serving}"
    and "health_check env (netnsPath s) w2 = Check_Failed"
  shows "StartSpec env s w = (None, pass_time env w1)
    \<and> StartSpec env s w2 = call_StartRelay env (netnsPath s) (relayOptions s) w2"
  using assms by (auto simp: StartSpec_def startRelay_def relayRunning_def)

definition slow_env :: "string list relay_env" where
  "slow_env = one_pod_env\<lparr>health_check := (\<lambda>ns w. if length w < 2 then Unavailable else Check_Failed)\<rparr>"

theorem start_reports_success_without_a_relay_witness:
  "\<forall>s. StartSpec slow_env s [] = (None, [''run'']) \<and> StartSpec slow_env s [''a'', ''b''] = (None, [''a'', ''b'', ''start''])"
proof
  fix s
  show "StartSpec slow_env s [] = (None, [''run'']) \<and> StartSpec slow_env s [''a'', ''b''] = (None, [''a'', ''b'', ''start''])"
    using start_reports_success_without_a_relay [of slow_env s "[]" "[''run'']" "[''a'', ''b'']"]
    by (simp add: slow_env_def one_pod_env_def)
qed

end
