(* ===== verification/Relay_Socat.thy ===== *)
theory Relay_Socat
  imports Relay_Controller
begin

text \<open>
  A model of the relay process in the network namespace of a pod: the service that starts and stops it
  (\<^verbatim>\<open>relay/pkg/apisrv/srv.go\<close>), the socat relay with its health monitor (\<^verbatim>\<open>relay/pkg/relay/socat.go\<close>) and the
  nftables rules that redirect the traffic of the pod (\<^verbatim>\<open>nftables.go\<close>).  Processes, name resolution, the
  network and nftables are a parameter that acts on a world \<open>'w\<close>.  The lemmas show when rules are
  added and removed, which command is run, when stopping panics, and what happens when the address of
  the gateway is not known at first.
\<close>

section \<open>nftables\<close>

datatype nft_object =
    Nft_Table string
  | Nft_Chain string string string string string string  \<comment> \<open>name, table, type, hook, priority, comment\<close>
  | Nft_Set string string string  \<comment> \<open>name, type, comment\<close>
  | Nft_Element string "string list"
  | Nft_Rule string string string string  \<comment> \<open>table, chain, rule, comment\<close>

datatype nft_op = Nft_Add nft_object | Nft_Delete nft_object

text \<open>
  The environment: name resolution, a random number below its argument, whether a process is alive, starting
  socat with arguments (an error, or the process id), its process group, terminating a process group and waiting
  at most five seconds, whether a path exists, connecting to an address; and of nftables: opening it, the
  names of the chains, the comments of the rules of a chain, running a transaction, and the concatenation of
  the parts of a rule.
\<close>

record 'w socat_env =
  LookupHost :: "string \<Rightarrow> 'w \<Rightarrow> string + string list"
  Intn :: "nat \<Rightarrow> 'w \<Rightarrow> nat"
  alive :: "nat \<Rightarrow> 'w \<Rightarrow> bool"
  start_cmd :: "string list \<Rightarrow> 'w \<Rightarrow> (string + nat) \<times> 'w"
  Getpgid :: "nat \<Rightarrow> 'w \<Rightarrow> string + nat"
  terminate_group :: "nat \<Rightarrow> 'w \<Rightarrow> 'w"
  path_exists :: "string \<Rightarrow> 'w \<Rightarrow> bool"
  dial :: "string \<Rightarrow> 'w \<Rightarrow> bool \<times> 'w"
  nft_new :: "'w \<Rightarrow> string option"
  nft_chains :: "'w \<Rightarrow> string + string list"
  nft_rules :: "string \<Rightarrow> 'w \<Rightarrow> string + string option list"
  nft_run :: "nft_op list \<Rightarrow> 'w \<Rightarrow> string option \<times> 'w"
  nft_concat :: "string list \<Rightarrow> string"

definition WafieGatewayNatTable :: string where
  "WafieGatewayNatTable = ''appsecgw''"

definition WafieGatewayPreroutingChain :: string where
  "WafieGatewayPreroutingChain = ''prerouting''"

definition WafieOwnedComment :: string where
  "WafieOwnedComment = ''appsecgw-owned-object''"

definition AppSecGwIpsSet :: string where
  "AppSecGwIpsSet = ''appsecgw-ips-set''"

datatype operation = AddOp | DeleteOp

text \<open>\<open>*rule.Comment\<close>: a rule without a comment before an own one panics.\<close>

fun owned_rule :: "string option list \<Rightarrow> bool res" where
  "owned_rule [] = Inr False"
| "owned_rule (c # cs) = bind_res (deref c) (\<lambda>c. if c = WafieOwnedComment then Inr True else owned_rule cs)"

text \<open>The error, or whether the rules are applied.\<close>

definition rulesState :: "'w socat_env \<Rightarrow> 'w \<Rightarrow> bool eres" where
  "rulesState env w = (case nft_chains env w of
     Inl e \<Rightarrow> Inr (Inl e)
   | Inr names \<Rightarrow>
       if WafieGatewayPreroutingChain \<notin> set names then Inr (Inr False)
       else (case nft_rules env WafieGatewayPreroutingChain w of
         Inl e \<Rightarrow> Inr (Inl e)
       | Inr rules \<Rightarrow> bind_res (owned_rule rules) (\<lambda>b. Inr (Inr b))))"

definition nft_table :: nft_object where
  "nft_table = Nft_Table WafieGatewayNatTable"

definition nft_chain :: nft_object where
  "nft_chain = Nft_Chain WafieGatewayPreroutingChain WafieGatewayNatTable ''nat'' ''prerouting'' ''dstnat'' WafieOwnedComment"

definition nft_set :: nft_object where
  "nft_set = Nft_Set AppSecGwIpsSet ''ipv4_addr'' WafieOwnedComment"

definition ipElement :: "string \<Rightarrow> nft_object" where
  "ipElement ip = Nft_Element AppSecGwIpsSet [ip]"

definition nft_rule :: "'w socat_env \<Rightarrow> RelayOptions \<Rightarrow> nft_object" where
  "nft_rule env options = Nft_Rule WafieGatewayNatTable WafieGatewayPreroutingChain
     (nft_concat env [''ip saddr != @'', AppSecGwIpsSet, ''tcp dport'', AppContainerPort options, ''redirect to :'', RelayPort options])
     WafieOwnedComment"

definition nft_add :: "'w socat_env \<Rightarrow> RelayOptions \<Rightarrow> nft_op list" where
  "nft_add env options = map Nft_Add [nft_table, nft_chain, nft_set, ipElement (ProxyIp options), nft_rule env options]"

definition nft_remove :: "nft_op list" where
  "nft_remove = [Nft_Delete nft_table]"

text \<open>The options may be a nil pointer; deleting does not look at them.\<close>

definition ProgramNft :: "'w socat_env \<Rightarrow> operation \<Rightarrow> RelayOptions option \<Rightarrow> 'w \<Rightarrow> (string option \<times> 'w) res" where
  "ProgramNft env opr options w = (case nft_new env w of
     Some e \<Rightarrow> Inr (Some e, w)
   | None \<Rightarrow> bind_res (rulesState env w) (\<lambda>st. case st of
       Inl e \<Rightarrow> Inr (Some e, w)
     | Inr rulesApplied \<Rightarrow> (case opr of
         AddOp \<Rightarrow> if rulesApplied then Inr (nft_run env [] w)
           else bind_res (deref options) (\<lambda>opts. Inr (nft_run env (nft_add env opts) w))
       | DeleteOp \<Rightarrow> Inr (nft_run env (if rulesApplied then nft_remove else []) w))))"

section \<open>The socat relay\<close>

text \<open>
  \<open>cmd\<close>: none, or one with its process if it was started; \<open>launching\<close> says that the goroutine of
  \<open>startInternal\<close> has yet to run.
\<close>

datatype socat_cmd = No_Cmd | Cmd "string list" "nat option"

record 'w socat =
  cmd :: socat_cmd
  options :: "RelayOptions option"
  healthMonitorActive :: bool
  launching :: bool
  world :: 'w

definition NewSocat :: "'w \<Rightarrow> 'w socat" where
  "NewSocat w = \<lparr>cmd = No_Cmd, options = None, healthMonitorActive = True, launching = False, world = w\<rparr>"

fun process :: "socat_cmd \<Rightarrow> nat option" where
  "process No_Cmd = None"
| "process (Cmd args p) = p"

definition shouldRestart :: "RelayOptions \<Rightarrow> RelayOptions option \<Rightarrow> bool" where
  "shouldRestart opts cfgOptions = (case cfgOptions of
     None \<Rightarrow> False
   | Some c \<Rightarrow> ProxyFqdn opts \<noteq> ProxyFqdn c \<or> AppContainerPort opts \<noteq> AppContainerPort c
       \<or> RelayPort opts \<noteq> RelayPort c \<or> opt_ProxyListeningPort opts \<noteq> opt_ProxyListeningPort c)"

definition setProxyIp :: "'w socat_env \<Rightarrow> 'w socat \<Rightarrow> 'w socat" where
  "setProxyIp env s = (case options s of
     None \<Rightarrow> s
   | Some opts \<Rightarrow>
       if ProxyFqdn opts = [] then s
       else (case LookupHost env (ProxyFqdn opts) (world s) of
         Inl e \<Rightarrow> s
       | Inr [] \<Rightarrow> s
       | Inr [ip] \<Rightarrow> s\<lparr>options := Some (opts\<lparr>ProxyIp := ip\<rparr>)\<rparr>
       | Inr ips \<Rightarrow> s\<lparr>options := Some (opts\<lparr>ProxyIp := ips ! Intn env (length ips) (world s)\<rparr>)\<rparr>))"

definition socatRunning :: "'w socat_env \<Rightarrow> 'w socat \<Rightarrow> bool" where
  "socatRunning env s = (case process (cmd s) of None \<Rightarrow> False | Some pid \<Rightarrow> alive env pid (world s))"

definition socat_args :: "RelayOptions \<Rightarrow> string list" where
  "socat_args opts = [''-d'',
     ''TCP-LISTEN:'' @ RelayPort opts @ '',reuseaddr,fork,backlog=2048,rcvbuf=262144,sndbuf=262144,keepalive,nodelay,quickack'',
     ''TCP:'' @ ProxyIp opts @ '':'' @ opt_ProxyListeningPort opts
       @ '',rcvbuf=262144,sndbuf=262144,keepalive,nodelay,quickack,connect-timeout=3'']"

definition startInternal :: "'w socat_env \<Rightarrow> 'w socat \<Rightarrow> 'w socat res" where
  "startInternal env s =
     (if socatRunning env s then Inr s
      else bind_res (deref (options s)) (\<lambda>opts. Inr (s\<lparr>cmd := Cmd (socat_args opts) None, launching := True\<rparr>)))"

text \<open>
  The goroutine of \<open>startInternal\<close> up to the point where it waits for the process.  A failed start is
  logged, and the process that is not there is asked for its id.
\<close>

definition launch :: "'w socat_env \<Rightarrow> 'w socat \<Rightarrow> 'w socat res" where
  "launch env s = (case cmd s of
     No_Cmd \<Rightarrow> Inl Null_Dereference
   | Cmd args p \<Rightarrow>
       (case start_cmd env args (world s) of
          (Inl e, w) \<Rightarrow> Inl Null_Dereference
        | (Inr pid, w) \<Rightarrow>
            (case Getpgid env pid w of
               Inl e \<Rightarrow> Inl Explicit_Panic
             | Inr pgid \<Rightarrow> bind_res (ProgramNft env AddOp (options s) w) (\<lambda>(err, w).
                 Inr (s\<lparr>cmd := Cmd args (Some pid), launching := False, world := w\<rparr>)))))"

definition stopInternal :: "'w socat_env \<Rightarrow> 'w socat \<Rightarrow> 'w socat res" where
  "stopInternal env s = (case process (cmd s) of
     None \<Rightarrow> bind_res (ProgramNft env DeleteOp (options s) (world s)) (\<lambda>_. Inl Null_Dereference)
   | Some pid \<Rightarrow>
       (let w = terminate_group env pid (world s) in
        bind_res (ProgramNft env DeleteOp (options s) w) (\<lambda>(err, w). Inr (s\<lparr>world := w\<rparr>))))"

definition socat_start :: "'w socat_env \<Rightarrow> 'w socat \<Rightarrow> 'w socat res" where
  "socat_start env s = startInternal env (s\<lparr>healthMonitorActive := True\<rparr>)"

definition socat_stop :: "'w socat_env \<Rightarrow> 'w socat \<Rightarrow> 'w socat res" where
  "socat_stop env s = stopInternal env (s\<lparr>healthMonitorActive := False\<rparr>)"

definition Configure :: "'w socat_env \<Rightarrow> RelayOptions option \<Rightarrow> 'w socat \<Rightarrow> 'w socat res" where
  "Configure env cfgOptions s = (case options s of
     None \<Rightarrow> Inr (setProxyIp env (s\<lparr>options := cfgOptions\<rparr>))
   | Some opts \<Rightarrow>
       if ProxyIp opts = [] then Inr (setProxyIp env (s\<lparr>options := cfgOptions\<rparr>))
       else if shouldRestart opts cfgOptions then socat_stop env (setProxyIp env (s\<lparr>options := cfgOptions\<rparr>))
       else Inr s)"

definition StartRelay :: "'w socat_env \<Rightarrow> RelayOptions option \<Rightarrow> 'w socat \<Rightarrow> 'w socat res" where
  "StartRelay env req s = bind_res (Configure env req s) (socat_start env)"

definition StopRelay :: "'w socat_env \<Rightarrow> 'w socat \<Rightarrow> 'w socat res" where
  "StopRelay env s = bind_res (Configure env None s) (socat_stop env)"

text \<open>
  The end of a relay process on a signal: the relay is stopped, a message is logged, and the process exits.  The variable
  \<open>logger\<close> of the package is never set, since the command assigns to a local variable of this name.
\<close>

definition relay_logger :: "unit option" where
  "relay_logger = None"

definition gracefullyExit :: "'w socat_env \<Rightarrow> nat \<Rightarrow> 'w socat \<Rightarrow> ('w socat \<times> nat) res" where
  "gracefullyExit env sig s = bind_res (StopRelay env s) (\<lambda>s. bind_res (deref relay_logger) (\<lambda>_. Inr (s, 128 + sig)))"

section \<open>The health monitor\<close>

definition proxyOk :: "'w socat_env \<Rightarrow> RelayOptions \<Rightarrow> 'w \<Rightarrow> bool \<times> 'w" where
  "proxyOk env opts w =
     (let address = ProxyIp opts @ '':'' @ opt_ProxyListeningPort opts; (ok, w) = dial env address w
      in if ok then (True, w) else dial env address w)"

datatype 'w monitored = Goes_On "'w socat" | Exits "'w socat"

definition monitor_tick :: "'w socat_env \<Rightarrow> 'w socat \<Rightarrow> 'w monitored res" where
  "monitor_tick env s = (case options s of
     None \<Rightarrow> Inr (Goes_On s)
   | Some opts \<Rightarrow>
       if ProxyIp opts = [] \<or> \<not> healthMonitorActive s then Inr (Goes_On s)
       else if \<not> path_exists env (Netns opts) (world s) then bind_res (stopInternal env s) (\<lambda>s. Inr (Exits s))
       else (case proxyOk env opts (world s) of
         (True, w) \<Rightarrow> Inr (Goes_On (s\<lparr>world := w\<rparr>))
       | (False, w) \<Rightarrow>
           bind_res (stopInternal env (s\<lparr>world := w\<rparr>)) (\<lambda>s.
           bind_res (startInternal env (setProxyIp env s)) (\<lambda>s. Inr (Goes_On s)))))"

section \<open>Rules\<close>

text \<open>
  Whether the objects of a transaction come after those that they belong to, for the one table that the
  program opens.
\<close>

fun in_order :: "nft_object list \<Rightarrow> nft_object list \<Rightarrow> bool" where
  "in_order seen [] \<longleftrightarrow> True"
| "in_order seen (Nft_Table t # xs) \<longleftrightarrow> t = WafieGatewayNatTable \<and> in_order (Nft_Table t # seen) xs"
| "in_order seen (Nft_Chain n t ty h p c # xs) \<longleftrightarrow> Nft_Table t \<in> set seen \<and> in_order (Nft_Chain n t ty h p c # seen) xs"
| "in_order seen (Nft_Set n ty c # xs) \<longleftrightarrow> Nft_Table WafieGatewayNatTable \<in> set seen \<and> in_order (Nft_Set n ty c # seen) xs"
| "in_order seen (Nft_Element n ks # xs) \<longleftrightarrow> (\<exists>x \<in> set seen. \<exists>ty c. x = Nft_Set n ty c) \<and> in_order (Nft_Element n ks # seen) xs"
| "in_order seen (Nft_Rule t n r c # xs) \<longleftrightarrow> (\<exists>x \<in> set seen. \<exists>ty h p d. x = Nft_Chain n t ty h p d) \<and> in_order (Nft_Rule t n r c # seen) xs"

text \<open>
  What is relied on of nftables in a world in which it works: it can be opened, running nothing changes
  nothing, and the rules of the chain, all with a comment, can be listed if the chain can; adding objects that it
  accepts, in order, succeeds, and then the added chains and rules are listed; deleting the
  table when there is something in it makes the chain disappear.  \<open>valid\<close> says which objects are accepted.
\<close>

definition nft_laws :: "'w socat_env \<Rightarrow> ('w \<Rightarrow> bool) \<Rightarrow> (nft_object \<Rightarrow> bool) \<Rightarrow> bool" where
  "nft_laws env works valid \<longleftrightarrow>
     (\<forall>w. works w \<longrightarrow> nft_new env w = None \<and> nft_run env [] w = (None, w)
        \<and> (\<exists>names. nft_chains env w = Inr names
             \<and> (WafieGatewayPreroutingChain \<in> set names \<longrightarrow> (\<exists>cs. nft_rules env WafieGatewayPreroutingChain w = Inr cs \<and> None \<notin> set cs))))
   \<and> (\<forall>w objs. works w \<longrightarrow> list_all valid objs \<longrightarrow> in_order [] objs \<longrightarrow>
        (\<exists>w' names. nft_run env (map Nft_Add objs) w = (None, w') \<and> works w' \<and> nft_chains env w' = Inr names
          \<and> (\<forall>n t ty h p c. Nft_Chain n t ty h p c \<in> set objs \<longrightarrow> n \<in> set names)
          \<and> (\<forall>t n r c. Nft_Rule t n r c \<in> set objs \<longrightarrow> (\<exists>cs. nft_rules env n w' = Inr cs \<and> Some c \<in> set cs))))
   \<and> (\<forall>w names. works w \<longrightarrow> nft_chains env w = Inr names \<longrightarrow> names \<noteq> [] \<longrightarrow>
        (\<exists>w' names'. nft_run env [Nft_Delete (Nft_Table WafieGatewayNatTable)] w = (None, w') \<and> works w'
          \<and> nft_chains env w' = Inr names' \<and> WafieGatewayPreroutingChain \<notin> set names'))"

text \<open>The objects that the program adds.\<close>

definition redirection :: "'w socat_env \<Rightarrow> RelayOptions \<Rightarrow> nft_object list" where
  "redirection env opts = [nft_table, nft_chain, nft_set, ipElement (ProxyIp opts), nft_rule env opts]"

lemma owned_rule_comments: "None \<notin> set cs \<Longrightarrow> owned_rule cs = Inr (Some WafieOwnedComment \<in> set cs)"
proof (induction cs)
  case (Cons c cs)
  then obtain s where "c = Some s" by (cases c) auto
  with Cons show ?case by auto
qed simp

definition redirected :: "'w socat_env \<Rightarrow> 'w \<Rightarrow> bool" where
  "redirected env w \<longleftrightarrow> rulesState env w = Inr (Inr True)"

lemma rulesState_works:
  assumes "nft_laws env works valid" and "works w"
  shows "rulesState env w = Inr (Inr (redirected env w))"
proof -
  from assms obtain names where names: "nft_chains env w = Inr names"
      "WafieGatewayPreroutingChain \<in> set names \<longrightarrow> (\<exists>cs. nft_rules env WafieGatewayPreroutingChain w = Inr cs \<and> None \<notin> set cs)"
    unfolding nft_laws_def by blast
  show ?thesis
  proof (cases "WafieGatewayPreroutingChain \<in> set names")
    case False
    with names(1) show ?thesis by (simp add: redirected_def rulesState_def)
  next
    case True
    with names(2) obtain cs where "nft_rules env WafieGatewayPreroutingChain w = Inr cs" "None \<notin> set cs" by blast
    with names(1) True show ?thesis by (auto simp: redirected_def rulesState_def owned_rule_comments)
  qed
qed

text \<open>Adding never panics, whether nftables accepts the objects or not.\<close>

lemma ProgramNft_Add_total:
  assumes "nft_laws env works valid" and "works w"
  shows "\<exists>r. ProgramNft env AddOp (Some opts) w = Inr r"
proof -
  have "nft_new env w = None" using assms unfolding nft_laws_def by blast
  with rulesState_works [OF assms] show ?thesis by (simp add: ProgramNft_def)
qed

text \<open>The program's transaction is accepted and leaves an own rule in the chain.\<close>

lemma nft_add_redirects:
  assumes "nft_laws env works valid" and "works w" and "list_all valid (redirection env opts)"
  shows "\<exists>w'. nft_run env (nft_add env opts) w = (None, w') \<and> works w' \<and> redirected env w'"
proof -
  let ?objs = "redirection env opts"
  have add: "nft_add env opts = map Nft_Add ?objs" by (simp add: nft_add_def redirection_def)
  have order: "in_order [] ?objs"
    by (simp add: redirection_def nft_table_def nft_chain_def nft_set_def ipElement_def nft_rule_def)
  have law: "\<forall>w objs. works w \<longrightarrow> list_all valid objs \<longrightarrow> in_order [] objs \<longrightarrow>
        (\<exists>w' names. nft_run env (map Nft_Add objs) w = (None, w') \<and> works w' \<and> nft_chains env w' = Inr names
          \<and> (\<forall>n t ty h p c. Nft_Chain n t ty h p c \<in> set objs \<longrightarrow> n \<in> set names)
          \<and> (\<forall>t n r c. Nft_Rule t n r c \<in> set objs \<longrightarrow> (\<exists>cs. nft_rules env n w' = Inr cs \<and> Some c \<in> set cs)))"
    using assms(1) unfolding nft_laws_def by blast
  from law [rule_format, OF assms(2,3) order] obtain w' names where
    w': "nft_run env (map Nft_Add ?objs) w = (None, w')" "works w'" "nft_chains env w' = Inr names"
      "\<forall>n t ty h p c. Nft_Chain n t ty h p c \<in> set ?objs \<longrightarrow> n \<in> set names"
      "\<forall>t n r c. Nft_Rule t n r c \<in> set ?objs \<longrightarrow> (\<exists>cs. nft_rules env n w' = Inr cs \<and> Some c \<in> set cs)" by blast
  have "nft_chain \<in> set ?objs" "nft_rule env opts \<in> set ?objs" by (simp_all add: redirection_def)
  with w'(4,5) have "WafieGatewayPreroutingChain \<in> set names"
      and "\<exists>cs. nft_rules env WafieGatewayPreroutingChain w' = Inr cs \<and> Some WafieOwnedComment \<in> set cs"
    unfolding nft_chain_def nft_rule_def by blast+
  then obtain cs where cs: "WafieGatewayPreroutingChain \<in> set names" "nft_rules env WafieGatewayPreroutingChain w' = Inr cs"
      "Some WafieOwnedComment \<in> set cs" by blast
  from assms(1) w'(2,3) cs(1,2) have "None \<notin> set cs" unfolding nft_laws_def by (metis sum.inject(2))
  with w'(3) cs have "redirected env w'" by (simp add: redirected_def rulesState_def owned_rule_comments)
  with w'(1,2) add show ?thesis by simp
qed

text \<open>Adding and deleting bring about what their names say, and do nothing when it is so already.\<close>

lemma ProgramNft_Add:
  assumes "nft_laws env works valid" and "works w" and "list_all valid (redirection env opts)"
  shows "\<exists>w'. ProgramNft env AddOp (Some opts) w = Inr (None, w') \<and> works w' \<and> redirected env w'
    \<and> (redirected env w \<longrightarrow> w' = w) \<and> (\<not> redirected env w \<longrightarrow> nft_run env (nft_add env opts) w = (None, w'))"
proof -
  have new: "nft_new env w = None" "nft_run env [] w = (None, w)" using assms(1,2) unfolding nft_laws_def by blast+
  with nft_add_redirects [OF assms] rulesState_works [OF assms(1,2)] assms(2) show ?thesis
    by (cases "redirected env w") (auto simp: ProgramNft_def)
qed

lemma ProgramNft_Delete:
  assumes "nft_laws env works valid" and "works w"
  shows "\<exists>w'. ProgramNft env DeleteOp opts w = Inr (None, w') \<and> works w' \<and> \<not> redirected env w'
    \<and> (\<not> redirected env w \<longrightarrow> w' = w)"
proof -
  have new: "nft_new env w = None" "nft_run env [] w = (None, w)" using assms unfolding nft_laws_def by blast+
  show ?thesis
  proof (cases "redirected env w")
    case False
    with new rulesState_works [OF assms] assms(2) show ?thesis by (simp add: ProgramNft_def)
  next
    case True
    then obtain names where "nft_chains env w = Inr names" "names \<noteq> []"
      by (fastforce simp: redirected_def rulesState_def split: sum.splits if_splits)
    with assms obtain w' names' where w': "nft_run env nft_remove w = (None, w')" "works w'"
        "nft_chains env w' = Inr names'" "WafieGatewayPreroutingChain \<notin> set names'"
      unfolding nft_laws_def nft_remove_def nft_table_def by blast
    then have "\<not> redirected env w'" by (simp add: redirected_def rulesState_def)
    with True new rulesState_works [OF assms] w'(1,2) show ?thesis by (simp add: ProgramNft_def)
  qed
qed

section \<open>Properties\<close>

lemma setProxyIp_resolved:
  assumes "options s = Some opts" and "ProxyFqdn opts \<noteq> []" and "LookupHost env (ProxyFqdn opts) (world s) = Inr ips" and "ips \<noteq> []"
    and "\<forall>n > 0. Intn env n (world s) < n"
  shows "\<exists>ip \<in> set ips. setProxyIp env s = s\<lparr>options := Some (opts\<lparr>ProxyIp := ip\<rparr>)\<rparr>"
proof -
  have "ips ! Intn env (length ips) (world s) \<in> set ips" using assms(4,5) by simp
  then show ?thesis using assms(1-4) by (auto simp: setProxyIp_def split: list.splits)
qed

lemma launch_started:
  assumes "nft_laws env works valid" and "cmd s = Cmd args p" and "options s = Some opts"
    and "start_cmd env args (world s) = (Inr pid, w)" and "Getpgid env pid w = Inr pgid" and "works w"
  shows "\<exists>w'. launch env s = Inr (s\<lparr>cmd := Cmd args (Some pid), launching := False, world := w'\<rparr>)
    \<and> (list_all valid (redirection env opts) \<longrightarrow> \<not> redirected env w \<longrightarrow>
        redirected env w' \<and> nft_run env (nft_add env opts) w = (None, w'))"
proof -
  from ProgramNft_Add_total [OF assms(1,6)] obtain err w' where p: "ProgramNft env AddOp (Some opts) w = Inr (err, w')"
    by (metis surj_pair)
  with assms(2-5) have "launch env s = Inr (s\<lparr>cmd := Cmd args (Some pid), launching := False, world := w'\<rparr>)"
    by (simp add: launch_def)
  with p ProgramNft_Add [OF assms(1,6)] show ?thesis by fastforce
qed

text \<open>The command line and the objects, written out.\<close>

lemma socat_args_eq: "socat_args (opts\<lparr>ProxyIp := ip\<rparr>) = [''-d'',
        ''TCP-LISTEN:'' @ RelayPort opts @ '',reuseaddr,fork,backlog=2048,rcvbuf=262144,sndbuf=262144,keepalive,nodelay,quickack'',
        ''TCP:'' @ ip @ '':'' @ opt_ProxyListeningPort opts @ '',rcvbuf=262144,sndbuf=262144,keepalive,nodelay,quickack,connect-timeout=3'']"
  by (simp add: socat_args_def)

lemma nft_add_eq: "nft_add env (opts\<lparr>ProxyIp := ip\<rparr>) = map Nft_Add [
        Nft_Table ''appsecgw'',
        Nft_Chain ''prerouting'' ''appsecgw'' ''nat'' ''prerouting'' ''dstnat'' ''appsecgw-owned-object'',
        Nft_Set ''appsecgw-ips-set'' ''ipv4_addr'' ''appsecgw-owned-object'',
        Nft_Element ''appsecgw-ips-set'' [ip],
        Nft_Rule ''appsecgw'' ''prerouting''
          (nft_concat env [''ip saddr != @'', ''appsecgw-ips-set'', ''tcp dport'', AppContainerPort opts, ''redirect to :'', RelayPort opts])
          ''appsecgw-owned-object'']"
  unfolding nft_add_def nft_table_def nft_chain_def nft_set_def ipElement_def nft_rule_def WafieGatewayNatTable_def
    WafieGatewayPreroutingChain_def WafieOwnedComment_def AppSecGwIpsSet_def
  by (cases opts) (simp only: RelayOptions.simps)

text \<open>
  C13: What starting a new relay brings about, if the gateway's name can be resolved, socat can be started and
  nftables accepts the objects.
  The relay does start: socat runs with a command line that listens on the relay port and connects to one
  of the gateway's addresses at the gateway's port; and the traffic of the pod, which was not
  redirected before, is redirected by a transaction that adds a table with a set that consists of the address that
  socat connects to, and a chain for incoming packets whose one rule redirects the port of the application's
  container to the relay port, except for packets whose source is in the set.
\<close>

theorem started_relay_forwards_to_the_gateway:
  assumes "nft_laws env works valid" and "ProxyFqdn opts \<noteq> []" and "LookupHost env (ProxyFqdn opts) w = Inr ips" and "ips \<noteq> []"
    and "\<forall>n > 0. Intn env n w < n"
    and "\<forall>ip \<in> set ips. list_all valid (redirection env (opts\<lparr>ProxyIp := ip\<rparr>))"
    and "\<forall>args. \<exists>pid w1 pgid. start_cmd env args w = (Inr pid, w1) \<and> works w1 \<and> \<not> redirected env w1 \<and> Getpgid env pid w1 = Inr pgid"
  shows "\<exists>s1 s2 ip args pid w1. StartRelay env (Some opts) (NewSocat w) = Inr s1 \<and> launch env s1 = Inr s2
    \<and> ip \<in> set ips
    \<and> args = [''-d'',
        ''TCP-LISTEN:'' @ RelayPort opts @ '',reuseaddr,fork,backlog=2048,rcvbuf=262144,sndbuf=262144,keepalive,nodelay,quickack'',
        ''TCP:'' @ ip @ '':'' @ opt_ProxyListeningPort opts @ '',rcvbuf=262144,sndbuf=262144,keepalive,nodelay,quickack,connect-timeout=3'']
    \<and> start_cmd env args w = (Inr pid, w1) \<and> cmd s2 = Cmd args (Some pid) \<and> redirected env (world s2)
    \<and> nft_run env (map Nft_Add [
        Nft_Table ''appsecgw'',
        Nft_Chain ''prerouting'' ''appsecgw'' ''nat'' ''prerouting'' ''dstnat'' ''appsecgw-owned-object'',
        Nft_Set ''appsecgw-ips-set'' ''ipv4_addr'' ''appsecgw-owned-object'',
        Nft_Element ''appsecgw-ips-set'' [ip],
        Nft_Rule ''appsecgw'' ''prerouting''
          (nft_concat env [''ip saddr != @'', ''appsecgw-ips-set'', ''tcp dport'', AppContainerPort opts, ''redirect to :'', RelayPort opts])
          ''appsecgw-owned-object'']) w1 = (None, world s2)"
proof -
  let ?s0 = "(NewSocat w)\<lparr>options := Some opts\<rparr>"
  have w0: "world ?s0 = w" "options ?s0 = Some opts" by (simp_all add: NewSocat_def)
  from setProxyIp_resolved [of ?s0 opts env ips] w0 assms(2-5) obtain ip where
    ip: "ip \<in> set ips" "setProxyIp env ?s0 = ?s0\<lparr>options := Some (opts\<lparr>ProxyIp := ip\<rparr>)\<rparr>" by auto
  let ?opts = "opts\<lparr>ProxyIp := ip\<rparr>"
  let ?s1 = "(NewSocat w)\<lparr>options := Some ?opts, cmd := Cmd (socat_args ?opts) None, launching := True\<rparr>"
  have start: "StartRelay env (Some opts) (NewSocat w) = Inr ?s1"
    using ip(2) by (simp add: StartRelay_def Configure_def socat_start_def startInternal_def socatRunning_def NewSocat_def)
  from assms(7) obtain pid w1 pgid where p: "start_cmd env (socat_args ?opts) w = (Inr pid, w1)" "works w1" "\<not> redirected env w1"
      "Getpgid env pid w1 = Inr pgid" by blast
  have "cmd ?s1 = Cmd (socat_args ?opts) None" "options ?s1 = Some ?opts" "world ?s1 = w" by (simp_all add: NewSocat_def)
  from launch_started [OF assms(1) this(1,2), of pid w1 pgid] this(3) p assms(6) ip(1) obtain w' where
    l: "launch env ?s1 = Inr (?s1\<lparr>cmd := Cmd (socat_args ?opts) (Some pid), launching := False, world := w'\<rparr>)"
    "redirected env w'" "nft_run env (nft_add env ?opts) w1 = (None, w')" by auto
  let ?s2 = "?s1\<lparr>cmd := Cmd (socat_args ?opts) (Some pid), launching := False, world := w'\<rparr>"
  have s2: "cmd ?s2 = Cmd (socat_args ?opts) (Some pid)" "world ?s2 = w'" by simp_all
  show ?thesis
    by (intro exI conjI) (rule start, rule l(1), rule ip(1), rule socat_args_eq, rule p(1), rule s2(1),
      unfold s2(2), rule l(2), rule l(3) [unfolded nft_add_eq])
qed

text \<open>An environment whose world says whether names are resolved, which objects nftables has, and whether socat runs.\<close>

primrec nft_do :: "nft_op \<Rightarrow> nft_object list \<Rightarrow> nft_object list" where
  "nft_do (Nft_Add x) t = x # t"
| "nft_do (Nft_Delete x) t = []"

definition chain_names :: "nft_object list \<Rightarrow> string list" where
  "chain_names t = [n. Nft_Chain n tb ty h p c \<leftarrow> t]"

definition rule_comments :: "string \<Rightarrow> nft_object list \<Rightarrow> string option list" where
  "rule_comments ch t = [Some c. Nft_Rule tb n r c \<leftarrow> t, n = ch]"

definition one_gateway_env :: "(bool \<times> nft_object list \<times> bool) socat_env" where
  "one_gateway_env = \<lparr>
     LookupHost = (\<lambda>h (dns, t, a). if dns then Inr [''10.2.0.9''] else Inl ''no such host''), Intn = (\<lambda>n w. 0),
     alive = (\<lambda>pid (dns, t, a). a), start_cmd = (\<lambda>args (dns, t, a). (Inr 42, (dns, t, True))), Getpgid = (\<lambda>pid w. Inr pid),
     terminate_group = (\<lambda>pid (dns, t, a). (dns, t, False)), path_exists = (\<lambda>p w. True), dial = (\<lambda>addr w. (True, w)),
     nft_new = (\<lambda>w. None), nft_chains = (\<lambda>(dns, t, a). Inr (chain_names t)),
     nft_rules = (\<lambda>ch (dns, t, a). Inr (rule_comments ch t)),
     nft_run = (\<lambda>ops (dns, t, a). (None, (dns, fold nft_do ops t, a))), nft_concat = concat\<rparr>"

lemma fold_add: "fold nft_do (map Nft_Add objs) t = rev objs @ t"
  by (induction objs arbitrary: t) auto

lemma in_chain_names: "Nft_Chain n tb ty h p c \<in> set t \<Longrightarrow> n \<in> set (chain_names t)"
  by (induction t) (auto simp: chain_names_def)

lemma in_rule_comments: "Nft_Rule tb n r c \<in> set t \<Longrightarrow> Some c \<in> set (rule_comments n t)"
  by (induction t) (auto simp: rule_comments_def)

lemma rule_comments_given: "None \<notin> set (rule_comments n t)"
  by (induction t) (auto simp: rule_comments_def split: nft_object.splits)

lemma one_gateway_laws: "nft_laws (one_gateway_env\<lparr>dial := d, terminate_group := k\<rparr>) (\<lambda>w. True) (\<lambda>x. True)"
  unfolding nft_laws_def one_gateway_env_def
proof (intro conjI allI impI, goal_cases)
  case (4 w objs)
  have "n \<in> set (chain_names (rev objs @ t))" if "Nft_Chain n tb ty h p c \<in> set objs" for n tb ty h p c t
    using that by (auto intro: in_chain_names)
  moreover have "Some c \<in> set (rule_comments n (rev objs @ t))" if "Nft_Rule tb n r c \<in> set objs" for tb n r c t
    using that by (auto intro: in_rule_comments)
  ultimately show ?case by (cases w) (auto simp: fold_add)
qed (auto simp: rule_comments_given chain_names_def split: prod.splits)

lemma gateway_laws: "nft_laws one_gateway_env (\<lambda>w. True) (\<lambda>x. True)"
  using one_gateway_laws [where d = "dial one_gateway_env" and k = "terminate_group one_gateway_env"] by simp

definition shop_options :: RelayOptions where
  "shop_options = empty_options\<lparr>ProxyFqdn := ''wafie-gateway.default.svc'', opt_ProxyListeningPort := ''49159'',
     AppContainerPort := ''8080'', RelayPort := ''50010''\<rparr>"

lemma shop_ports: "RelayPort shop_options = ''50010''" "opt_ProxyListeningPort shop_options = ''49159''" "AppContainerPort shop_options = ''8080''"
  by (simp_all add: shop_options_def)

theorem started_relay_forwards_to_the_gateway_witness:
  "\<exists>s1 s2 pid. StartRelay one_gateway_env (Some shop_options) (NewSocat (True, [], False)) = Inr s1
    \<and> launch one_gateway_env s1 = Inr s2
    \<and> cmd s2 = Cmd [''-d'', ''TCP-LISTEN:50010,reuseaddr,fork,backlog=2048,rcvbuf=262144,sndbuf=262144,keepalive,nodelay,quickack'',
        ''TCP:10.2.0.9:49159,rcvbuf=262144,sndbuf=262144,keepalive,nodelay,quickack,connect-timeout=3''] (Some pid)
    \<and> redirected one_gateway_env (world s2)"
proof -
  have r: "LookupHost one_gateway_env (ProxyFqdn shop_options) (True, [], False) = Inr [''10.2.0.9'']" "ProxyFqdn shop_options \<noteq> []"
    by (simp_all add: one_gateway_env_def shop_options_def)
  have v: "list_all (\<lambda>x. True) xs" for xs :: "nft_object list" by (simp add: list_all_iff)
  have n: "\<forall>n > 0. Intn one_gateway_env n (True, [], False) < n" by (simp add: one_gateway_env_def)
  have c: "\<forall>args. \<exists>pid w1 pgid. start_cmd one_gateway_env args (True, [], False) = (Inr pid, w1) \<and> True
      \<and> \<not> redirected one_gateway_env w1 \<and> Getpgid one_gateway_env pid w1 = Inr pgid"
    by (simp add: one_gateway_env_def redirected_def rulesState_def chain_names_def)
  from started_relay_forwards_to_the_gateway [OF gateway_laws r(2,1) _ n _ c] v
  obtain s1 s2 ip args pid where s: "StartRelay one_gateway_env (Some shop_options) (NewSocat (True, [], False)) = Inr s1"
      "launch one_gateway_env s1 = Inr s2" "ip \<in> set [''10.2.0.9'']" "cmd s2 = Cmd args (Some pid)" "redirected one_gateway_env (world s2)"
      "args = [''-d'', ''TCP-LISTEN:'' @ RelayPort shop_options @ '',reuseaddr,fork,backlog=2048,rcvbuf=262144,sndbuf=262144,keepalive,nodelay,quickack'',
        ''TCP:'' @ ip @ '':'' @ opt_ProxyListeningPort shop_options @ '',rcvbuf=262144,sndbuf=262144,keepalive,nodelay,quickack,connect-timeout=3'']"
    by blast
  then have "cmd s2 = Cmd [''-d'', ''TCP-LISTEN:50010,reuseaddr,fork,backlog=2048,rcvbuf=262144,sndbuf=262144,keepalive,nodelay,quickack'',
        ''TCP:10.2.0.9:49159,rcvbuf=262144,sndbuf=262144,keepalive,nodelay,quickack,connect-timeout=3''] (Some pid)"
    by (simp add: shop_ports)
  with s(1,2,5) show ?thesis by blast
qed

lemma Configure_nil:
  "\<exists>opts. Configure env None s = Inr (s\<lparr>options := opts\<rparr>)"
proof -
  have s: "s = s\<lparr>options := options s\<rparr>" by simp
  show ?thesis
  proof (cases "options s")
    case None
    then have "Configure env None s = Inr (s\<lparr>options := None\<rparr>)" by (simp add: Configure_def setProxyIp_def)
    then show ?thesis by blast
  next
    case (Some opts)
    then have "Configure env None s = Inr (s\<lparr>options := if ProxyIp opts = [] then None else options s\<rparr>)"
      by (simp add: Configure_def setProxyIp_def shouldRestart_def)
    then show ?thesis by blast
  qed
qed

text \<open>
  When stopping panics: exactly if no process was started, although the code tests for this case.
  Otherwise the relay stops, its monitor is switched off and the redirection is removed.
\<close>

theorem stop_panics_iff_not_started:
  assumes "nft_laws env works valid" and "works (world s)" and "\<forall>pid w. works w \<longrightarrow> works (terminate_group env pid w)"
  shows "(StopRelay env s = Inl Null_Dereference \<longleftrightarrow> process (cmd s) = None)
    \<and> (process (cmd s) \<noteq> None \<longrightarrow> (\<exists>s'. StopRelay env s = Inr s' \<and> \<not> redirected env (world s') \<and> \<not> healthMonitorActive s'))"
proof -
  from Configure_nil obtain opts where c: "Configure env None s = Inr (s\<lparr>options := opts\<rparr>)" by blast
  show ?thesis
  proof (cases "process (cmd s)")
    case None
    with c ProgramNft_Delete [OF assms(1,2), of opts] show ?thesis
      by (auto simp: StopRelay_def socat_stop_def stopInternal_def)
  next
    case (Some pid)
    with assms have "works (terminate_group env pid (world s))" by blast
    from ProgramNft_Delete [OF assms(1) this, of opts] c Some show ?thesis
      by (auto simp: StopRelay_def socat_stop_def stopInternal_def Let_def)
  qed
qed

theorem stop_panics_iff_not_started_witness:
  "StopRelay one_gateway_env (NewSocat (True, [], False)) = Inl Null_Dereference"
  using stop_panics_iff_not_started [OF gateway_laws, of "NewSocat (True, [], False)"]
  by (simp add: NewSocat_def)

text \<open>So a relay process never exits with the status that the code computes: it panics, if not on stopping then on logging.\<close>

lemma gracefullyExit_panics: "\<exists>f. gracefullyExit env sig s = Inl f"
  by (cases "StopRelay env s") (simp_all add: gracefullyExit_def relay_logger_def deref_def)

text \<open>
  What happens if the gateway's name cannot be resolved when the relay is started.  Socat runs with an
  empty address.  When the controller starts the relay again later and the name can be resolved, the
  address is recorded, but the running process is kept; and while the gateway can be reached at
  the recorded address, the health monitor is content too.
\<close>

theorem unresolved_gateway_is_not_retried:
  assumes "nft_laws env works valid" and "ProxyFqdn opts \<noteq> []" and "ProxyIp opts = []" and "LookupHost env (ProxyFqdn opts) w = Inl e"
    and "start_cmd env (socat_args opts) w = (Inr pid, w1)" and "Getpgid env pid w1 = Inr pgid" and "works w1"
    and "LookupHost env (ProxyFqdn opts) later = Inr [ip]" and "ip \<noteq> []" and "alive env pid later"
    and "path_exists env (Netns opts) later" and "dial env (ip @ '':'' @ opt_ProxyListeningPort opts) later = (True, later')"
  shows "\<exists>s1 s2 s3. StartRelay env (Some opts) (NewSocat w) = Inr s1 \<and> launch env s1 = Inr s2
    \<and> StartRelay env (Some opts) (s2\<lparr>world := later\<rparr>) = Inr s3
    \<and> options s3 = Some (opts\<lparr>ProxyIp := ip\<rparr>) \<and> cmd s3 = Cmd (socat_args opts) (Some pid) \<and> \<not> launching s3
    \<and> monitor_tick env s3 = Inr (Goes_On (s3\<lparr>world := later'\<rparr>))"
proof -
  let ?s1 = "(NewSocat w)\<lparr>options := Some opts, cmd := Cmd (socat_args opts) None, launching := True\<rparr>"
  have 1: "StartRelay env (Some opts) (NewSocat w) = Inr ?s1"
    using assms(2,4) by (simp add: StartRelay_def Configure_def setProxyIp_def socat_start_def startInternal_def socatRunning_def NewSocat_def)
  have "cmd ?s1 = Cmd (socat_args opts) None" "options ?s1 = Some opts" "world ?s1 = w" by (simp_all add: NewSocat_def)
  from launch_started [OF assms(1) this(1,2), of pid w1 pgid] this(3) assms(5-7) obtain w2 where
    2: "launch env ?s1 = Inr (?s1\<lparr>cmd := Cmd (socat_args opts) (Some pid), launching := False, world := w2\<rparr>)" by auto
  let ?s2 = "?s1\<lparr>cmd := Cmd (socat_args opts) (Some pid), launching := False, world := w2\<rparr>"
  let ?s3 = "?s2\<lparr>options := Some (opts\<lparr>ProxyIp := ip\<rparr>), world := later\<rparr>"
  have 3: "StartRelay env (Some opts) (?s2\<lparr>world := later\<rparr>) = Inr ?s3"
    using assms(2,3,8,10)
    by (simp add: StartRelay_def Configure_def setProxyIp_def socat_start_def startInternal_def socatRunning_def NewSocat_def)
  have 4: "monitor_tick env ?s3 = Inr (Goes_On (?s3\<lparr>world := later'\<rparr>))"
    using assms(9,11,12) by (simp add: monitor_tick_def proxyOk_def NewSocat_def)
  from 1 2 3 4 show ?thesis by (intro exI conjI) (assumption | simp)+
qed

theorem unresolved_gateway_is_not_retried_witness:
  "\<exists>s1 s2 s3. StartRelay one_gateway_env (Some shop_options) (NewSocat (False, [], False)) = Inr s1
    \<and> launch one_gateway_env s1 = Inr s2
    \<and> StartRelay one_gateway_env (Some shop_options) (s2\<lparr>world := (True, [nft_chain], True)\<rparr>) = Inr s3
    \<and> cmd s3 = Cmd (socat_args shop_options) (Some 42) \<and> ProxyIp shop_options = []"
  using unresolved_gateway_is_not_retried [OF gateway_laws, of shop_options "(False, [], False)" "''no such host''" 42
      "(False, [], True)" 42 "(True, [nft_chain], True)" "''10.2.0.9''" "(True, [nft_chain], True)"]
  by (auto simp: shop_options_def empty_options_def one_gateway_env_def)

text \<open>
  What the health monitor does if the gateway cannot be reached: it stops socat and removes the redirection,
  looks the address up again, and starts socat anew.  If socat has not ended when it is looked at, it is taken
  for running: nothing is started, and the traffic of the pod is no longer redirected.
\<close>

theorem monitor_restarts_unless_socat_lingers:
  assumes "nft_laws env works valid" and "options s = Some opts" and "ProxyIp opts \<noteq> []" and "healthMonitorActive s"
    and "path_exists env (Netns opts) (world s)" and "proxyOk env opts (world s) = (False, w)"
    and "cmd s = Cmd args (Some pid)" and "works (terminate_group env pid w)"
  shows "\<exists>s'. monitor_tick env s = Inr (Goes_On s') \<and> \<not> redirected env (world s')
    \<and> (if alive env pid (world s') then cmd s' = cmd s \<and> launching s' = launching s
       else \<exists>opts'. options s' = Some opts' \<and> cmd s' = Cmd (socat_args opts') None \<and> launching s')"
proof -
  let ?w1 = "terminate_group env pid w"
  from ProgramNft_Delete [OF assms(1,8), of "Some opts"] obtain w2 where
    d: "ProgramNft env DeleteOp (Some opts) ?w1 = Inr (None, w2)" "\<not> redirected env w2" by blast
  let ?s1 = "setProxyIp env (s\<lparr>world := w2\<rparr>)"
  have ip: "\<exists>opts'. ?s1 = s\<lparr>world := w2, options := Some opts'\<rparr>"
  proof -
    have keep: "\<exists>opts'. s\<lparr>world := w2\<rparr> = s\<lparr>world := w2, options := Some opts'\<rparr>"
      using assms(2) by (intro exI [of _ opts]) simp
    show ?thesis using assms(2) by (auto simp: setProxyIp_def keep split: sum.split list.split)
  qed
  then obtain opts' where s1: "?s1 = s\<lparr>world := w2, options := Some opts'\<rparr>" by blast
  let ?s' = "if alive env pid w2 then ?s1 else ?s1\<lparr>cmd := Cmd (socat_args opts') None, launching := True\<rparr>"
  have "monitor_tick env s = Inr (Goes_On ?s')"
    using assms(2-7) d(1) s1 by (simp add: monitor_tick_def stopInternal_def startInternal_def socatRunning_def)
  with d(2) s1 show ?thesis by (intro exI [of _ ?s']) auto
qed

definition dead_gateway_env :: "(bool \<times> nft_object list \<times> bool) socat_env" where
  "dead_gateway_env = one_gateway_env\<lparr>dial := (\<lambda>addr w. (False, w)), terminate_group := (\<lambda>pid w. w)\<rparr>"

theorem monitor_restarts_unless_socat_lingers_witness:
  "\<exists>s'. monitor_tick dead_gateway_env \<lparr>cmd = Cmd [''-d''] (Some 42), options = Some (shop_options\<lparr>ProxyIp := ''10.2.0.9''\<rparr>),
        healthMonitorActive = True, launching = False, world = (True, [nft_chain], True)\<rparr> = Inr (Goes_On s')
    \<and> \<not> redirected dead_gateway_env (world s')"
  using monitor_restarts_unless_socat_lingers [OF one_gateway_laws [where d = "\<lambda>addr w. (False, w)" and k = "\<lambda>pid w. w", folded dead_gateway_env_def],
      of "\<lparr>cmd = Cmd [''-d''] (Some 42), options = Some (shop_options\<lparr>ProxyIp := ''10.2.0.9''\<rparr>),
        healthMonitorActive = True, launching = False, world = (True, [nft_chain], True)\<rparr>"
         "shop_options\<lparr>ProxyIp := ''10.2.0.9''\<rparr>" "(True, [nft_chain], True)" "[''-d'']" 42]
  by (auto simp: dead_gateway_env_def one_gateway_env_def proxyOk_def Let_def)

end
