(* ===== verification/Apisrv_Event.thy ===== *)
theory Apisrv_Event
  imports Apisrv_Protection "HOL-Library.Multiset"
begin

text \<open>
  A model of the events of the API server, \<^verbatim>\<open>apisrv/internal/models/event.go\<close> and \<^verbatim>\<open>apisrv/pkg/apiserver/event.go\<close>:
  listing events with filters and pages, and statistics over a window of time.  The conditions of the
  queries are predicates on events, whose data is JSON; running a query, which orders, counts and groups the rows
  that satisfy its condition, is a parameter with the meaning that SQL gives it.  Times are in microseconds,
  the resolution of the column.  The lemmas show that pages cover the events, that the statistics are
  those of the window, and where both disagree.
\<close>

section \<open>Events\<close>

record event =
  ev_Tag :: string
  ev_Time :: int
  ev_Data :: json

text \<open>
  The operators \<open>->\<close> with a key and with an index, \<open>->>\<close> with a key, and \<open>@>\<close>.  A missing part is NULL, and so
  is the text of a JSON null; \<open>json_print\<close> prints arrays and objects.
\<close>

definition json_get :: "string \<Rightarrow> json option \<Rightarrow> json option" where
  "json_get k v = (case v of Some (JObject kvs) \<Rightarrow> map_of kvs k | _ \<Rightarrow> None)"

definition json_nth :: "nat \<Rightarrow> json option \<Rightarrow> json option" where
  "json_nth i v = (case v of Some (JArray xs) \<Rightarrow> if i < length xs then Some (xs ! i) else None | _ \<Rightarrow> None)"

definition json_text :: "(json \<Rightarrow> string) \<Rightarrow> string \<Rightarrow> json option \<Rightarrow> string option" where
  "json_text json_print k v = (case json_get k v of
     None \<Rightarrow> None | Some JNull \<Rightarrow> None | Some (JBool b) \<Rightarrow> Some (if b then ''true'' else ''false'')
   | Some (JNumber n) \<Rightarrow> Some n | Some (JString s) \<Rightarrow> Some s | Some x \<Rightarrow> Some (json_print x))"

fun json_contains :: "json \<Rightarrow> json \<Rightarrow> bool" where
  "json_contains x (JObject kvs) \<longleftrightarrow> (case x of
     JObject xs \<Rightarrow> list_all (\<lambda>kv. case map_of xs (fst kv) of None \<Rightarrow> False | Some y \<Rightarrow> json_contains y (snd kv)) kvs | _ \<Rightarrow> False)"
| "json_contains x (JArray vs) \<longleftrightarrow> (case x of JArray xs \<Rightarrow> list_all (\<lambda>v. list_ex (\<lambda>y. json_contains y v) xs) vs | _ \<Rightarrow> False)"
| "json_contains x v \<longleftrightarrow> x = v"

text \<open>The parts of the data that the queries look at.\<close>

definition ev_transaction :: "event \<Rightarrow> json option" where
  "ev_transaction e = json_get ''transaction'' (Some (ev_Data e))"

definition ev_protection :: "(json \<Rightarrow> string) \<Rightarrow> event \<Rightarrow> string option" where
  "ev_protection pr e = json_text pr ''x-wafie-protection-id'' (json_get ''headers'' (json_get ''request'' (ev_transaction e)))"

definition ev_details :: "event \<Rightarrow> json option" where
  "ev_details e = json_get ''details'' (json_nth 0 (json_get ''messages'' (ev_transaction e)))"

definition ev_severity :: "(json \<Rightarrow> string) \<Rightarrow> event \<Rightarrow> string option" where
  "ev_severity pr e = json_text pr ''severity'' (ev_details e)"

definition ev_rule :: "(json \<Rightarrow> string) \<Rightarrow> event \<Rightarrow> string option" where
  "ev_rule pr e = json_text pr ''ruleId'' (ev_details e)"

definition ev_client :: "(json \<Rightarrow> string) \<Rightarrow> event \<Rightarrow> string option" where
  "ev_client pr e = json_text pr ''client_ip'' (ev_transaction e)"

text \<open>The rule that blocks is among the messages.\<close>

definition blocked_pattern :: json where
  "blocked_pattern = JObject [(''transaction'', JObject [(''messages'', JArray [JObject [(''details'',
     JObject [(''ruleId'', JString ''949110'')])]])])]"

definition ev_blocked :: "event \<Rightarrow> bool" where
  "ev_blocked e \<longleftrightarrow> json_contains (ev_Data e) blocked_pattern"

section \<open>Queries\<close>

text \<open>
  A query over the table of events as GORM collects it: its conditions, the column by which the rows are to be
  ordered and whether the order is descending, the limit and the offset.
\<close>

datatype direction = ASC | DESC

record event_query =
  qu_Where :: "(event \<Rightarrow> bool) list"
  qu_Order :: "((event \<Rightarrow> int) \<times> direction) option"
  qu_Limit :: "nat option"
  qu_Offset :: nat

definition Model_Event :: event_query where
  "Model_Event = \<lparr>qu_Where = [], qu_Order = None, qu_Limit = None, qu_Offset = 0\<rparr>"

definition Where :: "(event \<Rightarrow> bool) \<Rightarrow> event_query \<Rightarrow> event_query" where
  "Where c q = q\<lparr>qu_Where := qu_Where q @ [c]\<rparr>"

text \<open>
  What is run: counting the rows of a query, finding them; and of the statements of the statistics, over the rows
  that satisfy a condition, three numbers (rows, rows of a kind, different values of an expression) and
  the groups of a value with the number of rows of each, and of rows of a kind, the largest first,
  at most so many.
\<close>

record 'db event_db =
  q_Count :: "event_query \<Rightarrow> 'db \<Rightarrow> db_error + nat"
  q_Find :: "event_query \<Rightarrow> 'db \<Rightarrow> db_error + event list"
  q_totals :: "(event \<Rightarrow> bool) \<Rightarrow> (event \<Rightarrow> bool) \<Rightarrow> (event \<Rightarrow> string option) \<Rightarrow> 'db \<Rightarrow> db_error + nat \<times> nat \<times> nat"
  q_groups :: "(event \<Rightarrow> bool) \<Rightarrow> (event \<Rightarrow> bool) \<Rightarrow> (event \<Rightarrow> string option) \<Rightarrow> nat option \<Rightarrow> 'db
     \<Rightarrow> db_error + (string option \<times> nat \<times> nat) list"

section \<open>Listing\<close>

record TimeRange =
  tr_Start :: "int option"
  tr_End :: "int option"

record ListEventsRequest =
  le_TimeRange :: "TimeRange option"
  le_ProtectionId :: "uint32 option"
  le_Severity :: "uint32 option"
  le_RuleId :: "string option"
  le_ClientIp :: "string option"
  le_Limit :: "uint32 option"
  le_Offset :: "uint32 option"
  le_RequestUri :: "string option"

text \<open>A condition that is added if the field of the request is set.\<close>

definition where_opt :: "'a option \<Rightarrow> ('a \<Rightarrow> event \<Rightarrow> bool) \<Rightarrow> event_query \<Rightarrow> event_query" where
  "where_opt x c q = (case x of None \<Rightarrow> q | Some a \<Rightarrow> Where (c a) q)"

definition list_query :: "(json \<Rightarrow> string) \<Rightarrow> ListEventsRequest \<Rightarrow> event_query" where
  "list_query pr req =
     (let query = Model_Event;
          query = (case le_TimeRange req of None \<Rightarrow> query | Some r \<Rightarrow>
            where_opt (tr_End r) (\<lambda>t e. ev_Time e \<le> t) (where_opt (tr_Start r) (\<lambda>s e. s \<le> ev_Time e) query));
          query = where_opt (le_ProtectionId req) (\<lambda>i e. ev_protection pr e = Some (dec_nat (unat i))) query;
          query = where_opt (le_Severity req) (\<lambda>i e. ev_severity pr e = Some (dec_nat (unat i))) query;
          query = where_opt (le_RuleId req) (\<lambda>i e. ev_rule pr e = Some i) query;
          query = where_opt (le_ClientIp req) (\<lambda>i e. ev_client pr e = Some i) query
      in query)"

definition page_limit :: "uint32 option \<Rightarrow> nat" where
  "page_limit l = (let limit = (case l of None \<Rightarrow> 0 | Some w \<Rightarrow> unat w) in if limit \<le> 0 \<or> limit > 1000 then 50 else limit)"

definition page_offset :: "uint32 option \<Rightarrow> nat" where
  "page_offset off = (case off of None \<Rightarrow> 0 | Some w \<Rightarrow> unat w)"

definition ListEvents :: "(json \<Rightarrow> string) \<Rightarrow> 'db event_db \<Rightarrow> ListEventsRequest \<Rightarrow> 'db \<Rightarrow> db_error + event list \<times> nat" where
  "ListEvents pr repo req db =
     (let query = list_query pr req in
      bind_res (q_Count repo query db) (\<lambda>total.
        let query = query\<lparr>qu_Order := Some (ev_Time, DESC)\<rparr>;
            query = query\<lparr>qu_Limit := Some (page_limit (le_Limit req)), qu_Offset := page_offset (le_Offset req)\<rparr>
        in bind_res (q_Find repo query db) (\<lambda>events. Inr (events, total))))"

section \<open>Statistics\<close>

record GetEventStatsRequest =
  gs_TimeRange :: "TimeRange option"
  gs_ProtectionId :: "uint32 option"
  gs_IncludePerProtection :: "bool option"

record EventStats =
  TotalEvents :: nat
  BlockedAttacks :: nat
  UniqueIps :: nat
  BySeverity :: "(string \<times> nat) list"
  TopRules :: "(string \<times> nat) list"
  TopIps :: "(string \<times> nat) list"
  PerProtection :: "(string \<times> nat \<times> nat) list"

text \<open>A time that is printed with \<open>time.RFC3339\<close> has no fraction of a second.\<close>

definition rfc3339 :: "int \<Rightarrow> int" where
  "rfc3339 t = (t div 1000000) * 1000000"

definition opt_all :: "('a \<Rightarrow> bool) \<Rightarrow> 'a option \<Rightarrow> bool" where
  "opt_all P x = (case x of None \<Rightarrow> True | Some a \<Rightarrow> P a)"

text \<open>
  The window: without a start, the last 24 hours before \<open>now\<close>, even if an end is given.  The interval that is
  computed from both bounds is never used, since the start then replaces the condition that contains it.
\<close>

definition base_where :: "(json \<Rightarrow> string) \<Rightarrow> int \<Rightarrow> GetEventStatsRequest \<Rightarrow> event \<Rightarrow> bool" where
  "base_where pr now req e \<longleftrightarrow>
     (case Option.bind (gs_TimeRange req) tr_Start of
        None \<Rightarrow> now - 86400000000 < ev_Time e | Some s \<Rightarrow> rfc3339 s \<le> ev_Time e)
   \<and> opt_all (\<lambda>t. ev_Time e \<le> rfc3339 t) (Option.bind (gs_TimeRange req) tr_End)
   \<and> opt_all (\<lambda>i. ev_protection pr e = Some (dec_nat (unat i))) (gs_ProtectionId req)"

text \<open>The errors of the queries are not looked at: a failed one leaves its result empty.  NULL is scanned into an empty string.\<close>

definition scanned :: "'a \<Rightarrow> db_error + 'a \<Rightarrow> 'a" where
  "scanned zero r = (case r of Inl e \<Rightarrow> zero | Inr x \<Rightarrow> x)"

definition scanned_groups :: "db_error + (string option \<times> nat \<times> nat) list \<Rightarrow> (string \<times> nat \<times> nat) list" where
  "scanned_groups r = map (\<lambda>(k, n, b). (case k of None \<Rightarrow> [] | Some s \<Rightarrow> s, n, b)) (scanned [] r)"

definition GetEventStats :: "(json \<Rightarrow> string) \<Rightarrow> int \<Rightarrow> 'db event_db \<Rightarrow> GetEventStatsRequest \<Rightarrow> 'db \<Rightarrow> db_error + EventStats" where
  "GetEventStats pr now repo req db =
     (let baseWhere = base_where pr now req;
          (total, blocked, ips) = scanned (0, 0, 0) (q_totals repo baseWhere ev_blocked (ev_client pr) db);
          severities = scanned_groups (q_groups repo baseWhere ev_blocked (ev_severity pr) None db);
          rules = scanned_groups (q_groups repo (\<lambda>e. baseWhere e \<and> ev_rule pr e \<noteq> None) ev_blocked (ev_rule pr) (Some 10) db);
          ipCounts = scanned_groups (q_groups repo (\<lambda>e. baseWhere e \<and> ev_client pr e \<noteq> None) ev_blocked (ev_client pr) (Some 10) db);
          protections = (if gs_IncludePerProtection req = Some True
            then scanned_groups (q_groups repo (\<lambda>e. baseWhere e \<and> ev_protection pr e \<noteq> None) ev_blocked (ev_protection pr) None db)
            else [])
      in Inr \<lparr>TotalEvents = total, BlockedAttacks = blocked, UniqueIps = ips,
        BySeverity = [(k, n). (k, n, b) \<leftarrow> severities, k \<noteq> []],
        TopRules = map (\<lambda>(k, n, b). (k, n)) rules, TopIps = map (\<lambda>(k, n, b). (k, n)) ipCounts,
        PerProtection = protections\<rparr>)"

section \<open>What is relied on of the database\<close>

text \<open>The groups of the values of an expression, with the number of rows and of rows of a kind.\<close>

definition group_counts :: "(event \<Rightarrow> bool) \<Rightarrow> (event \<Rightarrow> string option) \<Rightarrow> event list \<Rightarrow> (string option \<times> nat \<times> nat) list" where
  "group_counts B key es = map (\<lambda>v. (v, length (filter (\<lambda>e. key e = v) es), length (filter (\<lambda>e. key e = v \<and> B e) es)))
     (remdups (map key es))"

text \<open>
  The meaning of the queries, as SQL defines it.  Counting without a limit counts the rows that satisfy all conditions.
  Finding takes these rows in any order that is sorted by the column and direction of the query, if it has one, skips
  as many as the offset says and delivers at most as many as the limit says.  Rows with the same value of
  the column, and groups of the same size, may come in any order, and in another order in another query.
\<close>

definition selects :: "event_query \<Rightarrow> event \<Rightarrow> bool" where
  "selects q e \<longleftrightarrow> list_all (\<lambda>c. c e) (qu_Where q)"

definition in_query_order :: "event_query \<Rightarrow> event list \<Rightarrow> bool" where
  "in_query_order q es \<longleftrightarrow> (case qu_Order q of None \<Rightarrow> True
     | Some (column, ASC) \<Rightarrow> sorted_wrt (\<lambda>a b. column a \<le> column b) es
     | Some (column, DESC) \<Rightarrow> sorted_wrt (\<lambda>a b. column b \<le> column a) es)"

definition event_db_ok :: "'db event_db \<Rightarrow> ('db \<Rightarrow> event list) \<Rightarrow> bool" where
  "event_db_ok repo rows \<longleftrightarrow>
     (\<forall>q db n. qu_Limit q = None \<longrightarrow> qu_Offset q = 0 \<longrightarrow> q_Count repo q db = Inr n \<longrightarrow> n = length (filter (selects q) (rows db)))
   \<and> (\<forall>q db es. q_Find repo q db = Inr es \<longrightarrow> (\<exists>result. mset result = mset (filter (selects q) (rows db)) \<and> in_query_order q result
        \<and> es = (case qu_Limit q of None \<Rightarrow> drop (qu_Offset q) result | Some l \<Rightarrow> take l (drop (qu_Offset q) result))))
   \<and> (\<forall>P B key db t. q_totals repo P B key db = Inr t \<longrightarrow>
        t = (length (filter P (rows db)), length (filter (\<lambda>e. P e \<and> B e) (rows db)),
             card {v. \<exists>e \<in> set (rows db). P e \<and> key e = Some v}))
   \<and> (\<forall>P B key limit db gs. q_groups repo P B key limit db = Inr gs \<longrightarrow>
        (\<exists>sorted_groups. mset sorted_groups = mset (group_counts B key (filter P (rows db)))
          \<and> sorted_wrt (\<lambda>a b. fst (snd b) \<le> fst (snd a)) sorted_groups
          \<and> gs = (case limit of None \<Rightarrow> sorted_groups | Some n \<Rightarrow> take n sorted_groups)))"

lemma query_laws:
  assumes "event_db_ok repo rows"
  shows "q_Count repo q db = Inr n \<Longrightarrow> qu_Limit q = None \<Longrightarrow> qu_Offset q = 0 \<Longrightarrow> n = length (filter (selects q) (rows db))"
    and "q_Find repo q db = Inr es \<Longrightarrow> \<exists>result. mset result = mset (filter (selects q) (rows db)) \<and> in_query_order q result
        \<and> es = (case qu_Limit q of None \<Rightarrow> drop (qu_Offset q) result | Some l \<Rightarrow> take l (drop (qu_Offset q) result))"
    and "q_totals repo P B key db = Inr t \<Longrightarrow> t = (length (filter P (rows db)), length (filter (\<lambda>e. P e \<and> B e) (rows db)),
             card {v. \<exists>e \<in> set (rows db). P e \<and> key e = Some v})"
    and "q_groups repo P B key limit db = Inr gs \<Longrightarrow>
        \<exists>sorted_groups. mset sorted_groups = mset (group_counts B key (filter P (rows db)))
          \<and> sorted_wrt (\<lambda>a b. fst (snd b) \<le> fst (snd a)) sorted_groups
          \<and> gs = (case limit of None \<Rightarrow> sorted_groups | Some n \<Rightarrow> take n sorted_groups)"
  using assms unfolding event_db_ok_def by blast+

lemma length_filter_split:
  "length (filter (\<lambda>e. P e \<and> \<not> Q e) xs) + length (filter (\<lambda>e. P e \<and> Q e) xs) = length (filter P xs)"
  by (induction xs) auto

section \<open>Pages\<close>

text \<open>
  What a request asks for, independently of the queries: the part of an event's data at a path of keys and
  indices, its text, and the fields of the request that are set.
\<close>

datatype json_step = Key string | Index nat

fun json_at :: "json_step list \<Rightarrow> json \<Rightarrow> json option" where
  "json_at [] v = Some v"
| "json_at (Key k # steps) (JObject kvs) = (case map_of kvs k of None \<Rightarrow> None | Some v \<Rightarrow> json_at steps v)"
| "json_at (Index i # steps) (JArray vs) = (if i < length vs then json_at steps (vs ! i) else None)"
| "json_at _ _ = None"

fun scalar_text :: "(json \<Rightarrow> string) \<Rightarrow> json \<Rightarrow> string option" where
  "scalar_text pr JNull = None"
| "scalar_text pr (JBool b) = Some (if b then ''true'' else ''false'')"
| "scalar_text pr (JNumber n) = Some n"
| "scalar_text pr (JString t) = Some t"
| "scalar_text pr v = Some (pr v)"

definition says :: "(json \<Rightarrow> string) \<Rightarrow> event \<Rightarrow> json_step list \<Rightarrow> string \<Rightarrow> bool" where
  "says pr e path t \<longleftrightarrow> (\<exists>v. json_at path (ev_Data e) = Some v \<and> scalar_text pr v = Some t)"

definition asked_for :: "(json \<Rightarrow> string) \<Rightarrow> ListEventsRequest \<Rightarrow> event \<Rightarrow> bool" where
  "asked_for pr req e \<longleftrightarrow>
     (\<forall>r s. le_TimeRange req = Some r \<longrightarrow> tr_Start r = Some s \<longrightarrow> s \<le> ev_Time e)
   \<and> (\<forall>r t. le_TimeRange req = Some r \<longrightarrow> tr_End r = Some t \<longrightarrow> ev_Time e \<le> t)
   \<and> (\<forall>i. le_ProtectionId req = Some i \<longrightarrow>
        says pr e [Key ''transaction'', Key ''request'', Key ''headers'', Key ''x-wafie-protection-id''] (dec_nat (unat i)))
   \<and> (\<forall>i. le_Severity req = Some i \<longrightarrow>
        says pr e [Key ''transaction'', Key ''messages'', Index 0, Key ''details'', Key ''severity''] (dec_nat (unat i)))
   \<and> (\<forall>i. le_RuleId req = Some i \<longrightarrow>
        says pr e [Key ''transaction'', Key ''messages'', Index 0, Key ''details'', Key ''ruleId''] i)
   \<and> (\<forall>i. le_ClientIp req = Some i \<longrightarrow> says pr e [Key ''transaction'', Key ''client_ip''] i)"

lemma bind_json_at:
  "Option.bind v (json_at []) = v"
  "Option.bind v (json_at (Key k # steps)) = Option.bind (json_get k v) (json_at steps)"
  "Option.bind v (json_at (Index i # steps)) = Option.bind (json_nth i v) (json_at steps)"
proof -
  show "Option.bind v (json_at []) = v" by (cases v) simp_all
  show "Option.bind v (json_at (Key k # steps)) = Option.bind (json_get k v) (json_at steps)"
    by (cases v; cases "the v") (simp_all add: json_get_def split: option.split)
  show "Option.bind v (json_at (Index i # steps)) = Option.bind (json_nth i v) (json_at steps)"
    by (cases v; cases "the v") (simp_all add: json_nth_def)
qed

lemma json_text_bind: "json_text pr k v = Option.bind (json_get k v) (scalar_text pr)"
  by (auto simp: json_text_def split: option.split json.split)

lemma says_iff:
  "says pr e path t \<longleftrightarrow> Option.bind (Option.bind (Some (ev_Data e)) (json_at path)) (scalar_text pr) = Some t"
  by (auto simp: says_def bind_eq_Some_conv)

lemma parts_say:
  "ev_protection pr e = Some t \<longleftrightarrow> says pr e [Key ''transaction'', Key ''request'', Key ''headers'', Key ''x-wafie-protection-id''] t"
  "ev_severity pr e = Some t \<longleftrightarrow> says pr e [Key ''transaction'', Key ''messages'', Index 0, Key ''details'', Key ''severity''] t"
  "ev_rule pr e = Some t \<longleftrightarrow> says pr e [Key ''transaction'', Key ''messages'', Index 0, Key ''details'', Key ''ruleId''] t"
  "ev_client pr e = Some t \<longleftrightarrow> says pr e [Key ''transaction'', Key ''client_ip''] t"
  unfolding ev_protection_def ev_severity_def ev_rule_def ev_client_def ev_details_def ev_transaction_def says_iff bind_json_at
    json_text_bind
  by (rule refl)+

lemma selects_where_opt [simp]: "selects (where_opt x c q) e \<longleftrightarrow> selects q e \<and> (\<forall>a. x = Some a \<longrightarrow> c a e)"
  by (cases x) (auto simp: where_opt_def Where_def selects_def)

lemma selects_Model [simp]: "selects Model_Event e"
  by (simp add: selects_def Model_Event_def)

lemma selects_page [simp]:
  "selects (q\<lparr>qu_Order := o'\<rparr>) = selects q" "selects (q\<lparr>qu_Limit := l\<rparr>) = selects q" "selects (q\<lparr>qu_Offset := n\<rparr>) = selects q"
  by (simp_all add: selects_def fun_eq_iff)

text \<open>The conditions of the query are what is asked for.\<close>

lemma selects_list_query: "selects (list_query pr req) = asked_for pr req"
  by (rule ext) (auto simp: list_query_def asked_for_def parts_say Let_def split: option.splits)

lemma list_query_plain: "qu_Limit (list_query pr req) = None" "qu_Offset (list_query pr req) = 0"
  by (auto simp: list_query_def where_opt_def Where_def Model_Event_def Let_def split: option.splits)

lemma asked_for_offset [simp]: "asked_for pr (req\<lparr>le_Offset := off\<rparr>) = asked_for pr req"
  by (simp add: asked_for_def fun_eq_iff)

text \<open>What is listed.\<close>

lemma ListEvents_listed:
  assumes "event_db_ok repo rows" and "ListEvents pr repo req db = Inr (es, matching)"
  shows "matching = length (filter (asked_for pr req) (rows db))"
    and "\<exists>result. mset result = mset (filter (asked_for pr req) (rows db)) \<and> sorted_wrt (\<lambda>a b. ev_Time b \<le> ev_Time a) result
      \<and> es = take (page_limit (le_Limit req)) (drop (page_offset (le_Offset req)) result)"
proof -
  let ?q = "(list_query pr req)\<lparr>qu_Order := Some (ev_Time, DESC), qu_Limit := Some (page_limit (le_Limit req)), qu_Offset := page_offset (le_Offset req)\<rparr>"
  from assms(2) have q: "q_Count repo (list_query pr req) db = Inr matching" "q_Find repo ?q db = Inr es"
    by (auto simp: ListEvents_def Let_def bind_res_eq_Inr_iff)
  from query_laws(1) [OF assms(1) q(1) list_query_plain] show "matching = length (filter (asked_for pr req) (rows db))"
    by (simp add: selects_list_query)
  from query_laws(2) [OF assms(1) q(2)]
  show "\<exists>result. mset result = mset (filter (asked_for pr req) (rows db)) \<and> sorted_wrt (\<lambda>a b. ev_Time b \<le> ev_Time a) result
      \<and> es = take (page_limit (le_Limit req)) (drop (page_offset (le_Offset req)) result)"
    by (simp add: selects_list_query in_query_order_def)
qed

text \<open>Rows with different times have one order.\<close>

lemma latest_first_unique:
  assumes "mset xs = mset ys" and "sorted_wrt (\<lambda>a b. ev_Time b \<le> ev_Time a) xs" and "distinct (map ev_Time ys)"
  shows "xs = rev (sort_key ev_Time ys)"
proof -
  have "sorted (map ev_Time (rev xs))" using assms(2) by (simp add: sorted_wrt_map sorted_wrt_rev)
  moreover have "inj_on ev_Time (set ys)" using assms(3) by (simp add: distinct_map)
  moreover have "mset ys = mset (rev xs)" using assms(1) by simp
  ultimately have "sort_key ev_Time ys = rev xs" by (intro sort_key_inj_key_eq)
  then show ?thesis by simp
qed

lemma concat_pages: "concat (map (\<lambda>k. take l (drop (k * l) xs)) [0..<n]) = take (n * l) xs"
proof (induction n)
  case (Suc n)
  have "Suc n * l = n * l + l" by simp
  with Suc show ?case by (simp only: upt_Suc_append map_append concat_append take_add) simp
qed simp

text \<open>
  C33: Pages cover the events.  If the events that a request asks for (by time, protection, severity and
  rule of the first message, and client) have different times, and the pages are
  asked for one after the other with a limit that is accepted, they make up, without gaps and
  repetitions, all these events, the latest first; and each answer gives their number.
\<close>

theorem pages_cover_the_events:
  assumes "event_db_ok repo rows" and "distinct (map ev_Time (filter (asked_for pr req) (rows db)))"
    and "le_Limit req = Some l" and "0 < unat l" and "unat l \<le> 1000" and "n * unat l \<le> 2 ^ 32"
    and "length (filter (asked_for pr req) (rows db)) \<le> n * unat l"
    and "\<forall>k < n. ListEvents pr repo (req\<lparr>le_Offset := Some (word_of_nat (k * unat l))\<rparr>) db = Inr (page k, matching k)"
  shows "concat (map page [0..<n]) = rev (sort_key ev_Time (filter (asked_for pr req) (rows db)))
    \<and> (\<forall>k < n. matching k = length (filter (asked_for pr req) (rows db)))"
proof -
  let ?all = "rev (sort_key ev_Time (filter (asked_for pr req) (rows db)))"
  have page: "page k = take (unat l) (drop (k * unat l) ?all) \<and> matching k = length (filter (asked_for pr req) (rows db))"
    if k: "k < n" for k
  proof -
    have "k * unat l < n * unat l" using k assms(4) by simp
    with assms(6) have "k * unat l < 2 ^ 32" by linarith
    then have off: "unat (word_of_nat (k * unat l) :: uint32) = k * unat l" by (simp add: unat_of_nat del: of_nat_mult)
    from assms(8) k have le: "ListEvents pr repo (req\<lparr>le_Offset := Some (word_of_nat (k * unat l))\<rparr>) db = Inr (page k, matching k)" by blast
    from ListEvents_listed(2) [OF assms(1) le] obtain result where
      "mset result = mset (filter (asked_for pr req) (rows db))" "sorted_wrt (\<lambda>a b. ev_Time b \<le> ev_Time a) result"
      "page k = take (unat l) (drop (k * unat l) result)"
      using off assms(3-5) by (auto simp: page_limit_def page_offset_def simp del: of_nat_mult)
    with latest_first_unique assms(2) have "page k = take (unat l) (drop (k * unat l) ?all)" by metis
    with ListEvents_listed(1) [OF assms(1) le] show ?thesis by simp
  qed
  have "concat (map page [0..<n]) = concat (map (\<lambda>k. take (unat l) (drop (k * unat l) ?all)) [0..<n])"
    using page by (intro arg_cong [where f = concat] map_cong) auto
  also have "\<dots> = ?all" using assms(7) by (simp add: concat_pages)
  finally show ?thesis using page by blast
qed

text \<open>
  The size of a page: as many of the events after the offset as the limit allows, at most 1000.  A limit of
  zero or above 1000 counts as 50, so that a client that goes on by the limit it asked for skips
  events.
\<close>

theorem page_size:
  assumes "event_db_ok repo rows" and "ListEvents pr repo req db = Inr (es, matching)"
  shows "length es = min (page_limit (le_Limit req)) (matching - page_offset (le_Offset req))
    \<and> 0 < page_limit (le_Limit req) \<and> page_limit (le_Limit req) \<le> 1000
    \<and> (\<forall>l. le_Limit req = Some l \<longrightarrow> page_limit (le_Limit req) = unat l \<or> (l = 0 \<or> 1000 < unat l) \<and> page_limit (le_Limit req) = 50)"
proof -
  from ListEvents_listed(2) [OF assms] obtain os where os: "mset os = mset (filter (asked_for pr req) (rows db))"
      "es = take (page_limit (le_Limit req)) (drop (page_offset (le_Offset req)) os)" by blast
  from os(1) ListEvents_listed(1) [OF assms] have "length os = matching" by (metis size_mset)
  with os(2) show ?thesis by (auto simp: page_limit_def Let_def unat_eq_0 split: option.splits)
qed

text \<open>A database that is the list of its rows.\<close>

definition list_db :: "event list event_db" where
  "list_db = \<lparr>
     q_Count = (\<lambda>q db. Inr (length (filter (selects q) db))),
     q_Find = (\<lambda>q db. let found = filter (selects q) db;
          ordered = (case qu_Order q of None \<Rightarrow> found | Some (column, ASC) \<Rightarrow> sort_key column found
            | Some (column, DESC) \<Rightarrow> rev (sort_key column found))
        in Inr (case qu_Limit q of None \<Rightarrow> drop (qu_Offset q) ordered | Some l \<Rightarrow> take l (drop (qu_Offset q) ordered))),
     q_totals = (\<lambda>P B key db. Inr (length (filter P db), length (filter (\<lambda>e. P e \<and> B e) db),
        length (remdups (List.map_filter key (filter P db))))),
     q_groups = (\<lambda>P B key limit db. let gs = rev (sort_key (\<lambda>g. fst (snd g)) (group_counts B key (filter P db)))
        in Inr (case limit of None \<Rightarrow> gs | Some n \<Rightarrow> take n gs))\<rparr>"

lemma sorted_wrt_rev_sort_key: "sorted_wrt (\<lambda>a b. f b \<le> f a) (rev (sort_key f xs))"
  using sorted_sort_key [of f xs] by (simp add: sorted_wrt_rev sorted_wrt_map)

lemma list_db_ok: "event_db_ok list_db (\<lambda>db. db)"
proof -
  have count: "length (remdups (List.map_filter key (filter P db))) = card {v. \<exists>e \<in> set db. P e \<and> key e = Some v}"
    for key :: "event \<Rightarrow> string option" and P db
  proof -
    have "set (List.map_filter key (filter P db)) = {v. \<exists>e \<in> set db. P e \<and> key e = Some v}"
      by (force simp: List.map_filter_def)
    then show ?thesis by (simp add: length_remdups_card_conv)
  qed
  have find: "\<exists>result. mset result = mset (filter (selects q) db) \<and> in_query_order q result
      \<and> es = (case qu_Limit q of None \<Rightarrow> drop (qu_Offset q) result | Some l \<Rightarrow> take l (drop (qu_Offset q) result))"
    if "q_Find list_db q db = Inr es" for q db es
  proof -
    let ?found = "filter (selects q) db"
    let ?ordered = "case qu_Order q of None \<Rightarrow> ?found | Some (column, ASC) \<Rightarrow> sort_key column ?found
      | Some (column, DESC) \<Rightarrow> rev (sort_key column ?found)"
    have "mset ?ordered = mset ?found \<and> in_query_order q ?ordered"
      using sorted_sort_key sorted_wrt_rev_sort_key by (auto simp: in_query_order_def sorted_wrt_map split: option.split direction.split)
    with that show ?thesis by (intro exI [of _ ?ordered]) (simp add: list_db_def Let_def)
  qed
  show ?thesis
    unfolding event_db_ok_def
  proof (intro conjI allI impI, goal_cases)
    case (2 q db es)
    then show ?case by (rule find)
  qed (auto simp: list_db_def Let_def count intro!: exI [of _ "rev (sort_key _ _)"] sorted_wrt_rev_sort_key)
qed

definition client_event :: "int \<Rightarrow> string \<Rightarrow> event" where
  "client_event t ip = \<lparr>ev_Tag = ''waf'', ev_Time = t, ev_Data = JObject [(''transaction'', JObject [(''client_ip'', JString ip)])]\<rparr>"

definition all_events :: ListEventsRequest where
  "all_events = \<lparr>le_TimeRange = None, le_ProtectionId = None, le_Severity = None, le_RuleId = None, le_ClientIp = None,
     le_Limit = None, le_Offset = None, le_RequestUri = None\<rparr>"

lemma all_events_asked [simp]: "asked_for pr (all_events\<lparr>le_Limit := l\<rparr>) e"
  by (simp add: asked_for_def all_events_def)

theorem pages_cover_the_events_witness:
  "concat (map (\<lambda>k. fst (projr (ListEvents (\<lambda>_. []) list_db (all_events\<lparr>le_ClientIp := Some ''a'', le_Limit := Some 2, le_Offset := Some (word_of_nat (k * 2))\<rparr>)
      [client_event 1 ''a'', client_event 4 ''b'', client_event 3 ''a'', client_event 2 ''a'']))) [0..<2])
    = [client_event 3 ''a'', client_event 2 ''a'', client_event 1 ''a'']"
proof -
  let ?db = "[client_event 1 ''a'', client_event 4 ''b'', client_event 3 ''a'', client_event 2 ''a'']"
  let ?req = "all_events\<lparr>le_ClientIp := Some ''a'', le_Limit := Some 2\<rparr>"
  let ?r = "\<lambda>k. projr (ListEvents (\<lambda>_. []) list_db (?req\<lparr>le_Offset := Some (word_of_nat (k * 2))\<rparr>) ?db)"
  have r: "ListEvents (\<lambda>_. []) list_db (?req\<lparr>le_Offset := Some (word_of_nat (k * 2))\<rparr>) ?db = Inr (fst (?r k), snd (?r k))" for k
    by (simp add: ListEvents_def list_db_def Let_def)
  have "asked_for (\<lambda>_. []) ?req (client_event t ip) \<longleftrightarrow> ip = ''a''" for t ip
    by (simp add: asked_for_def all_events_def says_def client_event_def)
  then have f: "filter (asked_for (\<lambda>_. []) ?req) ?db = [client_event 1 ''a'', client_event 3 ''a'', client_event 2 ''a'']" by simp
  have "distinct (map ev_Time (filter (asked_for (\<lambda>_. []) ?req) ?db))" unfolding f by (simp add: client_event_def)
  with r f pages_cover_the_events [OF list_db_ok, of "\<lambda>_. []" ?req ?db 2 2 "\<lambda>k. fst (?r k)" "\<lambda>k. snd (?r k)"]
  have "concat (map (\<lambda>k. fst (?r k)) [0..<2]) = rev (sort_key ev_Time [client_event 1 ''a'', client_event 3 ''a'', client_event 2 ''a''])" by simp
  also have "\<dots> = [client_event 3 ''a'', client_event 2 ''a'', client_event 1 ''a'']" by (simp add: client_event_def)
  finally show ?thesis by simp
qed

theorem page_size_witness:
  "\<exists>es. ListEvents (\<lambda>_. []) list_db (all_events\<lparr>le_Limit := Some 2000\<rparr>) (map (\<lambda>k. client_event (int k) ''a'') [0..<60]) = Inr (es, 60)
    \<and> length es = 50"
proof -
  let ?req = "all_events\<lparr>le_Limit := Some 2000\<rparr>" and ?db = "map (\<lambda>k. client_event (int k) ''a'') [0..<60]"
  obtain es where es: "ListEvents (\<lambda>_. []) list_db ?req ?db = Inr (es, 60)"
    by (simp add: ListEvents_def list_db_def Let_def selects_list_query)
  from page_size [OF list_db_ok es] have "length es = 50" by (simp add: page_limit_def page_offset_def all_events_def)
  with es show ?thesis by blast
qed

section \<open>Statistics of a window\<close>

lemma rfc3339_whole: "s mod 1000000 = 0 \<Longrightarrow> rfc3339 s = s"
  unfolding rfc3339_def using mult_div_mod_eq [of 1000000 s] by linarith

lemma rfc3339_le: "rfc3339 s \<le> s"
  unfolding rfc3339_def using mult_div_mod_eq [of 1000000 s] by (simp add: minus_mod_eq_div_mult [symmetric])

text \<open>Statistics are always returned, even if all queries fail.\<close>

lemma GetEventStats_never_fails: "\<exists>st. GetEventStats pr now repo req db = Inr st"
  by (cases "scanned (0, 0, 0) (q_totals repo (base_where pr now req) ev_blocked (ev_client pr) db)")
    (simp add: GetEventStats_def Let_def)

lemma GetEventStats_total:
  assumes "event_db_ok repo rows" and "GetEventStats pr now repo req db = Inr st"
    and "q_totals repo (base_where pr now req) ev_blocked (ev_client pr) db = Inr t"
  shows "TotalEvents st = length (filter (base_where pr now req) (rows db))"
    and "BlockedAttacks st = length (filter (\<lambda>e. base_where pr now req e \<and> ev_blocked e) (rows db))"
    and "UniqueIps st = card {v. \<exists>e \<in> set (rows db). base_where pr now req e \<and> ev_client pr e = Some v}"
  using assms(2) query_laws(3) [OF assms(1,3)] by (auto simp: GetEventStats_def Let_def assms(3) scanned_def)

text \<open>
  What the statistics of a window count, compared with the listing of the same window and protection.  The
  bounds are cut to whole seconds: the number of events is that of a listing with bounds cut in this way.
  So it is the number that the listing reports if both bounds are whole seconds; and if the start is, it
  falls short of it by the events in the last fraction of a second.
\<close>

theorem statistics_count_whole_seconds:
  assumes "event_db_ok repo rows" and "GetEventStats pr now repo req db = Inr st"
    and "q_totals repo (base_where pr now req) ev_blocked (ev_client pr) db = Inr totals"
    and "gs_TimeRange req = Some \<lparr>tr_Start = Some s, tr_End = Some t\<rparr>"
    and "lreq = all_events\<lparr>le_TimeRange := gs_TimeRange req, le_ProtectionId := gs_ProtectionId req\<rparr>"
    and "ListEvents pr repo lreq db = Inr (es, matching)"
  shows "TotalEvents st = length (filter (asked_for pr (lreq\<lparr>le_TimeRange := Some \<lparr>tr_Start = Some (rfc3339 s), tr_End = Some (rfc3339 t)\<rparr>\<rparr>)) (rows db))
    \<and> (s mod 1000000 = 0 \<longrightarrow> TotalEvents st + length (filter (\<lambda>e. asked_for pr lreq e \<and> rfc3339 t < ev_Time e) (rows db)) = matching)
    \<and> (s mod 1000000 = 0 \<longrightarrow> t mod 1000000 = 0 \<longrightarrow> TotalEvents st = matching)"
proof -
  let ?cut = "lreq\<lparr>le_TimeRange := Some \<lparr>tr_Start = Some (rfc3339 s), tr_End = Some (rfc3339 t)\<rparr>\<rparr>"
  have w: "base_where pr now req = asked_for pr ?cut"
    using assms(4,5) by (auto simp: base_where_def asked_for_def all_events_def opt_all_def parts_say fun_eq_iff split: option.splits)
  note stats = GetEventStats_total(1) [OF assms(1-3)]
  note listed = ListEvents_listed(1) [OF assms(1,6)]
  have frac: "TotalEvents st + length (filter (\<lambda>e. asked_for pr lreq e \<and> rfc3339 t < ev_Time e) (rows db)) = matching"
    if "s mod 1000000 = 0"
  proof -
    have cut: "asked_for pr ?cut e \<longleftrightarrow> asked_for pr lreq e \<and> \<not> rfc3339 t < ev_Time e" for e
      using rfc3339_whole [OF that] rfc3339_le [of t] assms(4,5)
      by (auto simp: asked_for_def all_events_def)
    have "asked_for pr ?cut = (\<lambda>e. asked_for pr lreq e \<and> \<not> rfc3339 t < ev_Time e)" using cut by blast
    with stats listed w length_filter_split [of "asked_for pr lreq" "\<lambda>e. rfc3339 t < ev_Time e" "rows db"]
    show ?thesis by simp
  qed
  moreover have "TotalEvents st = matching" if "s mod 1000000 = 0" "t mod 1000000 = 0"
  proof -
    have "filter (\<lambda>e. asked_for pr lreq e \<and> rfc3339 t < ev_Time e) (rows db) = []"
      using rfc3339_whole [OF that(2)] assms(4,5) by (auto simp: filter_empty_conv asked_for_def)
    with frac [OF that(1)] show ?thesis by simp
  qed
  ultimately show ?thesis using stats w by simp
qed

theorem statistics_count_whole_seconds_witness:
  "\<exists>st es. GetEventStats (\<lambda>_. []) 0 list_db \<lparr>gs_TimeRange = Some \<lparr>tr_Start = Some 0, tr_End = Some 2500000\<rparr>, gs_ProtectionId = None,
        gs_IncludePerProtection = None\<rparr> [client_event 1000000 ''a'', client_event 2200000 ''b''] = Inr st
    \<and> ListEvents (\<lambda>_. []) list_db (all_events\<lparr>le_TimeRange := Some \<lparr>tr_Start = Some 0, tr_End = Some 2500000\<rparr>\<rparr>)
        [client_event 1000000 ''a'', client_event 2200000 ''b''] = Inr (es, 2)
    \<and> TotalEvents st = 1"
proof -
  let ?db = "[client_event 1000000 ''a'', client_event 2200000 ''b'']"
  let ?req = "\<lparr>gs_TimeRange = Some \<lparr>tr_Start = Some 0, tr_End = Some 2500000\<rparr>, gs_ProtectionId = None, gs_IncludePerProtection = None\<rparr>"
  let ?lreq = "all_events\<lparr>le_TimeRange := Some \<lparr>tr_Start = Some 0, tr_End = Some 2500000\<rparr>\<rparr>"
  obtain st where st: "GetEventStats (\<lambda>_. []) 0 list_db ?req ?db = Inr st" using GetEventStats_never_fails [of "\<lambda>_. []" 0 list_db ?req ?db] by auto
  obtain es where es: "ListEvents (\<lambda>_. []) list_db ?lreq ?db = Inr (es, 2)"
    by (simp add: ListEvents_def list_db_def Let_def selects_list_query asked_for_def all_events_def client_event_def)
  obtain totals where "q_totals list_db (base_where (\<lambda>_. []) 0 ?req) ev_blocked (ev_client (\<lambda>_. [])) ?db = Inr totals"
    by (simp add: list_db_def)
  from statistics_count_whole_seconds [OF list_db_ok st this, of 0 2500000 ?lreq es 2] es
  have "TotalEvents st + length (filter (\<lambda>e. asked_for (\<lambda>_. []) ?lreq e \<and> rfc3339 2500000 < ev_Time e) ?db) = 2"
    by (simp add: all_events_def)
  then have "TotalEvents st = 1" by (simp add: asked_for_def all_events_def client_event_def rfc3339_def)
  with st es show ?thesis by blast
qed

section \<open>Groups\<close>

lemma sum_counts_of_groups:
  "finite V \<Longrightarrow> key ` set es \<subseteq> V \<Longrightarrow>
    (\<Sum>v\<in>V. if Q v then length (filter (\<lambda>e. key e = v) es) else 0) = length (filter (\<lambda>e. Q (key e)) es)"
proof (induction es)
  case (Cons e es)
  have "(\<Sum>v\<in>V. if Q v then length (filter (\<lambda>x. key x = v) (e # es)) else 0)
      = (\<Sum>v\<in>V. (if v = key e then if Q v then 1 else 0 else 0) + (if Q v then length (filter (\<lambda>x. key x = v) es) else 0))"
    by (intro sum.cong) auto
  also have "\<dots> = (if Q (key e) then 1 else 0) + length (filter (\<lambda>x. Q (key x)) es)"
    using Cons by (simp add: sum.distrib sum.delta)
  finally show ?case by simp
qed simp

lemma sum_list_mset_cong: "mset xs = mset ys \<Longrightarrow> sum_list (map f xs) = sum_list (map (f :: 'a \<Rightarrow> nat) ys)"
  by (simp flip: sum_mset_sum_list)

lemma sum_group_counts:
  assumes "mset gs = mset (group_counts B key es)"
  shows "sum_list (map (\<lambda>(v, n, b). if Q v then n else 0) gs) = length (filter (\<lambda>e. Q (key e)) es)"
proof -
  have "sum_list (map (\<lambda>(v, n, b). if Q v then n else 0) gs) = sum_list (map (\<lambda>(v, n, b). if Q v then n else 0) (group_counts B key es))"
    using assms by (rule sum_list_mset_cong)
  also have "\<dots> = sum_list (map (\<lambda>v. if Q v then length (filter (\<lambda>e. key e = v) es) else 0) (remdups (map key es)))"
    by (simp add: group_counts_def o_def)
  also have "\<dots> = (\<Sum>v\<in>key ` set es. if Q v then length (filter (\<lambda>e. key e = v) es) else 0)"
    by (simp add: sum_list_distinct_conv_sum_set)
  also have "\<dots> = length (filter (\<lambda>e. Q (key e)) es)" by (rule sum_counts_of_groups) auto
  finally show ?thesis .
qed

lemma in_group_counts:
  "(v, n, b) \<in> set (group_counts B key es) \<longleftrightarrow> v \<in> key ` set es \<and> n = length (filter (\<lambda>e. key e = v) es)
     \<and> b = length (filter (\<lambda>e. key e = v \<and> B e) es)"
  by (auto simp: group_counts_def)

text \<open>
  The severities add up: the numbers of the listed severities and the number of events without one make
  the total; no more events are counted as blocked than there are, and no more addresses.
\<close>

theorem severities_add_up:
  assumes "event_db_ok repo rows" and "GetEventStats pr now repo req db = Inr st"
    and "q_totals repo (base_where pr now req) ev_blocked (ev_client pr) db = Inr totals"
    and "q_groups repo (base_where pr now req) ev_blocked (ev_severity pr) None db = Inr gs"
  shows "sum_list (map snd (BySeverity st))
      + length (filter (\<lambda>e. base_where pr now req e \<and> ev_severity pr e \<in> {None, Some []}) (rows db)) = TotalEvents st
    \<and> BlockedAttacks st \<le> TotalEvents st \<and> UniqueIps st \<le> TotalEvents st"
proof -
  let ?w = "filter (base_where pr now req) (rows db)"
  let ?Q = "\<lambda>v. v \<notin> {None, Some []}"
  note total = GetEventStats_total [OF assms(1-3)]
  from query_laws(4) [OF assms(1,4)] have gs: "mset gs = mset (group_counts ev_blocked (ev_severity pr) ?w)" by auto
  have "BySeverity st = [(k, n). (k, n, b) \<leftarrow> map (\<lambda>(k, n, b). (case k of None \<Rightarrow> [] | Some s \<Rightarrow> s, n, b)) gs, k \<noteq> []]"
    using assms(2,4) by (auto simp: GetEventStats_def Let_def scanned_groups_def scanned_def split: prod.splits)
  moreover have "sum_list (map snd [(k, n). (k, n, b) \<leftarrow> map (\<lambda>(k, n, b). (case k of None \<Rightarrow> [] | Some s \<Rightarrow> s, n, b)) gs, k \<noteq> []])
      = sum_list (map (\<lambda>(v, n, b). if ?Q v then n else 0) gs)" by (induction gs) (auto split: option.splits)
  ultimately have sev: "sum_list (map snd (BySeverity st)) = length (filter (\<lambda>e. ?Q (ev_severity pr e)) ?w)"
    using sum_group_counts [OF gs, of ?Q] by simp
  have "length (filter (\<lambda>e. base_where pr now req e \<and> ?Q (ev_severity pr e)) (rows db))
      + length (filter (\<lambda>e. base_where pr now req e \<and> ev_severity pr e \<in> {None, Some []}) (rows db)) = length ?w"
    by (rule length_filter_split)
  then have "sum_list (map snd (BySeverity st))
      + length (filter (\<lambda>e. base_where pr now req e \<and> ev_severity pr e \<in> {None, Some []}) (rows db)) = TotalEvents st"
    using sev total(1) by (simp only: filter_filter conj_commute)
  moreover have "length (filter (\<lambda>e. base_where pr now req e \<and> ev_blocked e) (rows db)) \<le> length ?w"
    by (metis filter_filter length_filter_le)
  moreover have "card {v. \<exists>e \<in> set (rows db). base_where pr now req e \<and> ev_client pr e = Some v} \<le> length ?w"
  proof -
    have "{v. \<exists>e \<in> set (rows db). base_where pr now req e \<and> ev_client pr e = Some v} \<subseteq> (\<lambda>e. the (ev_client pr e)) ` set ?w" by force
    then show ?thesis by (meson List.finite_set card_image_le card_length card_mono finite_imageI le_trans)
  qed
  ultimately show ?thesis using total by (simp add: conj_commute)
qed

definition rule_event :: "int \<Rightarrow> string \<Rightarrow> event" where
  "rule_event t rule = \<lparr>ev_Tag = ''waf'', ev_Time = t, ev_Data = JObject [(''transaction'', JObject [(''messages'',
     JArray [JObject [(''details'', JObject [(''ruleId'', JString rule), (''severity'', JString ''2'')])]])])]\<rparr>"

definition whole_day :: GetEventStatsRequest where
  "whole_day = \<lparr>gs_TimeRange = None, gs_ProtectionId = None, gs_IncludePerProtection = None\<rparr>"

lemma rule_event_parts:
  "ev_rule pr (rule_event t r) = Some r" "ev_severity pr (rule_event t r) = Some ''2''" "ev_severity pr (client_event t ip) = None"
  "ev_rule pr (client_event t ip) = None" "ev_Time (rule_event t r) = t"
  by (simp_all add: ev_rule_def ev_severity_def ev_details_def ev_transaction_def json_text_def json_get_def json_nth_def
      rule_event_def client_event_def)

lemma whole_day_where: "base_where pr 100 whole_day e \<longleftrightarrow> - 86399999900 < ev_Time e"
  by (simp add: base_where_def whole_day_def opt_all_def)

theorem severities_add_up_witness:
  "\<exists>st. GetEventStats (\<lambda>_. []) 100 list_db whole_day [rule_event 1 ''941100'', client_event 2 ''a'', rule_event 3 ''949110''] = Inr st
    \<and> TotalEvents st = 3 \<and> sum_list (map snd (BySeverity st)) = 2"
proof -
  let ?db = "[rule_event 1 ''941100'', client_event 2 ''a'', rule_event 3 ''949110'']"
  obtain st where st: "GetEventStats (\<lambda>_. []) 100 list_db whole_day ?db = Inr st"
    using GetEventStats_never_fails [of "\<lambda>_. []" 100 list_db whole_day ?db] by auto
  obtain totals gs where q: "q_totals list_db (base_where (\<lambda>_. []) 100 whole_day) ev_blocked (ev_client (\<lambda>_. [])) ?db = Inr totals"
      "q_groups list_db (base_where (\<lambda>_. []) 100 whole_day) ev_blocked (ev_severity (\<lambda>_. [])) None ?db = Inr gs"
    by (simp add: list_db_def)
  have t: "- 86399999900 < ev_Time (rule_event 1 r)" "- 86399999900 < ev_Time (rule_event 3 r)" "- 86399999900 < ev_Time (client_event 2 ip)" for r ip
    by (simp_all add: rule_event_def client_event_def)
  from GetEventStats_total(1) [OF list_db_ok st q(1)] t have n: "TotalEvents st = 3" by (simp add: whole_day_where)
  with severities_add_up [OF list_db_ok st q] t have "sum_list (map snd (BySeverity st)) = 2"
    by (simp add: whole_day_where rule_event_parts)
  with n st show ?thesis by blast
qed

lemma distinct_group_counts: "distinct (map fst (group_counts B key es))"
  by (simp add: group_counts_def o_def)

text \<open>
  A list of at most \<open>m\<close> values with their numbers: each once and with the right number, and none that is left
  out has a larger number than any of the \<open>m\<close> that are given.
\<close>

definition most_frequent :: "(string \<Rightarrow> nat) \<Rightarrow> nat \<Rightarrow> (string \<times> nat) list \<Rightarrow> bool" where
  "most_frequent N m tops \<longleftrightarrow> length tops \<le> m \<and> distinct (map fst tops) \<and> (\<forall>(r, n) \<in> set tops. n = N r)
     \<and> (\<forall>r. 0 < N r \<longrightarrow> r \<notin> fst ` set tops \<longrightarrow> length tops = m \<and> (\<forall>(r', n) \<in> set tops. N r \<le> n))"

text \<open>If there are no more values than the list may have, all are given.\<close>

lemma most_frequent_complete:
  assumes "most_frequent N m tops" and "finite A" and "card A \<le> m" and "\<forall>r. 0 < N r \<longrightarrow> r \<in> A" and "0 < N r"
  shows "(r, N r) \<in> set tops"
proof -
  have "r \<in> fst ` set tops"
  proof (rule ccontr)
    assume no: "r \<notin> fst ` set tops"
    with assms(1,5) have l: "length tops = m" "\<forall>(r', n) \<in> set tops. N r \<le> n" "\<forall>(r', n) \<in> set tops. n = N r'"
      unfolding most_frequent_def by blast+
    have "r' \<in> A" if "(r', n) \<in> set tops" for r' n using that l(2,3) assms(4,5) by fastforce
    with no assms(4,5) have "insert r (set (map fst tops)) \<subseteq> A" by auto
    then have "card (insert r (set (map fst tops))) \<le> card A" by (rule card_mono [OF assms(2)])
    moreover have "card (set (map fst tops)) = m" using assms(1) l(1) unfolding most_frequent_def by (metis distinct_card length_map)
    ultimately show False using no assms(3) by simp
  qed
  with assms(1) show ?thesis unfolding most_frequent_def by fastforce
qed

lemma group_entry:
  assumes "mset os = mset (group_counts B key es)" and "\<forall>e \<in> set es. key e \<noteq> None" and "(v, n, b) \<in> set os"
  shows "\<exists>r. v = Some r \<and> n = length (filter (\<lambda>e. key e = Some r) es)"
proof -
  have "set os = set (group_counts B key es)" using assms(1) by (metis set_mset_mset)
  with assms(2,3) show ?thesis by (auto simp: in_group_counts)
qed

lemma group_listed:
  assumes "mset os = mset (group_counts B key es)" and "0 < length (filter (\<lambda>e. key e = Some r) es)"
  shows "\<exists>b. (Some r, length (filter (\<lambda>e. key e = Some r) es), b) \<in> set os"
proof -
  have "set os = set (group_counts B key es)" using assms(1) by (metis set_mset_mset)
  moreover from assms(2) obtain e where "e \<in> set es" "key e = Some r" by (auto simp: filter_empty_conv)
  ultimately show ?thesis by (auto simp: in_group_counts intro: rev_image_eqI)
qed

lemma top_groups:
  assumes os: "mset os = mset (group_counts B key es)" "sorted_wrt (\<lambda>a b. fst (snd b) \<le> fst (snd a)) os"
    and key: "\<forall>e \<in> set es. key e \<noteq> None"
  shows "most_frequent (\<lambda>r. length (filter (\<lambda>e. key e = Some r) es)) m
    (map (\<lambda>(k, n, b). (case k of None \<Rightarrow> [] | Some s \<Rightarrow> s, n)) (take m os))"
proof -
  let ?N = "\<lambda>r. length (filter (\<lambda>e. key e = Some r) es)" and ?val = "\<lambda>k. case k of None \<Rightarrow> [] | Some s \<Rightarrow> s"
  let ?tops = "map (\<lambda>(k, n, b). (?val k, n)) (take m os)"
  note entry = group_entry [OF os(1) key]
  have "mset (map fst os) = mset (map fst (group_counts B key es))" using os(1) by (simp only: mset_map)
  from mset_eq_imp_distinct_iff [OF this] distinct_group_counts have dist: "distinct (map fst os)" by blast
  have "v \<noteq> None" if "v \<in> fst ` set os" for v using that entry by force
  then have "inj_on ?val (fst ` set os)" by (intro inj_onI) (auto split: option.splits)
  moreover have "set (take m (map fst os)) \<subseteq> fst ` set os" by (auto dest: in_set_takeD)
  ultimately have "inj_on ?val (set (take m (map fst os)))" by (rule inj_on_subset)
  with dist have "distinct (map ?val (take m (map fst os)))" by (simp add: distinct_map)
  then have d: "distinct (map fst ?tops)" by (simp add: take_map o_def case_prod_unfold)
  have c: "\<forall>(r, n) \<in> set ?tops. n = ?N r" using entry by (fastforce dest: in_set_takeD)
  have l: "length ?tops = m \<and> (\<forall>(r', n) \<in> set ?tops. ?N r \<le> n)" if r: "0 < ?N r" "r \<notin> fst ` set ?tops" for r
  proof -
    from group_listed [OF os(1) r(1)] obtain b where in_os: "(Some r, ?N r, b) \<in> set os" by blast
    moreover have "(Some r, ?N r, b) \<notin> set (take m os)" using r(2) by force
    ultimately have in_drop: "(Some r, ?N r, b) \<in> set (drop m os)" by (metis Un_iff append_take_drop_id set_append)
    then have "m < length os" by (metis drop_all empty_iff leI list.set(1))
    moreover have "sorted_wrt (\<lambda>a b. fst (snd b) \<le> fst (snd a)) (take m os @ drop m os)" using os(2) by simp
    then have "?N r \<le> n" if "(v, n, b') \<in> set (take m os)" for v n b'
      using that in_drop unfolding sorted_wrt_append by fastforce
    ultimately show ?thesis by auto
  qed
  have "length ?tops \<le> m" by simp
  with d c l show ?thesis unfolding most_frequent_def by blast
qed

text \<open>
  The rules and the clients that are reported most often: ten of them at most, each once and with the number of
  its events in the window, and none that is left out has more than those that are given.
\<close>

theorem top_rules_are_the_most_frequent:
  assumes "event_db_ok repo rows" and "GetEventStats pr now repo req db = Inr st"
    and "q_groups repo (\<lambda>e. base_where pr now req e \<and> ev_rule pr e \<noteq> None) ev_blocked (ev_rule pr) (Some 10) db = Inr gs"
    and "q_groups repo (\<lambda>e. base_where pr now req e \<and> ev_client pr e \<noteq> None) ev_blocked (ev_client pr) (Some 10) db = Inr gs'"
  shows "most_frequent (\<lambda>r. length (filter (\<lambda>e. base_where pr now req e \<and> ev_rule pr e = Some r) (rows db))) 10 (TopRules st)
    \<and> most_frequent (\<lambda>ip. length (filter (\<lambda>e. base_where pr now req e \<and> ev_client pr e = Some ip) (rows db))) 10 (TopIps st)"
proof -
  have top: "most_frequent (\<lambda>r. length (filter (\<lambda>e. base_where pr now req e \<and> key e = Some r) (rows db))) 10
      (map (\<lambda>(k, n, b). (case k of None \<Rightarrow> [] | Some s \<Rightarrow> s, n)) g)"
    if g: "q_groups repo (\<lambda>e. base_where pr now req e \<and> key e \<noteq> None) ev_blocked key (Some 10) db = Inr g" for key g
  proof -
    let ?w = "filter (\<lambda>e. base_where pr now req e \<and> key e \<noteq> None) (rows db)"
    from query_laws(4) [OF assms(1) g] obtain os where os: "mset os = mset (group_counts ev_blocked key ?w)"
        "sorted_wrt (\<lambda>a b. fst (snd b) \<le> fst (snd a)) os" "g = take 10 os" by auto
    have "filter (\<lambda>e. key e = Some r) ?w = filter (\<lambda>e. base_where pr now req e \<and> key e = Some r) (rows db)" for r
      by (auto simp: filter_filter intro: filter_cong)
    with top_groups [OF os(1,2), of 10] os(3) show ?thesis by simp
  qed
  have "TopRules st = map (\<lambda>(k, n, b). (case k of None \<Rightarrow> [] | Some s \<Rightarrow> s, n)) gs"
      "TopIps st = map (\<lambda>(k, n, b). (case k of None \<Rightarrow> [] | Some s \<Rightarrow> s, n)) gs'"
    using assms(2) unfolding GetEventStats_def Let_def assms(3,4)
    by (auto simp: scanned_groups_def scanned_def split: prod.splits)
  with top [OF assms(3)] top [OF assms(4)] show ?thesis by simp
qed

theorem top_rules_are_the_most_frequent_witness:
  "\<exists>st. GetEventStats (\<lambda>_. []) 100 list_db whole_day [rule_event 1 ''941100'', rule_event 2 ''949110'', rule_event 3 ''949110''] = Inr st
    \<and> (''949110'', 2) \<in> set (TopRules st)"
proof -
  let ?db = "[rule_event 1 ''941100'', rule_event 2 ''949110'', rule_event 3 ''949110'']"
  let ?N = "\<lambda>r. length (filter (\<lambda>e. base_where (\<lambda>_. []) 100 whole_day e \<and> ev_rule (\<lambda>_. []) e = Some r) ?db)"
  obtain st where st: "GetEventStats (\<lambda>_. []) 100 list_db whole_day ?db = Inr st"
    using GetEventStats_never_fails [of "\<lambda>_. []" 100 list_db whole_day ?db] by auto
  obtain gs gs' where q: "q_groups list_db (\<lambda>e. base_where (\<lambda>_. []) 100 whole_day e \<and> ev_rule (\<lambda>_. []) e \<noteq> None) ev_blocked (ev_rule (\<lambda>_. [])) (Some 10) ?db = Inr gs"
      "q_groups list_db (\<lambda>e. base_where (\<lambda>_. []) 100 whole_day e \<and> ev_client (\<lambda>_. []) e \<noteq> None) ev_blocked (ev_client (\<lambda>_. [])) (Some 10) ?db = Inr gs'"
    by (simp add: list_db_def Let_def)
  from top_rules_are_the_most_frequent [OF list_db_ok st q] have mf: "most_frequent ?N 10 (TopRules st)" by blast
  have n: "?N ''949110'' = 2" "\<forall>r. 0 < ?N r \<longrightarrow> r \<in> {''941100'', ''949110''}"
    by (auto simp: whole_day_where rule_event_parts split: if_splits)
  have "(''949110'', ?N ''949110'') \<in> set (TopRules st)"
    by (rule most_frequent_complete [OF mf _ _ n(2)]) (simp_all add: card_insert_if whole_day_where rule_event_parts)
  then have "(''949110'', 2) \<in> set (TopRules st)" by (simp only: n(1))
  with st show ?thesis by blast
qed

end
