(* ===== verification/Discovery.thy ===== *)
theory Discovery
  imports Wafie_Api
begin

text \<open>
  A model of the discovery agent: the normalisation of Kubernetes ingress objects into route requests
  (\<^verbatim>\<open>discovery/pkg/discovery/ingress\<close>) and the synchronisation of endpoint addresses
  (\<^verbatim>\<open>discovery/pkg/discovery/endpointslice/cache.go\<close>).  The Kubernetes API is a parameter; its objects are
  records with the fields that the code reads, pointers being options.  The lemmas show what a
  successful normalisation delivers, how failures are reported, and which services are synchronised.
\<close>

section \<open>Kubernetes objects\<close>

record ObjectReference =
  ref_Kind :: string
  ref_Name :: string
  ref_Namespace :: string

record SliceEndpoint =
  Addresses :: "string list"
  sep_NodeName :: "string option"
  TargetRef :: "ObjectReference option"

record EndpointSlice =
  slice_Service :: string  \<comment> \<open>the label \<open>kubernetes.io/service-name\<close>\<close>
  slice_Namespace :: string
  slice_Endpoints :: "SliceEndpoint list"
  slice_Ports :: "(string option \<times> 32 word option) list"  \<comment> \<open>names and numbers\<close>

record ServicePort =
  sp_Name :: string
  sp_Port :: "32 word"
  TargetPort_IntVal :: "32 word"
  TargetPort_StrVal :: string

record ServiceBackend =
  sb_Name :: string
  sb_PortNumber :: "32 word"
  sb_PortName :: string

record HttpPath =
  hp_Path :: string
  hp_Service :: "ServiceBackend option"

record IngressRule =
  rule_Host :: string
  rule_HTTP :: "HttpPath list option"

record K8sIngress =
  k_Name :: string
  k_Namespace :: string
  k_Rules :: "IngressRule list"
  k_TLS :: bool  \<comment> \<open>whether the field is set\<close>

text \<open>
  The API: decoding of an unstructured object, the ports of a service, and the endpoint slices with a
  label, each with an error text on failure.
\<close>

record 'o k8s_api =
  FromUnstructured :: "'o \<Rightarrow> string + K8sIngress"
  getSvc :: "string \<Rightarrow> string \<Rightarrow> string + ServicePort list"
  listEndpointSlices :: "string \<Rightarrow> string \<Rightarrow> string + EndpointSlice list"  \<comment> \<open>namespace and label selector\<close>

section \<open>Discovery of ports and endpoints\<close>

definition getEndpointSliceBySvcName :: "'o k8s_api \<Rightarrow> string \<Rightarrow> string \<Rightarrow> string + EndpointSlice" where
  "getEndpointSliceBySvcName api svcName ns =
     bind_res (listEndpointSlices api ns (''kubernetes.io/service-name='' @ svcName)) (\<lambda>items. case items of
       [] \<Rightarrow> Inl (''no endpointslice found for service '' @ svcName) | sl # _ \<Rightarrow> Inr sl)"

definition getSvcPortNumberBySvcPortName :: "'o k8s_api \<Rightarrow> string \<Rightarrow> string \<Rightarrow> string \<Rightarrow> string + 32 word" where
  "getSvcPortNumberBySvcPortName api portName svcName ns =
     bind_res (getSvc api svcName ns) (\<lambda>ports. Inr (case find (\<lambda>p. sp_Name p = portName) ports of
        None \<Rightarrow> 0 | Some p \<Rightarrow> sp_Port p))"

text \<open>The search in the ports of a slice; \<open>None\<close>: no port matches.\<close>

fun slice_port :: "32 word \<Rightarrow> string \<Rightarrow> (string option \<times> 32 word option) list \<Rightarrow> (32 word \<times> string) option res" where
  "slice_port num name [] = Inr None"
| "slice_port num name ((pname, pnum) # ports) =
     bind_res (deref pnum) (\<lambda>n.
       if n = num then bind_res (deref pname) (\<lambda>s. Inr (Some (n, s)))
       else bind_res (deref pname) (\<lambda>s. if s = name then Inr (Some (n, s)) else slice_port num name ports))"

definition port_matches :: "32 word \<Rightarrow> string \<Rightarrow> ServicePort \<Rightarrow> bool" where
  "port_matches num name p \<longleftrightarrow> sp_Name p = name \<or> sp_Port p = num"

fun container_port :: "'o k8s_api \<Rightarrow> 32 word \<Rightarrow> string \<Rightarrow> string \<Rightarrow> string \<Rightarrow> ServicePort list \<Rightarrow> (32 word \<times> string) eres" where
  "container_port api num name svcName ns [] = Inr (Inl (''can not find container port for service: '' @ svcName))"
| "container_port api num name svcName ns (p # ps) =
     (if port_matches num name p \<and> TargetPort_IntVal p \<noteq> 0 then Inr (Inr (TargetPort_IntVal p, []))
      else if port_matches num name p \<and> TargetPort_StrVal p \<noteq> [] then
        (case getEndpointSliceBySvcName api svcName ns of
           Inl e \<Rightarrow> Inr (Inl e)
         | Inr sl \<Rightarrow> bind_res (slice_port num name (slice_Ports sl)) (\<lambda>found. case found of
             Some r \<Rightarrow> Inr (Inr r) | None \<Rightarrow> container_port api num name svcName ns ps))
      else container_port api num name svcName ns ps)"

definition getContainerPortBySvcPort :: "'o k8s_api \<Rightarrow> 32 word \<Rightarrow> string \<Rightarrow> string \<Rightarrow> string \<Rightarrow> (32 word \<times> string) eres" where
  "getContainerPortBySvcPort api num name svcName ns = (case getSvc api svcName ns of
     Inl e \<Rightarrow> Inr (Inl e) | Inr ports \<Rightarrow> container_port api num name svcName ns ports)"

text \<open>An endpoint without addresses leaves a nil element.\<close>

definition slice_endpoint :: "SliceEndpoint \<Rightarrow> Endpoint option res" where
  "slice_endpoint ep = (case Addresses ep of [] \<Rightarrow> Inr None | ip # _ \<Rightarrow>
     bind_res (deref (sep_NodeName ep)) (\<lambda>node. bind_res (deref (TargetRef ep)) (\<lambda>ref.
       Inr (Some \<lparr>Ip = ip, NodeName = node, ep_Kind = ref_Kind ref, ep_Name = ref_Name ref, ep_Namespace = ref_Namespace ref\<rparr>))))"

definition slice_endpoints :: "SliceEndpoint list \<Rightarrow> Endpoint option list res" where
  "slice_endpoints eps = fold_res (\<lambda>acc ep. bind_res (slice_endpoint ep) (\<lambda>e. Inr (acc @ [e]))) [] eps"

definition discoverEndpoints :: "'o k8s_api \<Rightarrow> string \<Rightarrow> string \<Rightarrow> Endpoint option list eres" where
  "discoverEndpoints api svcName ns = (case getEndpointSliceBySvcName api svcName ns of
     Inl e \<Rightarrow> Inr (Inl e) | Inr sl \<Rightarrow> bind_res (slice_endpoints (slice_Endpoints sl)) (\<lambda>eps. Inr (Inr eps)))"

section \<open>The ingress normaliser\<close>

record CreateRouteRequest =
  cr_Ingress :: Ingress
  cr_SvcFqdn :: string
  cr_Endpoints :: "Endpoint option list"
  cr_Ports :: "Port list"

definition empty_ingress :: Ingress where
  "empty_ingress = \<lparr>ing_Name = [], ing_Namespace = [], ing_Host = [], ing_Port = 0, ing_Path = [], ing_ApplicationId = 0,
     ing_Type = INGRESS_TYPE_UNSPECIFIED, ing_DiscoveryStatus = DISCOVERY_STATUS_TYPE_UNSPECIFIED,
     ing_DiscoveryMessage = [], ing_Upstream = None, ing_Scheme = []\<rparr>"

definition normalizedWithError :: "CreateRouteRequest \<Rightarrow> string \<Rightarrow> CreateRouteRequest option \<times> string option" where
  "normalizedWithError req err =
     (Some (req\<lparr>cr_Ingress := (cr_Ingress req)\<lparr>ing_DiscoveryStatus := DISCOVERY_STATUS_TYPE_INCOMPLETE,
                                           ing_DiscoveryMessage := err\<rparr>\<rparr>), Some err)"

definition discoverScheme :: "K8sIngress \<Rightarrow> string" where
  "discoverScheme ing = (if k_TLS ing then ''https'' else ''http'')"

definition enabled_port :: "32 word \<Rightarrow> string \<Rightarrow> PortType \<Rightarrow> Port" where
  "enabled_port num name t = \<lparr>Number = num, port_Name = name, ProxyListeningPort = 0, port_Description = [],
     port_Status = PORT_STATUS_TYPE_ENABLED, PortType = t\<rparr>"

definition discoverSvcPorts :: "'o k8s_api \<Rightarrow> string \<Rightarrow> ServiceBackend \<Rightarrow> string + Port" where
  "discoverSvcPorts api ns b =
     (if sb_PortNumber b \<noteq> 0 then Inr (enabled_port (sb_PortNumber b) (sb_PortName b) PORT_TYPE_SVC_PORT)
      else bind_res (getSvcPortNumberBySvcPortName api (sb_PortName b) (sb_Name b) ns) (\<lambda>port.
        Inr (enabled_port port (sb_PortName b) PORT_TYPE_SVC_PORT)))"

definition discoverContainerPorts :: "'o k8s_api \<Rightarrow> string \<Rightarrow> ServiceBackend \<Rightarrow> Port eres" where
  "discoverContainerPorts api ns b =
     bind_e (getContainerPortBySvcPort api (sb_PortNumber b) (sb_PortName b) (sb_Name b) ns) (\<lambda>(num, name).
       Inr (Inr (enabled_port num name PORT_TYPE_CONTAINER_PORT)))"

text \<open>The request as far as it can be filled without the API.\<close>

definition route_request :: "K8sIngress \<Rightarrow> IngressRule \<Rightarrow> HttpPath \<Rightarrow> ServiceBackend \<Rightarrow> CreateRouteRequest" where
  "route_request k rule path b = \<lparr>
     cr_Ingress = empty_ingress\<lparr>ing_Name := k_Name k, ing_Namespace := k_Namespace k, ing_Port := 80,
       ing_Path := hp_Path path, ing_Host := rule_Host rule, ing_Scheme := discoverScheme k,
       ing_Type := INGRESS_TYPE_NGINX, ing_DiscoveryStatus := DISCOVERY_STATUS_TYPE_SUCCESS\<rparr>,
     cr_SvcFqdn = sb_Name b @ ''.'' @ k_Namespace k @ ''.svc'', cr_Endpoints = [], cr_Ports = []\<rparr>"

definition normalize_route ::
    "'o k8s_api \<Rightarrow> K8sIngress \<Rightarrow> ServiceBackend \<Rightarrow> CreateRouteRequest \<Rightarrow> (CreateRouteRequest option \<times> string option) res" where
  "normalize_route api k b req = (case discoverSvcPorts api (k_Namespace k) b of
     Inl e \<Rightarrow> Inr (normalizedWithError req e)
   | Inr svcPort \<Rightarrow> (let req = req\<lparr>cr_Ports := cr_Ports req @ [svcPort]\<rparr> in
       bind_res (discoverContainerPorts api (k_Namespace k) b) (\<lambda>cp. case cp of
         Inl e \<Rightarrow> Inr (normalizedWithError req e)
       | Inr cPort \<Rightarrow> (let req = req\<lparr>cr_Ports := cr_Ports req @ [cPort]\<rparr> in
           bind_res (discoverEndpoints api (sb_Name b) (k_Namespace k)) (\<lambda>eps. case eps of
             Inl e \<Rightarrow> Inr (normalizedWithError req e)
           | Inr eps \<Rightarrow> Inr (Some (req\<lparr>cr_Endpoints := eps\<rparr>), None))))))"

definition normalize :: "'o k8s_api \<Rightarrow> 'o \<Rightarrow> (CreateRouteRequest option \<times> string option) res" where
  "normalize api obj = (case FromUnstructured api obj of
     Inl e \<Rightarrow> Inr (normalizedWithError \<lparr>cr_Ingress = empty_ingress, cr_SvcFqdn = [], cr_Endpoints = [], cr_Ports = []\<rparr> e)
   | Inr k \<Rightarrow> (case k_Rules k of [] \<Rightarrow> Inr (None, None) | rule # _ \<Rightarrow>
       bind_res (deref (rule_HTTP rule)) (\<lambda>paths. case paths of [] \<Rightarrow> Inr (None, None) | path # _ \<Rightarrow>
         if rule_Host rule = [] then Inr (None, None)
         else bind_res (deref (hp_Service path)) (\<lambda>b. normalize_route api k b (route_request k rule path b)))))"

text \<open>
  The handler of a new or changed object: the requests that it sends, and the errors that it joins.
  \<open>createRoute\<close> is the call of the API server, with an error text on failure.
\<close>

definition createUpstream ::
    "'o k8s_api \<Rightarrow> (CreateRouteRequest \<Rightarrow> string option) \<Rightarrow> 'o \<Rightarrow> (CreateRouteRequest list \<times> string list) res" where
  "createUpstream api createRoute obj = bind_res (normalize api obj) (\<lambda>(r, normalizerErr). case r of
     None \<Rightarrow> Inr ([], [])
   | Some req \<Rightarrow> Inr ([req], map the (filter (\<lambda>e. e \<noteq> None) [normalizerErr, createRoute req])))"

section \<open>Synchronisation of endpoints\<close>

text \<open>
  The loop over the two channels: an endpoint slice or a new list of the known services.  The requests
  that it sends are the output.
\<close>

datatype sync_event = Slice EndpointSlice | Services "string list"

definition svc_fqdn :: "EndpointSlice \<Rightarrow> string" where
  "svc_fqdn eps = slice_Service eps @ ''.'' @ slice_Namespace eps @ ''.svc''"

definition shouldProtect :: "string list \<Rightarrow> string \<Rightarrow> bool" where
  "shouldProtect svcFqdnCache svcName = list_ex (\<lambda>cached. cached = svcName) svcFqdnCache"

text \<open>
  The message of an update: in a list of messages, a nil pointer is sent as an empty message.
\<close>

definition wire_endpoint :: "Endpoint option \<Rightarrow> Endpoint" where
  "wire_endpoint ep = (case ep of Some e \<Rightarrow> e | None \<Rightarrow> \<lparr>Ip = [], NodeName = [], ep_Kind = [], ep_Name = [], ep_Namespace = []\<rparr>)"

definition update_message :: "string \<times> Endpoint option list \<Rightarrow> Upstream" where
  "update_message x = (case x of (svcFqdn, eps) \<Rightarrow> \<lparr>SvcFqdn = svcFqdn, Endpoints = map wire_endpoint eps, Ports = [],
     up_RouteType = UPSTREAM_ROUTE_TYPE_UNSPECIFIED, up_MirrorPolicy = None\<rparr>)"

type_synonym sync_state = "string list \<times> (string \<times> Endpoint option list) list"

fun sync_step :: "sync_state \<Rightarrow> sync_event \<Rightarrow> sync_state res" where
  "sync_step (svcFqdnCache, sent) (Services fqdns) = Inr (fqdns, sent)"
| "sync_step (svcFqdnCache, sent) (Slice eps) =
     (if \<not> shouldProtect svcFqdnCache (svc_fqdn eps) then Inr (svcFqdnCache, sent)
      else bind_res (slice_endpoints (slice_Endpoints eps)) (\<lambda>endpoints.
        Inr (svcFqdnCache, sent @ [(svc_fqdn eps, endpoints)])))"

section \<open>Lemmas\<close>

lemma slice_endpoints_length:
  assumes "slice_endpoints eps = Inr out"
  shows "length out = length eps \<and> (\<forall>i < length eps. slice_endpoint (eps ! i) = Inr (out ! i))"
proof -
  have "length out = length acc + length eps
      \<and> (\<forall>i < length acc. out ! i = acc ! i) \<and> (\<forall>i < length eps. slice_endpoint (eps ! i) = Inr (out ! (length acc + i)))"
    if "fold_res (\<lambda>acc ep. bind_res (slice_endpoint ep) (\<lambda>e. Inr (acc @ [e]))) acc eps = Inr out" for acc
    using that
  proof (induction eps arbitrary: acc)
    case (Cons ep eps)
    then obtain e where e: "slice_endpoint ep = Inr e"
        "fold_res (\<lambda>acc ep. bind_res (slice_endpoint ep) (\<lambda>e. Inr (acc @ [e]))) (acc @ [e]) eps = Inr out"
      by (auto simp: bind_res_eq_Inr_iff)
    note IH = Cons.IH [OF e(2)]
    have "slice_endpoint ((ep # eps) ! i) = Inr (out ! (length acc + i))" if "i < length (ep # eps)" for i
      using that IH e(1) by (cases i) (auto simp: nth_append)
    moreover have "out ! i = acc ! i" if "i < length acc" for i
      using that IH by (auto simp: nth_append)
    ultimately show ?case using IH by simp
  qed simp
  from this [of "[]"] assms show ?thesis by (simp add: slice_endpoints_def)
qed

lemma slice_endpoints_all2: "slice_endpoints eps = Inr out \<Longrightarrow> list_all2 (\<lambda>ep e. slice_endpoint ep = Inr e) eps out"
  using slice_endpoints_length by (auto simp: list_all2_conv_all_nth)

text \<open>
  What discovery is to find, in terms of the objects of the cluster alone.  The service port of a backend is
  the number that the backend gives, or else that of a port of the service with the name that it gives (0
  if there is none).
\<close>

definition svc_port_found :: "'o k8s_api \<Rightarrow> string \<Rightarrow> ServiceBackend \<Rightarrow> Port \<Rightarrow> bool" where
  "svc_port_found api ns b port \<longleftrightarrow> PortType port = PORT_TYPE_SVC_PORT \<and> port_Status port = PORT_STATUS_TYPE_ENABLED
     \<and> port_Name port = sb_PortName b
     \<and> (if sb_PortNumber b \<noteq> 0 then Number port = sb_PortNumber b
        else \<exists>ps. getSvc api (sb_Name b) ns = Inr ps
          \<and> ((\<exists>p \<in> set ps. sp_Name p = sb_PortName b \<and> sp_Port p = Number port)
             \<or> (sb_PortName b \<notin> sp_Name ` set ps \<and> Number port = 0)))"

text \<open>
  The container port belongs to a port of the service with the backend's name or number: it is the target
  number of that port, or, if the target is a name, a port of the first slice of the service, namely one that
  has the number or the name that the backend gives.
\<close>

definition container_port_found :: "'o k8s_api \<Rightarrow> string \<Rightarrow> ServiceBackend \<Rightarrow> Port \<Rightarrow> bool" where
  "container_port_found api ns b port \<longleftrightarrow> PortType port = PORT_TYPE_CONTAINER_PORT \<and> port_Status port = PORT_STATUS_TYPE_ENABLED
     \<and> (\<exists>ps. \<exists>p \<in> set ps. getSvc api (sb_Name b) ns = Inr ps \<and> (sp_Name p = sb_PortName b \<or> sp_Port p = sb_PortNumber b)
          \<and> ((TargetPort_IntVal p \<noteq> 0 \<and> Number port = TargetPort_IntVal p \<and> port_Name port = [])
             \<or> (TargetPort_IntVal p = 0 \<and> TargetPort_StrVal p \<noteq> []
                \<and> (\<exists>sl sls. listEndpointSlices api ns (''kubernetes.io/service-name='' @ sb_Name b) = Inr (sl # sls)
                     \<and> (Some (port_Name port), Some (Number port)) \<in> set (slice_Ports sl)
                     \<and> (Number port = sb_PortNumber b \<or> port_Name port = sb_PortName b)))))"

text \<open>The element for an endpoint of a slice: its first address, its node and what it belongs to.\<close>

definition endpoint_found :: "SliceEndpoint \<Rightarrow> Endpoint option \<Rightarrow> bool" where
  "endpoint_found ep e \<longleftrightarrow> (Addresses ep = [] \<and> e = None)
     \<or> (\<exists>ip more node kind name ns. Addresses ep = ip # more \<and> sep_NodeName ep = Some node
          \<and> TargetRef ep = Some \<lparr>ref_Kind = kind, ref_Name = name, ref_Namespace = ns\<rparr>
          \<and> e = Some \<lparr>Ip = ip, NodeName = node, ep_Kind = kind, ep_Name = name, ep_Namespace = ns\<rparr>)"

text \<open>
  Which part of an object a request is about: the backend of the first path of its first rule, which
  has a host.
\<close>

definition requested_backend :: "K8sIngress \<Rightarrow> CreateRouteRequest \<Rightarrow> ServiceBackend \<Rightarrow> bool" where
  "requested_backend k req b \<longleftrightarrow> (\<exists>rule rules path paths. k_Rules k = rule # rules
     \<and> rule_HTTP rule = Some (path # paths) \<and> rule_Host rule \<noteq> [] \<and> hp_Service path = Some b
     \<and> ing_Host (cr_Ingress req) = rule_Host rule \<and> ing_Path (cr_Ingress req) = hp_Path path)
     \<and> ing_Name (cr_Ingress req) = k_Name k \<and> ing_Namespace (cr_Ingress req) = k_Namespace k
     \<and> ing_Port (cr_Ingress req) = 80 \<and> ing_Type (cr_Ingress req) = INGRESS_TYPE_NGINX
     \<and> ing_Scheme (cr_Ingress req) = (if k_TLS k then ''https'' else ''http'')
     \<and> cr_SvcFqdn req = sb_Name b @ ''.'' @ k_Namespace k @ ''.svc''"

text \<open>A completely discovered route.\<close>

definition discovered :: "'o k8s_api \<Rightarrow> K8sIngress \<Rightarrow> CreateRouteRequest \<Rightarrow> bool" where
  "discovered api k req \<longleftrightarrow> ing_DiscoveryStatus (cr_Ingress req) = DISCOVERY_STATUS_TYPE_SUCCESS
     \<and> (\<exists>b svc cont sl sls. requested_backend k req b \<and> cr_Ports req = [svc, cont]
          \<and> svc_port_found api (k_Namespace k) b svc \<and> container_port_found api (k_Namespace k) b cont
          \<and> listEndpointSlices api (k_Namespace k) (''kubernetes.io/service-name='' @ sb_Name b) = Inr (sl # sls)
          \<and> list_all2 endpoint_found (slice_Endpoints sl) (cr_Endpoints req))"

text \<open>The errors of a discovery: those of the two queries, and that nothing was found.\<close>

definition discovery_error :: "'o k8s_api \<Rightarrow> string \<Rightarrow> string \<Rightarrow> string \<Rightarrow> bool" where
  "discovery_error api ns svc e \<longleftrightarrow> getSvc api svc ns = Inl e
     \<or> listEndpointSlices api ns (''kubernetes.io/service-name='' @ svc) = Inl e
     \<or> (listEndpointSlices api ns (''kubernetes.io/service-name='' @ svc) = Inr [] \<and> e = ''no endpointslice found for service '' @ svc)
     \<or> e = ''can not find container port for service: '' @ svc"

text \<open>An object that is skipped: no rule, or a first rule without paths or without host.\<close>

definition skipped :: "K8sIngress \<Rightarrow> bool" where
  "skipped k \<longleftrightarrow> k_Rules k = []
     \<or> (\<exists>rule rules. k_Rules k = rule # rules
          \<and> (rule_HTTP rule = Some [] \<or> (\<exists>paths. rule_HTTP rule = Some paths \<and> rule_Host rule = [])))"

lemma getEndpointSliceBySvcName_Inr:
  "getEndpointSliceBySvcName api svc ns = Inr sl \<longleftrightarrow>
     (\<exists>sls. listEndpointSlices api ns (''kubernetes.io/service-name='' @ svc) = Inr (sl # sls))"
  by (cases "listEndpointSlices api ns (''kubernetes.io/service-name='' @ svc)")
    (simp_all add: getEndpointSliceBySvcName_def split: list.splits)

lemma getEndpointSliceBySvcName_Inl: "getEndpointSliceBySvcName api svc ns = Inl e \<Longrightarrow> discovery_error api ns svc e"
  by (cases "listEndpointSlices api ns (''kubernetes.io/service-name='' @ svc)")
    (auto simp: getEndpointSliceBySvcName_def discovery_error_def split: list.splits)

lemma slice_port_sound:
  "slice_port num name ports = Inr (Some (n, s)) \<Longrightarrow> (Some s, Some n) \<in> set ports \<and> (n = num \<or> s = name)"
  by (induction num name ports rule: slice_port.induct)
    (auto simp: bind_res_eq_Inr_iff deref_eq_Inr split: if_splits)

lemma container_port_sound:
  assumes "container_port api num name svc ns ps = Inr (Inr (n, s))"
  shows "\<exists>p \<in> set ps. (sp_Name p = name \<or> sp_Port p = num)
    \<and> ((TargetPort_IntVal p \<noteq> 0 \<and> n = TargetPort_IntVal p \<and> s = [])
       \<or> (TargetPort_IntVal p = 0 \<and> TargetPort_StrVal p \<noteq> []
          \<and> (\<exists>sl. getEndpointSliceBySvcName api svc ns = Inr sl \<and> (Some s, Some n) \<in> set (slice_Ports sl) \<and> (n = num \<or> s = name))))"
  using assms
proof (induction ps)
  case (Cons p ps)
  show ?case
  proof (cases "container_port api num name svc ns ps = Inr (Inr (n, s))")
    case True
    with Cons.IH show ?thesis by auto
  next
    case False
    with Cons.prems show ?thesis
      by (auto simp: port_matches_def bind_res_eq_Inr_iff dest: slice_port_sound split: if_splits sum.splits option.splits)
  qed
qed simp

lemma container_port_error:
  "container_port api num name svc ns ps = Inr (Inl e) \<Longrightarrow> discovery_error api ns svc e"
proof (induction ps)
  case (Cons p ps)
  then show ?case
    by (auto simp: bind_res_eq_Inr_iff dest: getEndpointSliceBySvcName_Inl split: if_splits sum.splits option.splits)
qed (simp add: discovery_error_def)

lemma find_mem: "find P xs = Some x \<Longrightarrow> x \<in> set xs \<and> P x"
  by (auto simp: find_Some_iff)

lemma find_none: "find P xs = None \<Longrightarrow> x \<in> set xs \<Longrightarrow> \<not> P x"
  by (auto simp: find_None_iff)

lemma discoverSvcPorts_sound:
  assumes "discoverSvcPorts api ns b = Inr port"
  shows "svc_port_found api ns b port"
proof (cases "sb_PortNumber b = 0")
  case True
  with assms obtain ps where ps: "getSvc api (sb_Name b) ns = Inr ps"
      "port = enabled_port (case find (\<lambda>p. sp_Name p = sb_PortName b) ps of None \<Rightarrow> 0 | Some p \<Rightarrow> sp_Port p)
         (sb_PortName b) PORT_TYPE_SVC_PORT"
    by (auto simp: discoverSvcPorts_def getSvcPortNumberBySvcPortName_def bind_res_eq_Inr_iff)
  show ?thesis
    by (cases "find (\<lambda>p. sp_Name p = sb_PortName b) ps")
      (use ps True in \<open>auto simp: svc_port_found_def enabled_port_def dest: find_mem find_none\<close>)
next
  case False
  with assms show ?thesis by (auto simp: discoverSvcPorts_def svc_port_found_def enabled_port_def)
qed

lemma discoverSvcPorts_error: "discoverSvcPorts api ns b = Inl e \<Longrightarrow> discovery_error api ns (sb_Name b) e"
  by (cases "getSvc api (sb_Name b) ns")
    (auto simp: discoverSvcPorts_def getSvcPortNumberBySvcPortName_def discovery_error_def split: if_splits)

lemma bind_e_Inr: "bind_e m f = Inr (Inr y) \<longleftrightarrow> (\<exists>x. m = Inr (Inr x) \<and> f x = Inr (Inr y))"
  by (cases m rule: sum.exhaust; cases "projr m" rule: sum.exhaust) (auto simp: bind_e_def)

lemma bind_e_Inl: "bind_e m f = Inr (Inl e) \<longleftrightarrow> m = Inr (Inl e) \<or> (\<exists>x. m = Inr (Inr x) \<and> f x = Inr (Inl e))"
  by (cases m rule: sum.exhaust; cases "projr m" rule: sum.exhaust) (auto simp: bind_e_def)

lemma discoverContainerPorts_sound:
  assumes "discoverContainerPorts api ns b = Inr (Inr port)"
  shows "container_port_found api ns b port"
proof -
  from assms obtain ps n s where "getSvc api (sb_Name b) ns = Inr ps"
      "container_port api (sb_PortNumber b) (sb_PortName b) (sb_Name b) ns ps = Inr (Inr (n, s))"
      "port = enabled_port n s PORT_TYPE_CONTAINER_PORT"
    by (cases "getSvc api (sb_Name b) ns")
      (auto simp: discoverContainerPorts_def getContainerPortBySvcPort_def bind_e_Inr)
  with container_port_sound [OF this(2)] show ?thesis
    by (auto simp: container_port_found_def enabled_port_def getEndpointSliceBySvcName_Inr)
qed

lemma discoverContainerPorts_error:
  assumes "discoverContainerPorts api ns b = Inr (Inl e)"
  shows "discovery_error api ns (sb_Name b) e"
proof (cases "getSvc api (sb_Name b) ns")
  case (Inl e')
  with assms show ?thesis
    by (simp add: discoverContainerPorts_def getContainerPortBySvcPort_def bind_e_def discovery_error_def)
next
  case (Inr ps)
  with assms have "container_port api (sb_PortNumber b) (sb_PortName b) (sb_Name b) ns ps = Inr (Inl e)"
    by (auto simp: discoverContainerPorts_def getContainerPortBySvcPort_def bind_e_Inl)
  then show ?thesis by (rule container_port_error)
qed

lemma slice_endpoint_sound: "slice_endpoint ep = Inr e \<Longrightarrow> endpoint_found ep e"
proof -
  have "\<exists>kind name ns. ref = \<lparr>ref_Kind = kind, ref_Name = name, ref_Namespace = ns\<rparr>" for ref :: ObjectReference
    by (cases ref) simp
  then show "slice_endpoint ep = Inr e \<Longrightarrow> endpoint_found ep e"
    by (fastforce simp: slice_endpoint_def endpoint_found_def bind_res_eq_Inr_iff deref_eq_Inr split: list.splits)
qed

lemma discoverEndpoints_sound:
  assumes "discoverEndpoints api svc ns = Inr (Inr eps)"
  shows "\<exists>sl sls. listEndpointSlices api ns (''kubernetes.io/service-name='' @ svc) = Inr (sl # sls)
    \<and> list_all2 endpoint_found (slice_Endpoints sl) eps"
proof -
  from assms obtain sl where "getEndpointSliceBySvcName api svc ns = Inr sl" "slice_endpoints (slice_Endpoints sl) = Inr eps"
    by (auto simp: discoverEndpoints_def bind_res_eq_Inr_iff split: sum.splits)
  with slice_endpoints_all2 [OF this(2)] show ?thesis
    unfolding getEndpointSliceBySvcName_Inr by (blast intro: list_all2_mono slice_endpoint_sound)
qed

lemma discoverEndpoints_error: "discoverEndpoints api svc ns = Inr (Inl e) \<Longrightarrow> discovery_error api ns svc e"
  by (auto simp: discoverEndpoints_def bind_res_eq_Inr_iff dest: getEndpointSliceBySvcName_Inl split: sum.splits)

text \<open>The outcomes of the last part of the normalisation.\<close>

lemma normalize_route_cases:
  assumes "normalize_route api k b req = Inr (r, err)"
  obtains (failed) e req' where "(r, err) = normalizedWithError req' e" "cr_Ingress req' = cr_Ingress req"
      "cr_SvcFqdn req' = cr_SvcFqdn req" "discovery_error api (k_Namespace k) (sb_Name b) e"
  | (success) svc cont eps where "discoverSvcPorts api (k_Namespace k) b = Inr svc"
      "discoverContainerPorts api (k_Namespace k) b = Inr (Inr cont)"
      "discoverEndpoints api (sb_Name b) (k_Namespace k) = Inr (Inr eps)" "err = None"
      "r = Some (req\<lparr>cr_Ports := cr_Ports req @ [svc, cont], cr_Endpoints := eps\<rparr>)"
proof (cases "discoverSvcPorts api (k_Namespace k) b")
  case (Inl e)
  with assms failed [of req e] discoverSvcPorts_error [OF Inl] show ?thesis by (simp add: normalize_route_def)
next
  case (Inr svc)
  let ?req1 = "req\<lparr>cr_Ports := cr_Ports req @ [svc]\<rparr>"
  from Inr assms obtain cp where cp: "discoverContainerPorts api (k_Namespace k) b = Inr cp"
    by (auto simp: normalize_route_def bind_res_eq_Inr_iff Let_def)
  show ?thesis
  proof (cases cp)
    case (Inl e)
    with assms Inr cp failed [of ?req1 e] discoverContainerPorts_error [of api "k_Namespace k" b e]
    show ?thesis by (simp add: normalize_route_def Let_def)
  next
    case c: (Inr cont)
    with assms Inr cp obtain eps where eps: "discoverEndpoints api (sb_Name b) (k_Namespace k) = Inr eps"
      by (auto simp: normalize_route_def bind_res_eq_Inr_iff Let_def)
    show ?thesis
    proof (cases eps)
      case (Inl e)
      with assms Inr cp c eps failed [of "req\<lparr>cr_Ports := cr_Ports req @ [svc, cont]\<rparr>" e] discoverEndpoints_error
      show ?thesis by (fastforce simp: normalize_route_def Let_def)
    next
      case (Inr es)
      with assms \<open>discoverSvcPorts api (k_Namespace k) b = Inr svc\<close> cp c eps success show ?thesis
        by (simp add: normalize_route_def Let_def)
    qed
  qed
qed

lemma requested_backend_route_request:
  assumes "k_Rules k = rule # rules" and "rule_HTTP rule = Some (path # paths)" and "rule_Host rule \<noteq> []"
    and "hp_Service path = Some b"
  shows "requested_backend k (route_request k rule path b) b"
  using assms by (simp add: requested_backend_def route_request_def discoverScheme_def)

lemma requested_backend_cong:
  "\<lbrakk>requested_backend k req b; cr_SvcFqdn req' = cr_SvcFqdn req;
    \<exists>st msg. cr_Ingress req' = (cr_Ingress req)\<lparr>ing_DiscoveryStatus := st, ing_DiscoveryMessage := msg\<rparr>\<rbrakk>
   \<Longrightarrow> requested_backend k req' b"
  by (auto simp: requested_backend_def)

lemma normalize_outcome:
  assumes "normalize api obj = Inr (r, err)"
  shows "(\<exists>k. FromUnstructured api obj = Inr k \<and> skipped k \<and> r = None \<and> err = None)
    \<or> (\<exists>req e. r = Some req \<and> err = Some e \<and> ing_DiscoveryStatus (cr_Ingress req) = DISCOVERY_STATUS_TYPE_INCOMPLETE
          \<and> ing_DiscoveryMessage (cr_Ingress req) = e
          \<and> (FromUnstructured api obj = Inl e \<or> (\<exists>k b. FromUnstructured api obj = Inr k \<and> requested_backend k req b
               \<and> discovery_error api (k_Namespace k) (sb_Name b) e)))
    \<or> (\<exists>k req. FromUnstructured api obj = Inr k \<and> r = Some req \<and> err = None \<and> discovered api k req)"
proof (cases "FromUnstructured api obj")
  case (Inl e)
  with assms show ?thesis by (auto simp: normalize_def normalizedWithError_def)
next
  case (Inr k)
  show ?thesis
  proof (cases "skipped k")
    case True
    with assms Inr show ?thesis by (auto simp: normalize_def skipped_def split: list.splits)
  next
    case False
    then obtain rule rules where k: "k_Rules k = rule # rules"
      by (cases "k_Rules k") (auto simp: skipped_def)
    with assms Inr False obtain path paths where p: "rule_HTTP rule = Some (path # paths)" "rule_Host rule \<noteq> []"
      by (cases "rule_HTTP rule"; cases "the (rule_HTTP rule)") (auto simp: normalize_def skipped_def)
    with assms Inr k obtain b where b: "hp_Service path = Some b"
        "normalize_route api k b (route_request k rule path b) = Inr (r, err)"
      by (auto simp: normalize_def bind_res_eq_Inr_iff deref_eq_Inr)
    note rb = requested_backend_route_request [OF k p b(1)]
    from b(2) show ?thesis
    proof (cases rule: normalize_route_cases)
      case (failed e req')
      from failed(1) have f: "err = Some e" "r = Some (req'\<lparr>cr_Ingress := (cr_Ingress req')\<lparr>
          ing_DiscoveryStatus := DISCOVERY_STATUS_TYPE_INCOMPLETE, ing_DiscoveryMessage := e\<rparr>\<rparr>)" (is "_ = Some ?req")
        by (simp_all add: normalizedWithError_def)
      have "requested_backend k ?req b" by (rule requested_backend_cong [OF rb]) (use failed in auto)
      with f failed(4) Inr show ?thesis by auto
    next
      case (success svc cont eps)
      let ?req = "route_request k rule path b\<lparr>cr_Ports := [svc, cont], cr_Endpoints := eps\<rparr>"
      have "requested_backend k ?req b"
        using rb by (simp add: requested_backend_def)
      moreover have "ing_DiscoveryStatus (cr_Ingress ?req) = DISCOVERY_STATUS_TYPE_SUCCESS" "r = Some ?req"
        using success(5) by (simp_all add: route_request_def)
      ultimately have "discovered api k ?req"
        using discoverSvcPorts_sound [OF success(1)] discoverContainerPorts_sound [OF success(2)] discoverEndpoints_sound [OF success(3)]
        by (fastforce simp: discovered_def)
      with success(4) \<open>r = Some ?req\<close> Inr show ?thesis by auto
    qed
  qed
qed

section \<open>Properties\<close>

text \<open>A cluster with one service, whose only port leads to a named port of the pods.\<close>

definition named_port_api :: "K8sIngress k8s_api" where
  "named_port_api = \<lparr>FromUnstructured = Inr,
     getSvc = (\<lambda>svc ns. Inr [\<lparr>sp_Name = ''http'', sp_Port = 80, TargetPort_IntVal = 0, TargetPort_StrVal = ''web''\<rparr>]),
     listEndpointSlices = (\<lambda>ns selector. Inr [\<lparr>slice_Service = ''shop'', slice_Namespace = ns,
       slice_Endpoints = [\<lparr>Addresses = [''10.1.0.5''], sep_NodeName = Some ''n1'',
         TargetRef = Some \<lparr>ref_Kind = ''Pod'', ref_Name = ''shop-0'', ref_Namespace = ns\<rparr>\<rparr>],
       slice_Ports = [(Some ''http'', Some 8080)]\<rparr>])\<rparr>"

definition shop_ingress :: "32 word \<Rightarrow> string \<Rightarrow> K8sIngress" where
  "shop_ingress num name = \<lparr>k_Name = ''shop'', k_Namespace = ''default'', k_Rules = [\<lparr>rule_Host = ''shop.example'',
     rule_HTTP = Some [\<lparr>hp_Path = ''/'', hp_Service = Some \<lparr>sb_Name = ''shop'', sb_PortNumber = num, sb_PortName = name\<rparr>\<rparr>]\<rparr>],
     k_TLS = False\<rparr>"

text \<open>
  C22: What a new or changed ingress object leads to, unless the handler panics.  Either it is skipped,
  because it has no rule, or no path or host in the first one: nothing is sent and no error is returned.
  Or exactly one request is sent.  If discovery failed, the request says that it is incomplete and
  carries the text of the error, which is returned: that of decoding the object, or that of the queries for
  the service of the first path of the first rule, which the request names.  Otherwise the request
  reports success and describes that path (host, path, scheme, name of the service), with the port of the
  service, the port of the containers and the endpoints that belong to it in the cluster; the only error
  that can then be returned is that of the call.
\<close>

theorem created_routes_report_their_discovery:
  assumes "createUpstream api createRoute obj = Inr (sent, errs)"
  shows "(\<exists>k. FromUnstructured api obj = Inr k \<and> skipped k \<and> sent = [] \<and> errs = [])
    \<or> (\<exists>req e. sent = [req] \<and> errs = e # (case createRoute req of None \<Rightarrow> [] | Some e' \<Rightarrow> [e'])
          \<and> ing_DiscoveryStatus (cr_Ingress req) = DISCOVERY_STATUS_TYPE_INCOMPLETE \<and> ing_DiscoveryMessage (cr_Ingress req) = e
          \<and> (FromUnstructured api obj = Inl e \<or> (\<exists>k b. FromUnstructured api obj = Inr k \<and> requested_backend k req b
               \<and> discovery_error api (k_Namespace k) (sb_Name b) e)))
    \<or> (\<exists>k req. FromUnstructured api obj = Inr k \<and> sent = [req] \<and> errs = (case createRoute req of None \<Rightarrow> [] | Some e \<Rightarrow> [e])
          \<and> discovered api k req)"
proof -
  from assms obtain r err where n: "normalize api obj = Inr (r, err)"
    by (auto simp: createUpstream_def bind_res_eq_Inr_iff)
  with assms have c: "(sent, errs) = (case r of None \<Rightarrow> ([], [])
      | Some req \<Rightarrow> ([req], map the (filter (\<lambda>e. e \<noteq> None) [err, createRoute req])))"
    by (cases r) (simp_all add: createUpstream_def)
  from normalize_outcome [OF n] c show ?thesis
    by (elim disjE exE conjE) (auto split: option.splits)
qed

lemmas discovery_defs = createUpstream_def normalize_def normalize_route_def named_port_api_def shop_ingress_def
  discoverSvcPorts_def getSvcPortNumberBySvcPortName_def discoverContainerPorts_def getContainerPortBySvcPort_def
  bind_e_def port_matches_def discoverEndpoints_def slice_endpoints_def slice_endpoint_def getEndpointSliceBySvcName_def

theorem created_routes_report_their_discovery_witness:
  "\<exists>req. createUpstream named_port_api (\<lambda>_. None) (shop_ingress 0 ''http'') = Inr ([req], [])
    \<and> discovered named_port_api (shop_ingress 0 ''http'') req \<and> map Number (cr_Ports req) = [80, 8080]"
proof -
  obtain req where r: "createUpstream named_port_api (\<lambda>_. None) (shop_ingress 0 ''http'') = Inr ([req], [])"
      "map Number (cr_Ports req) = [80, 8080]"
    by (simp add: discovery_defs enabled_port_def route_request_def)
  with created_routes_report_their_discovery [OF r(1)] show ?thesis by (auto simp: named_port_api_def)
qed

text \<open>
  A backend that names its service port by number and leads to a named port of the pods is not
  resolved: the number is compared with the port numbers of the slice, which are those of the pods.  If
  the slice has neither a port of that number nor a port without a name, no container port is found.
\<close>

theorem numbered_backend_with_named_target_fails:
  assumes "getSvc api svcName ns = Inr [p]" and "sp_Port p = num" and "TargetPort_IntVal p = 0" and "TargetPort_StrVal p \<noteq> []"
    and "getEndpointSliceBySvcName api svcName ns = Inr sl"
    and "list_all (\<lambda>(name, n). \<exists>s m. name = Some s \<and> n = Some m \<and> s \<noteq> [] \<and> m \<noteq> num) (slice_Ports sl)"
  shows "getContainerPortBySvcPort api num [] svcName ns =
    Inr (Inl (''can not find container port for service: '' @ svcName))"
proof -
  have "slice_port num [] ports = Inr None"
    if "list_all (\<lambda>(name, n). \<exists>s m. name = Some s \<and> n = Some m \<and> s \<noteq> [] \<and> m \<noteq> num) ports" for ports
    using that by (induction ports) auto
  with assms show ?thesis by (simp add: getContainerPortBySvcPort_def port_matches_def)
qed

theorem numbered_backend_with_named_target_fails_witness:
  "getContainerPortBySvcPort named_port_api 80 [] ''shop'' ''default'' = Inr (Inl ''can not find container port for service: shop'')"
  using numbered_backend_with_named_target_fails [of named_port_api "''shop''" "''default''"]
  by (simp add: named_port_api_def getEndpointSliceBySvcName_def)

text \<open>The list of services that is known after a sequence of events.\<close>

definition known_services :: "sync_event list \<Rightarrow> string list" where
  "known_services evs = fold (\<lambda>e s. case e of Services fqdns \<Rightarrow> fqdns | Slice _ \<Rightarrow> s) evs []"

lemma known_services_snoc: "known_services (evs @ [e]) = (case e of Services fqdns \<Rightarrow> fqdns | Slice _ \<Rightarrow> known_services evs)"
  by (simp add: known_services_def split: sync_event.split)

text \<open>
  What is sent to the API server: one update for each endpoint slice of a service that was known when the
  slice came, in the order of the slices, with one element per endpoint; slices of other services are
  dropped, and not repeated when the service becomes known.
\<close>

theorem known_services_are_synchronised:
  assumes "fold_res sync_step ([], []) evs = Inr (services, sent)"
  shows "services = known_services evs
    \<and> map fst sent = concat (map (\<lambda>i. case evs ! i of Slice sl \<Rightarrow>
         if svc_fqdn sl \<in> set (known_services (take i evs)) then [svc_fqdn sl] else [] | Services _ \<Rightarrow> []) [0..<length evs])"
  using assms
proof (induction evs arbitrary: services sent rule: rev_induct)
  case Nil
  then show ?case by (simp add: known_services_def)
next
  case (snoc e evs)
  let ?out = "\<lambda>evs i. case evs ! i of Slice sl \<Rightarrow>
    if svc_fqdn sl \<in> set (known_services (take i evs)) then [svc_fqdn sl] else [] | Services _ \<Rightarrow> []"
  from snoc.prems obtain s1 o1 where s1: "fold_res sync_step ([], []) evs = Inr (s1, o1)" "sync_step (s1, o1) e = Inr (services, sent)"
    by (auto simp: fold_res_append bind_res_eq_Inr_iff bind_res_right)
  note IH = snoc.IH [OF s1(1)]
  have "map (?out (evs @ [e])) [0..<length evs] = map (?out evs) [0..<length evs]"
    by (auto simp: nth_append split: sync_event.split)
  then have "concat (map (?out (evs @ [e])) [0..<length (evs @ [e])]) = map fst o1 @ ?out (evs @ [e]) (length evs)"
    using IH by (simp del: map_eq_conv)
  with s1(2) IH show ?case
    by (cases e) (auto simp: known_services_snoc shouldProtect_def list_ex_iff bind_res_eq_Inr_iff split: if_splits)
qed

definition shop_slice :: EndpointSlice where
  "shop_slice = \<lparr>slice_Service = ''shop'', slice_Namespace = ''ns'', slice_Endpoints = [], slice_Ports = []\<rparr>"

theorem known_services_are_synchronised_witness:
  "\<exists>sent. fold_res sync_step ([], []) [Slice shop_slice, Services [''shop.ns.svc''], Slice shop_slice] = Inr ([''shop.ns.svc''], sent)
    \<and> map fst sent = [''shop.ns.svc'']"
proof -
  obtain sent where s: "fold_res sync_step ([], []) [Slice shop_slice, Services [''shop.ns.svc''], Slice shop_slice] = Inr ([''shop.ns.svc''], sent)"
    by (simp add: shouldProtect_def slice_endpoints_def shop_slice_def svc_fqdn_def)
  with known_services_are_synchronised [OF s] show ?thesis
    by (simp add: known_services_def upt_rec shop_slice_def svc_fqdn_def)
qed

end
