(* ===== verification/Apisrv_Route.thy ===== *)
theory Apisrv_Route
  imports Apisrv_Protection "HOL-Library.Multiset"
begin

text \<open>
  A model of the routes of the API server: upstreams, ingresses, applications and ports
  (\<^verbatim>\<open>upstream.go\<close>, \<^verbatim>\<open>ingress.go\<close>, \<^verbatim>\<open>application.go\<close>, \<^verbatim>\<open>port.go\<close> under \<^verbatim>\<open>apisrv/internal/models\<close>) and the service that
  creates and updates them (\<^verbatim>\<open>apisrv/pkg/apiserver/route.go\<close>).  The database is a parameter; what is relied on
  of it is \<open>route_db_ok\<close>.  The lemmas show the conversions between messages and rows, that the ports on
  which the gateway listens are given out once, and which changes of a route do not reach the database.
\<close>

section \<open>Rows\<close>

record endpoint_row =
  er_NodeName :: string
  er_Kind :: string
  er_Name :: string
  er_Namespace :: string

record mirror_row =
  mr_Status :: uint32
  mr_Ip :: string
  mr_Port :: int64
  mr_Dns :: string

record port_row =
  po_ID :: "64 word"
  po_PortNumber :: uint32
  po_PortName :: string
  po_Status :: uint32
  po_ProxyListeningPort :: uint32
  po_PortType :: uint32
  po_Description :: string
  po_UpstreamID :: string
  po_IngressID :: "64 word"

text \<open>The endpoints, a Go map from addresses, are the list of its entries; \<open>None\<close> is a nil pointer.\<close>

record upstream_row =
  us_ID :: string
  us_Endpoints :: "(string \<times> endpoint_row) list option"
  us_MirrorPolicy :: "mirror_row option"
  us_UpstreamRouteType :: uint32
  us_Ports :: "port_row list"

record ingress_row =
  ir_ID :: "64 word"
  ir_Name :: string
  ir_Namespace :: string
  ir_Host :: string
  ir_Scheme :: string
  ir_Port :: "32 word"
  ir_Path :: string
  ir_ApplicationID :: "64 word"
  ir_IngressType :: uint32
  ir_DiscoveryStatus :: uint32
  ir_DiscoveryMessage :: string
  ir_UpstreamID :: string

record app_row =
  ar_ID :: "64 word"
  ar_Name :: string
  ar_Ingresses :: "(ingress_row \<times> upstream_row) list"

section \<open>Conversions\<close>

definition NewEndpointFromRequest :: "Endpoint \<Rightarrow> endpoint_row" where
  "NewEndpointFromRequest ep = \<lparr>er_NodeName = NodeName ep, er_Kind = ep_Kind ep, er_Name = ep_Name ep, er_Namespace = ep_Namespace ep\<rparr>"

definition Endpoint_ToProto :: "string \<Rightarrow> endpoint_row \<Rightarrow> Endpoint" where
  "Endpoint_ToProto ip e = \<lparr>Ip = ip, NodeName = er_NodeName e, ep_Kind = er_Kind e, ep_Name = er_Name e, ep_Namespace = er_Namespace e\<rparr>"

definition NewMirrorPolicyFromRequest :: "MirrorPolicy option \<Rightarrow> mirror_row option" where
  "NewMirrorPolicyFromRequest mp = map_option (\<lambda>m. \<lparr>mr_Status = mirror_status_number (mp_Status m), mr_Ip = mp_Ip m,
     mr_Port = ucast (mp_Port m), mr_Dns = mp_Dns m\<rparr>) mp"

definition MirrorPolicy_ToProto :: "mirror_row option \<Rightarrow> MirrorPolicy option" where
  "MirrorPolicy_ToProto p = map_option (\<lambda>m. \<lparr>mp_Status = mirror_status_of_number (mr_Status m), mp_Ip = mr_Ip m,
     mp_Port = ucast (mr_Port m), mp_Dns = mr_Dns m\<rparr>) p"

definition NewPortFromProto :: "Port \<Rightarrow> port_row" where
  "NewPortFromProto p = \<lparr>po_ID = 0, po_PortNumber = Number p, po_PortName = port_Name p,
     po_Status = port_status_number (port_Status p), po_ProxyListeningPort = ProxyListeningPort p,
     po_PortType = port_type_number (PortType p), po_Description = port_Description p, po_UpstreamID = [], po_IngressID = 0\<rparr>"

definition NewPortsFromProto :: "Port list \<Rightarrow> port_row list" where
  "NewPortsFromProto ps = map NewPortFromProto ps"

definition Port_ToProto :: "port_row \<Rightarrow> Port" where
  "Port_ToProto p = \<lparr>Number = po_PortNumber p, port_Name = po_PortName p, ProxyListeningPort = po_ProxyListeningPort p,
     port_Description = po_Description p, port_Status = port_status_of_number (po_Status p),
     PortType = port_type_of_number (po_PortType p)\<rparr>"

text \<open>\<open>m[k] = v\<close> on a map as the list of its entries.\<close>

definition put_entry :: "'k \<Rightarrow> 'v \<Rightarrow> ('k \<times> 'v) list \<Rightarrow> ('k \<times> 'v) list" where
  "put_entry k v m = filter (\<lambda>e. fst e \<noteq> k) m @ [(k, v)]"

text \<open>In a message that comes over the wire, an empty list of endpoints is nil.\<close>

definition NewUpstreamFromRequest :: "Upstream \<Rightarrow> upstream_row" where
  "NewUpstreamFromRequest u = \<lparr>us_ID = SvcFqdn u,
     us_Endpoints = (if Endpoints u = [] then None
       else Some (fold (\<lambda>ep. put_entry (Ip ep) (NewEndpointFromRequest ep)) (Endpoints u) [])),
     us_MirrorPolicy = NewMirrorPolicyFromRequest (up_MirrorPolicy u),
     us_UpstreamRouteType = route_type_number (up_RouteType u), us_Ports = []\<rparr>"

text \<open>\<open>visit\<close> is the order in which the iteration over the map visits the entries.\<close>

definition Upstream_ToProto :: "((string \<times> endpoint_row) list \<Rightarrow> (string \<times> endpoint_row) list) \<Rightarrow> upstream_row \<Rightarrow> Upstream" where
  "Upstream_ToProto visit u = \<lparr>SvcFqdn = us_ID u,
     Endpoints = (case us_Endpoints u of None \<Rightarrow> [] | Some m \<Rightarrow> map (\<lambda>(ip, ep). Endpoint_ToProto ip ep) (visit m)),
     Ports = map Port_ToProto (us_Ports u), up_RouteType = route_type_of_number (us_UpstreamRouteType u),
     up_MirrorPolicy = MirrorPolicy_ToProto (us_MirrorPolicy u)\<rparr>"

definition NewIngressFromProto :: "Ingress \<Rightarrow> ingress_row" where
  "NewIngressFromProto i = \<lparr>ir_ID = 0, ir_Name = ing_Name i, ir_Namespace = ing_Namespace i, ir_Host = ing_Host i,
     ir_Scheme = ing_Scheme i, ir_Port = ing_Port i, ir_Path = ing_Path i, ir_ApplicationID = scast (ing_ApplicationId i),
     ir_IngressType = ingress_type_number (ing_Type i), ir_DiscoveryStatus = discovery_status_number (ing_DiscoveryStatus i),
     ir_DiscoveryMessage = ing_DiscoveryMessage i, ir_UpstreamID = []\<rparr>"

definition Ingress_ToProto :: "((string \<times> endpoint_row) list \<Rightarrow> (string \<times> endpoint_row) list) \<Rightarrow> ingress_row \<times> upstream_row \<Rightarrow> Ingress" where
  "Ingress_ToProto visit x = (case x of (i, u) \<Rightarrow> \<lparr>ing_Name = ir_Name i, ing_Namespace = ir_Namespace i, ing_Host = ir_Host i, ing_Port = 0,
     ing_Path = ir_Path i, ing_ApplicationId = ucast (ir_ApplicationID i), ing_Type = ingress_type_of_number (ir_IngressType i),
     ing_DiscoveryStatus = discovery_status_of_number (ir_DiscoveryStatus i), ing_DiscoveryMessage = ir_DiscoveryMessage i,
     ing_Upstream = Some (Upstream_ToProto visit u), ing_Scheme = ir_Scheme i\<rparr>)"

definition Application_ToProto :: "((string \<times> endpoint_row) list \<Rightarrow> (string \<times> endpoint_row) list) \<Rightarrow> app_row \<Rightarrow> Application" where
  "Application_ToProto visit a = \<lparr>app_Id = ucast (ar_ID a), app_Name = ar_Name a, app_Ingress = map (Ingress_ToProto visit) (ar_Ingresses a)\<rparr>"

section \<open>The database\<close>

text \<open>
  The key of the unique index on ports, and the queries and statements of the repositories: the first port
  of a key, whether some port has a proxy port (\<open>None\<close>: yes), the ports of an ingress, inserting or updating
  a port; saving an upstream without the mirror policy or the endpoints if these are omitted; the
  application of a name, creating one; inserting an ingress or updating the one of its host, with the id
  of the row; the protections of a mode and a WAF mode, with their applications if asked for, and
  the ports of an upstream and an ingress.
\<close>

type_synonym port_key = "uint32 \<times> string \<times> 64 word \<times> uint32"

definition port_key :: "port_row \<Rightarrow> port_key" where
  "port_key p = (po_PortNumber p, po_UpstreamID p, po_IngressID p, po_PortType p)"

text \<open>
  The columns that are assigned when the row to insert is there already; the statements take these
  updates as an argument.
\<close>

definition port_assignments :: "port_row \<Rightarrow> port_row \<Rightarrow> port_row" where
  "port_assignments old new = old\<lparr>po_PortName := po_PortName new, po_Status := po_Status new,
     po_ProxyListeningPort := po_ProxyListeningPort new, po_PortType := po_PortType new,
     po_Description := po_Description new, po_UpstreamID := po_UpstreamID new\<rparr>"

definition ingress_assignments :: "ingress_row \<Rightarrow> ingress_row \<Rightarrow> ingress_row" where
  "ingress_assignments old new = old\<lparr>ir_Name := ir_Name new, ir_Namespace := ir_Namespace new, ir_Path := ir_Path new,
     ir_Port := ir_Port new, ir_Scheme := ir_Scheme new, ir_IngressType := ir_IngressType new,
     ir_DiscoveryMessage := ir_DiscoveryMessage new, ir_DiscoveryStatus := ir_DiscoveryStatus new\<rparr>"

record 'db route_db =
  find_port :: "port_key \<Rightarrow> 'db \<Rightarrow> db_error + port_row"
  find_proxy :: "uint32 \<Rightarrow> 'db \<Rightarrow> db_error option"
  currentPorts :: "64 word \<Rightarrow> 'db \<Rightarrow> db_error + port_row list"
  upsert_port :: "(port_row \<Rightarrow> port_row \<Rightarrow> port_row) \<Rightarrow> port_row \<Rightarrow> 'db \<Rightarrow> db_error option \<times> 'db"
  save_upstream :: "bool \<Rightarrow> bool \<Rightarrow> upstream_row \<Rightarrow> 'db \<Rightarrow> db_error option \<times> 'db"
  find_app :: "string \<Rightarrow> 'db \<Rightarrow> db_error + 64 word"
  create_app :: "string \<Rightarrow> 'db \<Rightarrow> (db_error + 64 word) \<times> 'db"
  upsert_ingress :: "(ingress_row \<Rightarrow> ingress_row \<Rightarrow> ingress_row) \<Rightarrow> ingress_row \<Rightarrow> 'db \<Rightarrow> (db_error + 64 word) \<times> 'db"
  find_protections :: "uint32 option \<Rightarrow> uint32 option \<Rightarrow> bool \<Rightarrow> 'db \<Rightarrow> db_error + (protection_row \<times> app_row) list"
  find_ports :: "string \<Rightarrow> 64 word \<Rightarrow> 'db \<Rightarrow> db_error + port_row list"

datatype save_error = Db_Failed db_error | No_Free_Port | Name_Required | App_Creation_Failed db_error

section \<open>Ports\<close>

text \<open>The random number is drawn once, before the attempts.\<close>

fun allocation_attempts :: "'db route_db \<Rightarrow> uint32 \<Rightarrow> nat \<Rightarrow> 'db \<Rightarrow> save_error + uint32" where
  "allocation_attempts repo proxyListenerPort 0 db = Inl No_Free_Port"
| "allocation_attempts repo proxyListenerPort (Suc n) db = (case find_proxy repo proxyListenerPort db of
     Some ErrRecordNotFound \<Rightarrow> Inr proxyListenerPort
   | Some e \<Rightarrow> Inl (Db_Failed e)
   | None \<Rightarrow> allocation_attempts repo proxyListenerPort n db)"

definition minPort :: nat where
  "minPort = 49152"

definition maxPort :: nat where
  "maxPort = 65535"

text \<open>\<open>draw\<close> is the result of \<open>rand.Intn(maxPort - minPort)\<close>.\<close>

definition proxyProtAllocator :: "'db route_db \<Rightarrow> nat \<Rightarrow> 'db \<Rightarrow> save_error + uint32" where
  "proxyProtAllocator repo draw db = allocation_attempts repo (word_of_nat (draw + minPort)) 10 db"

definition CONTAINER_PORT :: uint32 where
  "CONTAINER_PORT = port_type_number PORT_TYPE_CONTAINER_PORT"

definition allocateProxyListenerPort :: "'db route_db \<Rightarrow> nat \<Rightarrow> port_row \<Rightarrow> 'db \<Rightarrow> save_error + port_row" where
  "allocateProxyListenerPort repo draw p db =
     (if po_PortType p \<noteq> CONTAINER_PORT then Inr p
      else (case find_port repo (po_PortNumber p, po_UpstreamID p, po_IngressID p, CONTAINER_PORT) db of
        Inl ErrRecordNotFound \<Rightarrow> bind_res (proxyProtAllocator repo draw db) (\<lambda>w. Inr (p\<lparr>po_ProxyListeningPort := w\<rparr>))
      | Inl e \<Rightarrow> Inl (Db_Failed e)
      | Inr currentPort \<Rightarrow>
          if po_ProxyListeningPort currentPort = 0
          then bind_res (proxyProtAllocator repo draw db) (\<lambda>w. Inr (p\<lparr>po_ProxyListeningPort := w\<rparr>))
          else Inr (p\<lparr>po_ProxyListeningPort := po_ProxyListeningPort currentPort\<rparr>)))"

text \<open>\<open>Create\<close> with the hook \<open>BeforeCreate\<close>.\<close>

definition create_port :: "'db route_db \<Rightarrow> nat \<Rightarrow> port_row \<Rightarrow> 'db \<Rightarrow> save_error option \<times> 'db" where
  "create_port repo draw p db = (case allocateProxyListenerPort repo draw p db of
     Inl e \<Rightarrow> (Some e, db)
   | Inr p \<Rightarrow> (case upsert_port repo port_assignments p db of (None, db) \<Rightarrow> (None, db) | (Some e, db) \<Rightarrow> (Some (Db_Failed e), db)))"

text \<open>\<open>draw k\<close> is the \<open>k\<close>-th random number.\<close>

fun create_ports :: "'db route_db \<Rightarrow> (nat \<Rightarrow> nat) \<Rightarrow> port_row list \<Rightarrow> 'db \<Rightarrow> save_error option \<times> 'db" where
  "create_ports repo draw [] db = (None, db)"
| "create_ports repo draw (p # ps) db = (case create_port repo (draw 0) p db of
     (Some e, db) \<Rightarrow> (Some e, db) | (None, db) \<Rightarrow> create_ports repo (\<lambda>k. draw (Suc k)) ps db)"

text \<open>Only the query of the current ports is left of this function: deleting them is commented out.\<close>

definition deleteUnexistingPorts :: "'db route_db \<Rightarrow> 64 word \<Rightarrow> port_row list \<Rightarrow> 'db \<Rightarrow> save_error option" where
  "deleteUnexistingPorts repo ingressId desiredPorts db =
     (if desiredPorts = [] then None
      else (case currentPorts repo ingressId db of Inl e \<Rightarrow> Some (Db_Failed e) | Inr ports \<Rightarrow> None))"

definition Ports_Save :: "'db route_db \<Rightarrow> (nat \<Rightarrow> nat) \<Rightarrow> string \<Rightarrow> 64 word \<Rightarrow> port_row list \<Rightarrow> 'db \<Rightarrow> save_error option \<times> 'db" where
  "Ports_Save repo draw upstreamId ingressId desiredPorts db =
     (if desiredPorts = [] then (None, db)
      else (case deleteUnexistingPorts repo ingressId desiredPorts db of
        Some e \<Rightarrow> (Some e, db)
      | None \<Rightarrow> create_ports repo draw (map (\<lambda>p. p\<lparr>po_UpstreamID := upstreamId, po_IngressID := ingressId\<rparr>) desiredPorts) db))"

section \<open>Upstreams, applications and ingresses\<close>

definition Upstream_BeforeSave :: "upstream_row \<Rightarrow> upstream_row" where
  "Upstream_BeforeSave u = (if us_UpstreamRouteType u = route_type_number UPSTREAM_ROUTE_TYPE_UNSPECIFIED
     then u\<lparr>us_UpstreamRouteType := route_type_number UPSTREAM_ROUTE_TYPE_PORT\<rparr> else u)"

definition Upstream_Save :: "'db route_db \<Rightarrow> upstream_row \<Rightarrow> 'db \<Rightarrow> (db_error option \<times> upstream_row) \<times> 'db" where
  "Upstream_Save repo u db =
     (let u' = Upstream_BeforeSave u; (err, db') = save_upstream repo (us_MirrorPolicy u = None) (us_Endpoints u = None) u' db
      in ((err, u'), db'))"

definition CreateApplication :: "'db route_db \<Rightarrow> string \<Rightarrow> 'db \<Rightarrow> (save_error + 64 word) \<times> 'db" where
  "CreateApplication repo name db =
     (if name = [] then (Inl Name_Required, db)
      else (case create_app repo name db of
        (Inl e, db) \<Rightarrow> (Inl (App_Creation_Failed e), db) | (Inr i, db) \<Rightarrow> (Inr i, db)))"

definition createApplicationIfNotExists :: "'db route_db \<Rightarrow> ingress_row \<Rightarrow> 'db \<Rightarrow> (save_error + ingress_row) \<times> 'db" where
  "createApplicationIfNotExists repo i db = (case find_app repo (ir_Host i) db of
     Inr app \<Rightarrow> (Inr (i\<lparr>ir_ApplicationID := app\<rparr>), db)
   | Inl ErrRecordNotFound \<Rightarrow>
       (case CreateApplication repo (ir_Host i) db of
          (Inl e, db) \<Rightarrow> (Inl e, db) | (Inr app, db) \<Rightarrow> (Inr (i\<lparr>ir_ApplicationID := app\<rparr>), db))
   | Inl e \<Rightarrow> (Inl (Db_Failed e), db))"

text \<open>The result is the id of the row.\<close>

definition Ingress_Save :: "'db route_db \<Rightarrow> ingress_row \<Rightarrow> 'db \<Rightarrow> (save_error + 64 word) \<times> 'db" where
  "Ingress_Save repo i db = (case createApplicationIfNotExists repo i db of
     (Inl e, db) \<Rightarrow> (Inl e, db)
   | (Inr i, db) \<Rightarrow> (case upsert_ingress repo ingress_assignments i db of
       (Inl e, db) \<Rightarrow> (Inl (Db_Failed e), db) | (Inr iid, db) \<Rightarrow> (Inr iid, db)))"

section \<open>The service\<close>

record v1_CreateRouteRequest =
  crr_Ingress :: "Ingress option"
  crr_Upstream :: "Upstream option"
  crr_Ports :: "Port list"

datatype route_error = Invalid string | Upstream_Failed db_error | Ingress_Failed save_error | Ports_Failed save_error

text \<open>
  \<open>CreateRoute\<close>; \<open>validate\<close> is the validation of messages, with an error text.  The name of the upstream
  is logged before the request is validated.
\<close>

definition CreateRoute ::
    "'db route_db \<Rightarrow> (v1_CreateRouteRequest \<Rightarrow> string option) \<Rightarrow> (nat \<Rightarrow> nat) \<Rightarrow> v1_CreateRouteRequest \<Rightarrow> 'db \<Rightarrow> (route_error option \<times> 'db) res" where
  "CreateRoute repo validate draw req db =
     bind_res (deref (crr_Upstream req)) (\<lambda>upstream.
       case validate req of Some e \<Rightarrow> Inr (Some (Invalid e), db)
       | None \<Rightarrow> (case Upstream_Save repo (NewUpstreamFromRequest upstream) db of
           ((Some e, u), db) \<Rightarrow> Inr (Some (Upstream_Failed e), db)
         | ((None, u), db) \<Rightarrow>
             bind_res (deref (crr_Ingress req)) (\<lambda>ingress.
               case Ingress_Save repo ((NewIngressFromProto ingress)\<lparr>ir_UpstreamID := us_ID u\<rparr>) db of
                 (Inl e, db) \<Rightarrow> Inr (Some (Ingress_Failed e), db)
               | (Inr iid, db) \<Rightarrow>
                   (case Ports_Save repo draw (us_ID u) iid (NewPortsFromProto (crr_Ports req)) db of
                      (Some e, db) \<Rightarrow> Inr (Some (Ports_Failed e), db)
                    | (None, db) \<Rightarrow> Inr (None, db)))))"

definition UpdateRoute :: "'db route_db \<Rightarrow> (Upstream option \<Rightarrow> string option) \<Rightarrow> Upstream option \<Rightarrow> 'db \<Rightarrow> (route_error option \<times> 'db) res" where
  "UpdateRoute repo validate req db =
     bind_res (deref req) (\<lambda>upstream.
       case validate req of Some e \<Rightarrow> Inr (Some (Invalid e), db)
       | None \<Rightarrow> (case Upstream_Save repo (NewUpstreamFromRequest upstream) db of
           ((Some e, u), db) \<Rightarrow> Inr (Some (Upstream_Failed e), db)
         | ((None, u), db) \<Rightarrow> Inr (None, db)))"

section \<open>Listing protections\<close>

record ListProtectionsOptions =
  lo_ProtectionMode :: "uint32 option"
  lo_ModSecMode :: "uint32 option"
  lo_IncludeApps :: "bool option"

datatype list_error = Options_Required | List_Failed db_error

definition load_ports :: "'db route_db \<Rightarrow> 'db \<Rightarrow> ingress_row \<times> upstream_row \<Rightarrow> db_error + (ingress_row \<times> upstream_row)" where
  "load_ports repo db x = (case x of (i, u) \<Rightarrow>
     bind_res (find_ports repo (ir_UpstreamID i) (ir_ID i) db) (\<lambda>ports. Inr (i, u\<lparr>us_Ports := ports\<rparr>)))"

fun map_res :: "('a \<Rightarrow> 'e + 'b) \<Rightarrow> 'a list \<Rightarrow> 'e + 'b list" where
  "map_res f [] = Inr []"
| "map_res f (x # xs) = bind_res (f x) (\<lambda>y. bind_res (map_res f xs) (\<lambda>ys. Inr (y # ys)))"

definition load_app_ports :: "'db route_db \<Rightarrow> 'db \<Rightarrow> protection_row \<times> app_row \<Rightarrow> db_error + (protection_row \<times> app_row)" where
  "load_app_ports repo db x = (case x of (p, app) \<Rightarrow>
     bind_res (map_res (load_ports repo db) (ar_Ingresses app)) (\<lambda>is. Inr (p, app\<lparr>ar_Ingresses := is\<rparr>)))"

definition ListProtections :: "'db route_db \<Rightarrow> ListProtectionsOptions option \<Rightarrow> 'db \<Rightarrow> list_error + (protection_row \<times> app_row) list" where
  "ListProtections repo options db = (case options of
     None \<Rightarrow> Inl Options_Required
   | Some opts \<Rightarrow>
       (case find_protections repo (lo_ProtectionMode opts) (lo_ModSecMode opts) (lo_IncludeApps opts = Some True) db of
          Inl e \<Rightarrow> Inl (List_Failed e)
        | Inr ps \<Rightarrow>
            if lo_IncludeApps opts = Some True
            then (case map_res (load_app_ports repo db) ps of Inl e \<Rightarrow> Inl (List_Failed e) | Inr ps \<Rightarrow> Inr ps)
            else Inr ps))"

section \<open>What is relied on of the database\<close>

text \<open>The tables as the statements see them: ports, and the rows of upstreams, ingresses and applications by their keys.\<close>

record route_tables =
  tb_ports :: "port_row list"
  tb_upstreams :: "string \<rightharpoonup> upstream_row"
  tb_ingresses :: "string \<rightharpoonup> ingress_row"
  tb_apps :: "string \<rightharpoonup> 64 word"

definition store_port :: "(port_row \<Rightarrow> port_row \<Rightarrow> port_row) \<Rightarrow> 64 word \<Rightarrow> port_row \<Rightarrow> port_row list \<Rightarrow> port_row list" where
  "store_port assign i p ports = (if port_key p \<in> port_key ` set ports
     then map (\<lambda>q. if port_key q = port_key p then assign q p else q) ports
     else ports @ [p\<lparr>po_ID := i\<rparr>])"

definition store_ingress :: "(ingress_row \<Rightarrow> ingress_row \<Rightarrow> ingress_row) \<Rightarrow> 64 word \<Rightarrow> ingress_row \<Rightarrow> (string \<rightharpoonup> ingress_row) \<Rightarrow> string \<rightharpoonup> ingress_row" where
  "store_ingress assign i new t = t(ir_Host new \<mapsto> (case t (ir_Host new) of
     None \<Rightarrow> new\<lparr>ir_ID := i\<rparr> | Some old \<Rightarrow> assign old new))"

definition store_upstream :: "bool \<Rightarrow> bool \<Rightarrow> upstream_row \<Rightarrow> (string \<rightharpoonup> upstream_row) \<Rightarrow> string \<rightharpoonup> upstream_row" where
  "store_upstream omit_mirror omit_endpoints u t = t(us_ID u \<mapsto> u\<lparr>us_Ports := [],
     us_MirrorPolicy := (if omit_mirror then Option.bind (t (us_ID u)) us_MirrorPolicy else us_MirrorPolicy u),
     us_Endpoints := (if omit_endpoints then Option.bind (t (us_ID u)) us_Endpoints else us_Endpoints u)\<rparr>)"

text \<open>
  The laws: queries find only what is there and report a row as not found only if it is not there; a
  statement that succeeds stores its row and nothing else, one that fails changes nothing; the id that
  is returned for an ingress is that of the stored row.
\<close>

definition route_db_ok :: "'db route_db \<Rightarrow> ('db \<Rightarrow> route_tables) \<Rightarrow> bool" where
  "route_db_ok repo view \<longleftrightarrow>
     (\<forall>k db p. find_port repo k db = Inr p \<longrightarrow> p \<in> set (tb_ports (view db)) \<and> port_key p = k)
   \<and> (\<forall>k db. find_port repo k db = Inl ErrRecordNotFound \<longrightarrow> k \<notin> port_key ` set (tb_ports (view db)))
   \<and> (\<forall>w db. find_proxy repo w db = Some ErrRecordNotFound \<longrightarrow> w \<notin> po_ProxyListeningPort ` set (tb_ports (view db)))
   \<and> (\<forall>u i db ps. find_ports repo u i db = Inr ps \<longrightarrow> set ps \<subseteq> {p \<in> set (tb_ports (view db)). po_UpstreamID p = u \<and> po_IngressID p = i})
   \<and> (\<forall>a p db db'. upsert_port repo a p db = (None, db') \<longrightarrow>
        (\<exists>i. view db' = (view db)\<lparr>tb_ports := store_port a i p (tb_ports (view db))\<rparr>))
   \<and> (\<forall>a p e db db'. upsert_port repo a p db = (Some e, db') \<longrightarrow> view db' = view db)
   \<and> (\<forall>m eo u db db'. save_upstream repo m eo u db = (None, db') \<longrightarrow>
        view db' = (view db)\<lparr>tb_upstreams := store_upstream m eo u (tb_upstreams (view db))\<rparr>)
   \<and> (\<forall>m eo u e db db'. save_upstream repo m eo u db = (Some e, db') \<longrightarrow> view db' = view db)
   \<and> (\<forall>n i db. find_app repo n db = Inr i \<longrightarrow> tb_apps (view db) n = Some i)
   \<and> (\<forall>n i db db'. create_app repo n db = (Inr i, db') \<longrightarrow> view db' = (view db)\<lparr>tb_apps := (tb_apps (view db))(n \<mapsto> i)\<rparr>)
   \<and> (\<forall>n e db db'. create_app repo n db = (Inl e, db') \<longrightarrow> view db' = view db)
   \<and> (\<forall>a i iid db db'. upsert_ingress repo a i db = (Inr iid, db') \<longrightarrow>
        view db' = (view db)\<lparr>tb_ingresses := store_ingress a iid i (tb_ingresses (view db))\<rparr>)
   \<and> (\<forall>i iid db db'. upsert_ingress repo ingress_assignments i db = (Inr iid, db') \<longrightarrow>
        map_option ir_ID (tb_ingresses (view db') (ir_Host i)) = Some iid)
   \<and> (\<forall>a i e db db'. upsert_ingress repo a i db = (Inl e, db') \<longrightarrow> view db' = view db)"

text \<open>The laws one by one.\<close>

lemmas laws_from_1 = route_db_ok_def [THEN iffD1]
lemmas laws_from_2 = laws_from_1 [THEN conjunct2]
lemmas laws_from_3 = laws_from_2 [THEN conjunct2]
lemmas laws_from_4 = laws_from_3 [THEN conjunct2]
lemmas laws_from_5 = laws_from_4 [THEN conjunct2]
lemmas laws_from_6 = laws_from_5 [THEN conjunct2]
lemmas laws_from_7 = laws_from_6 [THEN conjunct2]
lemmas laws_from_8 = laws_from_7 [THEN conjunct2]
lemmas laws_from_9 = laws_from_8 [THEN conjunct2]
lemmas laws_from_10 = laws_from_9 [THEN conjunct2]
lemmas laws_from_11 = laws_from_10 [THEN conjunct2]
lemmas laws_from_12 = laws_from_11 [THEN conjunct2]
lemmas laws_from_13 = laws_from_12 [THEN conjunct2]
lemmas laws_from_14 = laws_from_13 [THEN conjunct2]

lemmas port_laws =
  laws_from_1 [THEN conjunct1, rule_format]
  laws_from_2 [THEN conjunct1, rule_format]
  laws_from_3 [THEN conjunct1, rule_format]
  laws_from_5 [THEN conjunct1, rule_format]
  laws_from_6 [THEN conjunct1, rule_format]
  laws_from_4 [THEN conjunct1, rule_format]

lemmas row_laws =
  laws_from_7 [THEN conjunct1, rule_format]
  laws_from_8 [THEN conjunct1, rule_format]
  laws_from_9 [THEN conjunct1, rule_format]
  laws_from_10 [THEN conjunct1, rule_format]
  laws_from_11 [THEN conjunct1, rule_format]
  laws_from_12 [THEN conjunct1, rule_format]
  laws_from_14 [rule_format]
  laws_from_13 [THEN conjunct1, rule_format]

section \<open>Proxy ports\<close>

abbreviation is_container :: "port_row \<Rightarrow> bool" where
  "is_container p \<equiv> po_PortType p = CONTAINER_PORT"

text \<open>
  The invariant of the table of ports: keys are unique, and the container ports have proxy ports in the
  range that is given out, no two of them the same.
\<close>

definition ports_ok :: "port_row list \<Rightarrow> bool" where
  "ports_ok ports \<longleftrightarrow> distinct (map port_key ports)
     \<and> (\<forall>p \<in> set ports. is_container p \<longrightarrow> minPort \<le> unat (po_ProxyListeningPort p) \<and> unat (po_ProxyListeningPort p) < maxPort)
     \<and> distinct (map po_ProxyListeningPort (filter is_container ports))"

text \<open>Trying again does not help: the attempts all ask for the same number.\<close>

lemma allocation_attempts_Suc:
  "allocation_attempts repo w (Suc n) db = (case find_proxy repo w db of
     None \<Rightarrow> Inl No_Free_Port | Some ErrRecordNotFound \<Rightarrow> Inr w | Some e \<Rightarrow> Inl (Db_Failed e))"
  by (induction n) (auto split: option.splits db_error.splits)

lemma proxyProtAllocator_cases:
  "proxyProtAllocator repo draw db = (let w = word_of_nat (draw + minPort) in case find_proxy repo w db of
     None \<Rightarrow> Inl No_Free_Port | Some ErrRecordNotFound \<Rightarrow> Inr w | Some e \<Rightarrow> Inl (Db_Failed e))"
proof -
  have "(10 :: nat) = Suc 9" by simp
  then show ?thesis by (simp only: proxyProtAllocator_def Let_def allocation_attempts_Suc)
qed

lemma drawn_port_range:
  assumes "draw < maxPort - minPort"
  shows "minPort \<le> unat (word_of_nat (draw + minPort) :: uint32)" and "unat (word_of_nat (draw + minPort) :: uint32) < maxPort"
proof -
  have "draw + minPort < 2 ^ 32" using assms by (simp add: maxPort_def minPort_def)
  then have "unat (word_of_nat (draw + minPort) :: uint32) = draw + minPort" by (simp add: unat_of_nat del: of_nat_add)
  with assms show "minPort \<le> unat (word_of_nat (draw + minPort) :: uint32)" "unat (word_of_nat (draw + minPort) :: uint32) < maxPort"
    by simp_all
qed

text \<open>
  What is stored keeps the invariant, if its proxy port is the one that the row of its key has already,
  or a free one in the range.
\<close>

definition good_proxy :: "port_row list \<Rightarrow> port_row \<Rightarrow> bool" where
  "good_proxy ports p \<longleftrightarrow> (is_container p \<longrightarrow>
     (\<exists>q \<in> set ports. port_key q = port_key p \<and> po_ProxyListeningPort q = po_ProxyListeningPort p)
   \<or> port_key p \<notin> port_key ` set ports \<and> po_ProxyListeningPort p \<notin> po_ProxyListeningPort ` set ports
     \<and> minPort \<le> unat (po_ProxyListeningPort p) \<and> unat (po_ProxyListeningPort p) < maxPort)"

lemma port_key_ID [simp]: "port_key (p\<lparr>po_ID := i\<rparr>) = port_key p"
  by (simp add: port_key_def)

lemma port_key_assignments: "port_key q = port_key p \<Longrightarrow> port_key (port_assignments q p) = port_key p"
  by (simp add: port_key_def port_assignments_def)

lemma store_port_ok:
  assumes "ports_ok ports" and "good_proxy ports p"
  shows "ports_ok (store_port port_assignments i p ports)"
proof (cases "port_key p \<in> port_key ` set ports")
  case False
  then have "\<not> (\<exists>q \<in> set ports. port_key q = port_key p \<and> po_ProxyListeningPort q = po_ProxyListeningPort p)" by (metis image_eqI)
  with False assms show ?thesis by (auto simp: ports_ok_def store_port_def good_proxy_def)
next
  case True
  let ?f = "\<lambda>q. if port_key q = port_key p then port_assignments q p else q"
  have dk: "distinct (map port_key ports)" using assms(1) by (simp add: ports_ok_def)
  have key: "port_key (?f q) = port_key q" for q using port_key_assignments by simp
  have type: "is_container (?f q) \<longleftrightarrow> is_container q" for q by (simp add: port_assignments_def port_key_def)
  have proxy: "po_ProxyListeningPort (?f q) = po_ProxyListeningPort q" if "q \<in> set ports" "is_container q" for q
  proof (cases "port_key q = port_key p")
    case True
    with that(2) have "is_container p" by (simp add: port_key_def)
    moreover have "port_key p \<in> port_key ` set ports" using True that(1) by (metis image_eqI)
    ultimately obtain q' where "q' \<in> set ports" "port_key q' = port_key p" "po_ProxyListeningPort q' = po_ProxyListeningPort p"
      using assms(2) by (auto simp: good_proxy_def)
    with dk that(1) True have "po_ProxyListeningPort q = po_ProxyListeningPort p" by (metis distinct_map inj_onD)
    then show ?thesis by (simp add: port_assignments_def)
  qed simp
  have "filter is_container (map ?f ports) = map ?f (filter is_container ports)" by (simp add: filter_map comp_def type)
  moreover have "map po_ProxyListeningPort (map ?f (filter is_container ports)) = map po_ProxyListeningPort (filter is_container ports)"
    using proxy by simp
  moreover have "map port_key (map ?f ports) = map port_key ports" using key by simp
  moreover have "minPort \<le> unat (po_ProxyListeningPort r) \<and> unat (po_ProxyListeningPort r) < maxPort"
    if "r \<in> set (map ?f ports)" "is_container r" for r
  proof -
    from that(1) obtain q where q: "q \<in> set ports" "r = ?f q" by auto
    with type [of q] that(2) have "is_container q" by simp
    with proxy [OF q(1)] q assms(1) show ?thesis by (simp add: ports_ok_def)
  qed
  ultimately have "ports_ok (map ?f ports)" using assms(1) unfolding ports_ok_def by (metis (no_types, lifting))
  with True show ?thesis by (simp add: store_port_def)
qed

lemma allocated_proxy_good:
  assumes "route_db_ok repo view" and "ports_ok (tb_ports (view db))" and "draw < maxPort - minPort"
    and "allocateProxyListenerPort repo draw p db = Inr p'"
  shows "good_proxy (tb_ports (view db)) p'"
proof (cases "is_container p")
  case False
  with assms(4) show ?thesis by (simp add: allocateProxyListenerPort_def good_proxy_def)
next
  case True
  let ?key = "(po_PortNumber p, po_UpstreamID p, po_IngressID p, CONTAINER_PORT)"
  have key: "port_key (p\<lparr>po_ProxyListeningPort := w\<rparr>) = ?key" for w using True by (simp add: port_key_def)
  show ?thesis
  proof (cases "find_port repo ?key db")
    case (Inl e)
    with True assms(4) obtain w where w: "e = ErrRecordNotFound" "proxyProtAllocator repo draw db = Inr w"
        "p' = p\<lparr>po_ProxyListeningPort := w\<rparr>"
      by (cases e) (auto simp: allocateProxyListenerPort_def bind_res_eq_Inr_iff)
    then have "find_proxy repo w db = Some ErrRecordNotFound" "w = word_of_nat (draw + minPort)"
      by (auto simp: proxyProtAllocator_cases Let_def simp del: of_nat_add split: option.splits db_error.splits)
    with w Inl key port_laws(2,3) [OF assms(1)] drawn_port_range [OF assms(3)] show ?thesis
      by (simp add: good_proxy_def del: of_nat_add)
  next
    case (Inr q)
    from port_laws(1) [OF assms(1) this] have q: "q \<in> set (tb_ports (view db))" "port_key q = ?key" by auto
    then have "is_container q" by (simp add: port_key_def)
    with q(1) assms(2) have "minPort \<le> unat (po_ProxyListeningPort q)" by (auto simp: ports_ok_def)
    then have "po_ProxyListeningPort q \<noteq> 0" by (auto simp: minPort_def)
    with Inr True assms(4) have "p' = p\<lparr>po_ProxyListeningPort := po_ProxyListeningPort q\<rparr>"
      by (simp add: allocateProxyListenerPort_def)
    with q key show ?thesis by (auto simp: good_proxy_def)
  qed
qed

lemma create_port_ok:
  assumes "route_db_ok repo view" and "ports_ok (tb_ports (view db))" and "draw < maxPort - minPort"
    and "create_port repo draw p db = (err, db')"
  shows "ports_ok (tb_ports (view db'))"
proof (cases "allocateProxyListenerPort repo draw p db")
  case (Inl e)
  with assms(2,4) show ?thesis by (simp add: create_port_def)
next
  case (Inr p')
  obtain err' where u: "upsert_port repo port_assignments p' db = (err', db')"
    using assms(4) Inr by (auto simp: create_port_def split: prod.splits option.splits)
  show ?thesis
  proof (cases err')
    case None
    with port_laws(4) [OF assms(1)] u store_port_ok [OF assms(2) allocated_proxy_good [OF assms(1-3) Inr]]
    show ?thesis by fastforce
  next
    case (Some e)
    with port_laws(5) [OF assms(1)] u assms(2) show ?thesis by metis
  qed
qed

lemma create_ports_ok:
  assumes "route_db_ok repo view" and "\<forall>k. draw k < maxPort - minPort"
    and "ports_ok (tb_ports (view db))" and "create_ports repo draw ps db = (err, db')"
  shows "ports_ok (tb_ports (view db'))"
  using assms(2-)
proof (induction ps arbitrary: draw db)
  case (Cons p ps)
  obtain e1 db1 where c: "create_port repo (draw 0) p db = (e1, db1)" by fastforce
  with create_port_ok [OF assms(1) Cons.prems(2)] Cons.prems(1) have ok: "ports_ok (tb_ports (view db1))" by blast
  show ?case
  proof (cases e1)
    case None
    with Cons.IH [of "\<lambda>k. draw (Suc k)" db1] ok c Cons.prems show ?thesis by simp
  next
    case (Some e)
    with c Cons.prems(3) ok show ?thesis by simp
  qed
qed simp

lemma create_port_view:
  assumes "route_db_ok repo view" and "create_port repo draw p db = (err, db')"
  shows "\<exists>ports. view db' = (view db)\<lparr>tb_ports := ports\<rparr>"
proof -
  consider "db' = db" | p' err' where "upsert_port repo port_assignments p' db = (err', db')"
    using assms(2) by (auto simp: create_port_def split: sum.splits prod.splits option.splits)
  then have "view db' = view db \<or> (\<exists>ports. view db' = (view db)\<lparr>tb_ports := ports\<rparr>)"
  proof cases
    case 2
    then show ?thesis using port_laws(4,5) [OF assms(1)] by (cases err') blast+
  qed simp
  then show ?thesis by (metis route_tables.surjective route_tables.update_convs(1) old.unit.exhaust)
qed

lemma create_ports_view:
  assumes "route_db_ok repo view" and "create_ports repo draw ps db = (err, db')"
  shows "\<exists>ports. view db' = (view db)\<lparr>tb_ports := ports\<rparr>"
  using assms(2)
proof (induction ps arbitrary: draw db)
  case Nil
  then show ?case by (intro exI [of _ "tb_ports (view db)"]) simp
next
  case (Cons p ps)
  obtain e1 db1 where c: "create_port repo (draw 0) p db = (e1, db1)" by fastforce
  from create_port_view [OF assms(1) c] obtain ports where v: "view db1 = (view db)\<lparr>tb_ports := ports\<rparr>" by blast
  show ?case
  proof (cases e1)
    case None
    with Cons.IH [of "\<lambda>k. draw (Suc k)" db1] Cons.prems c v show ?thesis by auto
  next
    case (Some e)
    with Cons.prems c v show ?thesis by auto
  qed
qed

text \<open>The other tables: saving upstreams and ingresses does not touch the ports.\<close>

lemma Upstream_Save_view:
  assumes "route_db_ok repo view" and "Upstream_Save repo u db = ((err, u'), db')"
  shows "\<exists>ups. view db' = (view db)\<lparr>tb_upstreams := ups\<rparr>"
proof -
  obtain m eo where s: "save_upstream repo m eo u' db = (err, db')"
    using assms(2) by (auto simp: Upstream_Save_def Let_def split: prod.splits)
  show ?thesis
  proof (cases err)
    case None
    with row_laws(1) [OF assms(1)] s show ?thesis by blast
  next
    case (Some e)
    with row_laws(2) [OF assms(1)] s have "view db' = view db" by blast
    then show ?thesis by (intro exI [of _ "tb_upstreams (view db)"]) simp
  qed
qed

lemma createApplicationIfNotExists_view:
  assumes "route_db_ok repo view" and "createApplicationIfNotExists repo i db = (r, db')"
  shows "\<exists>apps. view db' = (view db)\<lparr>tb_apps := apps\<rparr>"
proof -
  consider "db' = db" | r' where "create_app repo (ir_Host i) db = (r', db')"
    using assms(2) by (auto simp: createApplicationIfNotExists_def CreateApplication_def split: sum.splits db_error.splits prod.splits if_splits)
  then show ?thesis
  proof cases
    case 1
    then show ?thesis by (intro exI [of _ "tb_apps (view db)"]) simp
  next
    case 2
    then show ?thesis
    proof (cases r')
      case (Inl e)
      with 2 row_laws(5) [OF assms(1)] have "view db' = view db" by blast
      then show ?thesis by (intro exI [of _ "tb_apps (view db)"]) simp
    next
      case (Inr a)
      with 2 row_laws(4) [OF assms(1)] show ?thesis by blast
    qed
  qed
qed

lemma Ingress_Save_ports:
  assumes "route_db_ok repo view" and "Ingress_Save repo i db = (r, db')"
  shows "tb_ports (view db') = tb_ports (view db)"
proof -
  obtain r1 db1 where c: "createApplicationIfNotExists repo i db = (r1, db1)" by fastforce
  from createApplicationIfNotExists_view [OF assms(1) c] have p1: "tb_ports (view db1) = tb_ports (view db)" by auto
  show ?thesis
  proof (cases r1)
    case (Inl e)
    with c assms(2) p1 show ?thesis by (simp add: Ingress_Save_def)
  next
    case (Inr i')
    obtain r2 where u: "upsert_ingress repo ingress_assignments i' db1 = (r2, db')"
      using assms(2) c Inr by (auto simp: Ingress_Save_def split: prod.splits sum.splits)
    with row_laws(6,7) [OF assms(1)] p1 show ?thesis by (cases r2) fastforce+
  qed
qed

lemma CreateRoute_ports_ok:
  assumes "route_db_ok repo view" and "\<forall>k. draw k < maxPort - minPort"
    and "ports_ok (tb_ports (view db))" and "CreateRoute repo validate draw req db = Inr (err, db')"
  shows "ports_ok (tb_ports (view db'))"
proof -
  from assms(4) obtain u where u: "crr_Upstream req = Some u" by (auto simp: CreateRoute_def bind_res_eq_Inr_iff)
  obtain e1 u1 db1 where s: "Upstream_Save repo (NewUpstreamFromRequest u) db = ((e1, u1), db1)" by (metis surj_pair)
  from Upstream_Save_view [OF assms(1) s] have p1: "tb_ports (view db1) = tb_ports (view db)" by auto
  show ?thesis
  proof (cases "validate req = None \<and> e1 = None")
    case False
    with assms(3,4) u s p1 show ?thesis by (auto simp: CreateRoute_def split: option.splits)
  next
    case True
    with assms(4) u s obtain g where g: "crr_Ingress req = Some g"
      by (auto simp: CreateRoute_def bind_res_eq_Inr_iff)
    obtain r2 db2 where i: "Ingress_Save repo ((NewIngressFromProto g)\<lparr>ir_UpstreamID := us_ID u1\<rparr>) db1 = (r2, db2)" by fastforce
    note p2 = Ingress_Save_ports [OF assms(1) i]
    show ?thesis
    proof (cases r2)
      case (Inl e)
      with assms(3,4) u s g i True p1 p2 show ?thesis by (auto simp: CreateRoute_def)
    next
      case (Inr iid)
      obtain e3 where "Ports_Save repo draw (us_ID u1) iid (NewPortsFromProto (crr_Ports req)) db2 = (e3, db')"
        using assms(4) u s g i True Inr by (auto simp: CreateRoute_def split: prod.splits option.splits)
      moreover have "ports_ok (tb_ports (view db2))" using p1 p2 assms(3) by simp
      ultimately show ?thesis
        using create_ports_ok [OF assms(1,2)] by (auto simp: Ports_Save_def split: if_splits option.splits)
    qed
  qed
qed

section \<open>What is listed\<close>

lemma map_res_mem: "map_res f xs = Inr ys \<Longrightarrow> y \<in> set ys \<Longrightarrow> \<exists>x \<in> set xs. f x = Inr y"
  by (induction xs arbitrary: ys) (auto simp: bind_res_eq_Inr_iff)

text \<open>The ports that are listed with an ingress are rows of the table of ports that belong to it.\<close>

lemma listed_ports:
  assumes "route_db_ok repo view" and "ListProtections repo (Some opts) db = Inr rows" and "lo_IncludeApps opts = Some True"
    and "(p, app) \<in> set rows" and "(i, u) \<in> set (ar_Ingresses app)" and "q \<in> set (us_Ports u)"
  shows "q \<in> set (tb_ports (view db)) \<and> po_IngressID q = ir_ID i"
proof -
  from assms(2,3) obtain ps where "map_res (load_app_ports repo db) ps = Inr rows"
    by (auto simp: ListProtections_def split: sum.splits)
  from map_res_mem [OF this assms(4)] obtain x where "load_app_ports repo db x = Inr (p, app)" by blast
  then obtain gs where "map_res (load_ports repo db) gs = Inr (ar_Ingresses app)"
    by (auto simp: load_app_ports_def bind_res_eq_Inr_iff split: prod.splits)
  from map_res_mem [OF this assms(5)] obtain y where "load_ports repo db y = Inr (i, u)" by blast
  then have "find_ports repo (ir_UpstreamID i) (ir_ID i) db = Inr (us_Ports u)"
    by (auto simp: load_ports_def bind_res_eq_Inr_iff split: prod.splits)
  from port_laws(6) [OF assms(1) this] assms(6) show ?thesis by auto
qed

text \<open>As a message, a listed protection: what the gateway and the relay get.\<close>

definition listed_message ::
    "((string \<times> endpoint_row) list \<Rightarrow> (string \<times> endpoint_row) list) \<Rightarrow> protection_row \<times> app_row \<Rightarrow> Protection" where
  "listed_message visit x = (case x of (p, app) \<Rightarrow>
     Protection_ToProto (if ar_ID app = 0 then None else Some (Application_ToProto visit app)) p)"

section \<open>Properties\<close>

text \<open>
  The states that the service can bring a database to by requests that are served one after the other.  The handlers of
  the program run concurrently, and between the query that finds a port to be free and the insertion of the row nothing
  locks the table, nor is there a unique index on the column: what two requests that overlap there can do is not covered.
\<close>

inductive served :: "'db route_db \<Rightarrow> 'db \<Rightarrow> 'db \<Rightarrow> bool" for repo db0 where
  start: "served repo db0 db0"
| create: "served repo db0 db \<Longrightarrow> \<forall>k. draw k < maxPort - minPort
    \<Longrightarrow> CreateRoute repo validate draw req db = Inr (err, db') \<Longrightarrow> served repo db0 db'"
| update: "served repo db0 db \<Longrightarrow> UpdateRoute repo validate' ureq db = Inr (err, db') \<Longrightarrow> served repo db0 db'"

lemma UpdateRoute_ports:
  assumes "route_db_ok repo view" and "UpdateRoute repo validate req db = Inr (err, db')"
  shows "tb_ports (view db') = tb_ports (view db)"
proof -
  from assms(2) obtain u where u: "req = Some u" by (auto simp: UpdateRoute_def bind_res_eq_Inr_iff)
  obtain e1 u1 db1 where s: "Upstream_Save repo (NewUpstreamFromRequest u) db = ((e1, u1), db1)" by (metis surj_pair)
  from Upstream_Save_view [OF assms(1) s] have "tb_ports (view db1) = tb_ports (view db)" by auto
  with u s assms(2) show ?thesis by (auto simp: UpdateRoute_def split: option.splits)
qed

lemma served_ports_ok:
  assumes "route_db_ok repo view" and "served repo db0 db" and "ports_ok (tb_ports (view db0))"
  shows "ports_ok (tb_ports (view db))"
  using assms(2)
proof (induction rule: served.induct)
  case (create db draw validate req err db')
  then show ?case using CreateRoute_ports_ok [OF assms(1)] by blast
next
  case (update db validate' ureq err db')
  then show ?case using UpdateRoute_ports [OF assms(1)] by metis
qed (rule assms(3))

text \<open>
  C7: The ports on which the gateway listens are given out once.  Starting without ports, after any
  sequence of requests to create and update routes, whether they succeed or fail, every container port
  has a proxy port between 49152 and 65534, and two different ones never have the same.
\<close>

theorem proxy_ports_are_unique:
  assumes "route_db_ok repo view" and "tb_ports (view db0) = []" and "served repo db0 db"
    and "p \<in> set (tb_ports (view db))" and "is_container p"
  shows "49152 \<le> unat (po_ProxyListeningPort p) \<and> unat (po_ProxyListeningPort p) < 65535
    \<and> (\<forall>q \<in> set (tb_ports (view db)). is_container q \<longrightarrow> po_ProxyListeningPort q = po_ProxyListeningPort p \<longrightarrow> q = p)"
proof -
  have "ports_ok (tb_ports (view db0))" using assms(2) by (simp add: ports_ok_def)
  from served_ports_ok [OF assms(1,3) this] have ok: "ports_ok (tb_ports (view db))" .
  then have "inj_on po_ProxyListeningPort (set (filter is_container (tb_ports (view db))))"
    by (simp add: ports_ok_def distinct_map)
  with ok assms(4,5) show ?thesis
    by (auto simp: ports_ok_def minPort_def maxPort_def inj_on_def)
qed

text \<open>A database that is its tables; ingresses get the id 1, and there is one protection.\<close>

definition tables_db :: "route_tables route_db" where
  "tables_db = \<lparr>
     find_port = (\<lambda>k t. case find (\<lambda>p. port_key p = k) (tb_ports t) of None \<Rightarrow> Inl ErrRecordNotFound | Some p \<Rightarrow> Inr p),
     find_proxy = (\<lambda>w t. if list_ex (\<lambda>p. po_ProxyListeningPort p = w) (tb_ports t) then None else Some ErrRecordNotFound),
     currentPorts = (\<lambda>i t. Inr (filter (\<lambda>p. po_IngressID p = i) (tb_ports t))),
     upsert_port = (\<lambda>a p t. (None, t\<lparr>tb_ports := store_port a (word_of_nat (Suc (length (tb_ports t)))) p (tb_ports t)\<rparr>)),
     save_upstream = (\<lambda>m eo u t. (None, t\<lparr>tb_upstreams := store_upstream m eo u (tb_upstreams t)\<rparr>)),
     find_app = (\<lambda>n t. case tb_apps t n of None \<Rightarrow> Inl ErrRecordNotFound | Some i \<Rightarrow> Inr i),
     create_app = (\<lambda>n t. (Inr 1, t\<lparr>tb_apps := (tb_apps t)(n \<mapsto> 1)\<rparr>)),
     upsert_ingress = (\<lambda>a i t. (Inr (case tb_ingresses t (ir_Host i) of None \<Rightarrow> 1 | Some old \<Rightarrow> ir_ID old),
        t\<lparr>tb_ingresses := store_ingress a 1 i (tb_ingresses t)\<rparr>)),
     find_protections = (\<lambda>m w a t. Inr (case tb_ingresses t ''shop.example'' of None \<Rightarrow> [] | Some i \<Rightarrow>
        [(new_row, \<lparr>ar_ID = ir_ApplicationID i, ar_Name = ''shop.example'', ar_Ingresses = [(i, the (tb_upstreams t (ir_UpstreamID i)))]\<rparr>)])),
     find_ports = (\<lambda>u i t. Inr (filter (\<lambda>p. po_UpstreamID p = u \<and> po_IngressID p = i) (tb_ports t)))\<rparr>"

lemma tables_db_ok: "route_db_ok tables_db (\<lambda>t. t)"
  unfolding route_db_ok_def
  by (auto simp: tables_db_def find_Some_iff find_None_iff list_ex_iff store_ingress_def ingress_assignments_def
      split: option.splits)

definition empty_tables :: route_tables where
  "empty_tables = \<lparr>tb_ports = [], tb_upstreams = Map.empty, tb_ingresses = Map.empty, tb_apps = Map.empty\<rparr>"

definition shop_route :: "string \<Rightarrow> v1_CreateRouteRequest" where
  "shop_route fqdn = \<lparr>
     crr_Ingress = Some \<lparr>ing_Name = ''shop'', ing_Namespace = ''ns'', ing_Host = ''shop.example'', ing_Port = 80, ing_Path = ''/'',
       ing_ApplicationId = 0, ing_Type = INGRESS_TYPE_NGINX, ing_DiscoveryStatus = DISCOVERY_STATUS_TYPE_SUCCESS,
       ing_DiscoveryMessage = [], ing_Upstream = None, ing_Scheme = ''http''\<rparr>,
     crr_Upstream = Some \<lparr>SvcFqdn = fqdn, Endpoints = [\<lparr>Ip = ''10.1.0.5'', NodeName = ''n1'', ep_Kind = ''Pod'', ep_Name = ''shop-0'',
         ep_Namespace = ''ns''\<rparr>], Ports = [], up_RouteType = UPSTREAM_ROUTE_TYPE_UNSPECIFIED, up_MirrorPolicy = None\<rparr>,
     crr_Ports = [\<lparr>Number = 8080, port_Name = [], ProxyListeningPort = 0, port_Description = [],
       port_Status = PORT_STATUS_TYPE_ENABLED, PortType = PORT_TYPE_CONTAINER_PORT\<rparr>]\<rparr>"

lemmas route_defs = CreateRoute_def Upstream_Save_def Upstream_BeforeSave_def Ingress_Save_def createApplicationIfNotExists_def
  CreateApplication_def Ports_Save_def deleteUnexistingPorts_def create_port_def allocateProxyListenerPort_def
  proxyProtAllocator_cases NewUpstreamFromRequest_def NewIngressFromProto_def NewPortsFromProto_def NewPortFromProto_def
  NewMirrorPolicyFromRequest_def store_port_def store_ingress_def store_upstream_def port_key_def
  CONTAINER_PORT_def minPort_def

lemma shop_route_created:
  "\<exists>t. CreateRoute tables_db (\<lambda>_. None) (\<lambda>k. 7) (shop_route ''shop.ns.svc'') empty_tables = Inr (None, t)
    \<and> map po_ProxyListeningPort (tb_ports t) = [49159] \<and> map po_PortType (tb_ports t) = [2]
    \<and> map_option ir_UpstreamID (tb_ingresses t ''shop.example'') = Some ''shop.ns.svc''
    \<and> tb_upstreams t ''shop.ns.svc'' \<noteq> None"
  by (simp add: route_defs tables_db_def shop_route_def empty_tables_def Let_def)

theorem proxy_ports_are_unique_witness:
  "\<exists>t p. served tables_db empty_tables t \<and> tb_ports t = [p] \<and> is_container p \<and> 49152 \<le> unat (po_ProxyListeningPort p)"
proof -
  from shop_route_created obtain t p where t: "CreateRoute tables_db (\<lambda>_. None) (\<lambda>k. 7) (shop_route ''shop.ns.svc'') empty_tables = Inr (None, t)"
      "tb_ports t = [p]" "is_container p" by (auto simp: CONTAINER_PORT_def)
  have "served tables_db empty_tables t"
    by (rule served.create [OF served.start _ t(1)]) (simp add: maxPort_def minPort_def)
  with proxy_ports_are_unique [OF tables_db_ok _ this, of p] t show ?thesis
    by (auto simp: empty_tables_def)
qed

text \<open>
  When the allocation of a proxy port fails for lack of a free one: exactly if the one port that was drawn
  is taken.  The ten attempts are of no use, since they all ask for this port, whatever others are free.
\<close>

theorem allocation_fails_iff_drawn_port_is_taken:
  "proxyProtAllocator repo draw db = Inl No_Free_Port \<longleftrightarrow> find_proxy repo (word_of_nat (draw + minPort)) db = None"
  by (simp add: proxyProtAllocator_cases Let_def split: option.splits db_error.splits)

text \<open>Entries of a map that is filled from a list with distinct keys.\<close>

lemma fold_put_entry:
  assumes "distinct (map k xs)" and "\<forall>x \<in> set xs. k x \<notin> fst ` set m"
  shows "fold (\<lambda>x. put_entry (k x) (v x)) xs m = m @ map (\<lambda>x. (k x, v x)) xs"
  using assms
proof (induction xs arbitrary: m)
  case (Cons x xs)
  have "filter (\<lambda>e. fst e \<noteq> k x) m = m" using Cons.prems(2) by (force simp: filter_id_conv)
  then have "put_entry (k x) (v x) m = m @ [(k x, v x)]" by (simp add: put_entry_def)
  moreover have "k y \<notin> fst ` set (m @ [(k x, v x)])" if "y \<in> set xs" for y
  proof -
    from that Cons.prems(1) have "k y \<noteq> k x" by (auto simp: image_iff)
    with that Cons.prems(2) show ?thesis by simp
  qed
  ultimately show ?case using Cons.IH [of "m @ [(k x, v x)]"] Cons.prems(1) by simp
qed simp

lemma Endpoint_roundtrip: "Endpoint_ToProto (Ip ep) (NewEndpointFromRequest ep) = ep"
  by (simp add: Endpoint_ToProto_def NewEndpointFromRequest_def)

text \<open>
  An upstream that is stored and read again has the endpoints that were sent, in some order, if their
  addresses are distinct, together with its name; and ports come back as they are stored.
\<close>

theorem endpoints_roundtrip:
  assumes "\<forall>m. mset (visit m) = mset m" and "distinct (map Ip (Endpoints u))"
  shows "mset (Endpoints (Upstream_ToProto visit (NewUpstreamFromRequest u))) = mset (Endpoints u)
    \<and> SvcFqdn (Upstream_ToProto visit (NewUpstreamFromRequest u)) = SvcFqdn u
    \<and> NewPortFromProto (Port_ToProto p) = p\<lparr>po_ID := 0, po_UpstreamID := [], po_IngressID := 0\<rparr>"
proof -
  have "mset (Endpoints (Upstream_ToProto visit (NewUpstreamFromRequest u))) = mset (Endpoints u)"
  proof (cases "Endpoints u = []")
    case False
    have "fold (\<lambda>ep. put_entry (Ip ep) (NewEndpointFromRequest ep)) (Endpoints u) []
        = map (\<lambda>ep. (Ip ep, NewEndpointFromRequest ep)) (Endpoints u)"
      using fold_put_entry [OF assms(2), of "[]" NewEndpointFromRequest] by simp
    with False assms(1) show ?thesis
      by (simp add: Upstream_ToProto_def NewUpstreamFromRequest_def mset_map image_mset.compositionality comp_def Endpoint_roundtrip)
  qed (simp add: Upstream_ToProto_def NewUpstreamFromRequest_def)
  then show ?thesis by (simp add: Upstream_ToProto_def NewUpstreamFromRequest_def NewPortFromProto_def Port_ToProto_def)
qed

theorem endpoints_roundtrip_witness:
  "\<exists>u. crr_Upstream (shop_route ''shop.ns.svc'') = Some u \<and> map Ip (Endpoints u) = [''10.1.0.5'']
    \<and> mset (Endpoints (Upstream_ToProto rev (NewUpstreamFromRequest u))) = mset (Endpoints u)"
proof -
  obtain u where u: "crr_Upstream (shop_route ''shop.ns.svc'') = Some u" "map Ip (Endpoints u) = [''10.1.0.5'']"
    by (simp add: shop_route_def)
  with endpoints_roundtrip [of rev u] show ?thesis by auto
qed

text \<open>
  Endpoints cannot be removed altogether.  An update of a stored upstream without endpoints, as it is
  sent when its service has no pods any more, leaves the old endpoints in place; and if the update does
  not say how to route, as those of the endpoints do not, the stored way is replaced by the default.
\<close>

theorem update_without_endpoints_keeps_them:
  assumes "route_db_ok repo view" and "UpdateRoute repo validate (Some u) db = Inr (None, db')" and "Endpoints u = []"
    and "tb_upstreams (view db) (SvcFqdn u) = Some old"
  shows "\<exists>row. tb_upstreams (view db') (SvcFqdn u) = Some row \<and> us_Endpoints row = us_Endpoints old
    \<and> (up_RouteType u = UPSTREAM_ROUTE_TYPE_UNSPECIFIED \<longrightarrow> us_UpstreamRouteType row = route_type_number UPSTREAM_ROUTE_TYPE_PORT)"
proof -
  let ?u = "NewUpstreamFromRequest u"
  from assms(2) have s: "save_upstream repo (us_MirrorPolicy ?u = None) (us_Endpoints ?u = None) (Upstream_BeforeSave ?u) db = (None, db')"
    by (auto simp: UpdateRoute_def Upstream_Save_def Let_def split: option.splits prod.splits)
  have "us_ID (Upstream_BeforeSave ?u) = SvcFqdn u" "us_Endpoints ?u = None"
    using assms(3) by (simp_all add: Upstream_BeforeSave_def NewUpstreamFromRequest_def)
  with row_laws(1) [OF assms(1) s] assms(4) show ?thesis
    by (auto simp: store_upstream_def Upstream_BeforeSave_def NewUpstreamFromRequest_def)
qed

theorem update_without_endpoints_keeps_them_witness:
  "\<exists>t t' row. CreateRoute tables_db (\<lambda>_. None) (\<lambda>k. 7) (shop_route ''shop.ns.svc'') empty_tables = Inr (None, t)
    \<and> UpdateRoute tables_db (\<lambda>_. None) (Some \<lparr>SvcFqdn = ''shop.ns.svc'', Endpoints = [], Ports = [],
        up_RouteType = UPSTREAM_ROUTE_TYPE_UNSPECIFIED, up_MirrorPolicy = None\<rparr>) t = Inr (None, t')
    \<and> tb_upstreams t' ''shop.ns.svc'' = Some row \<and> us_Endpoints row = Option.bind (tb_upstreams t ''shop.ns.svc'') us_Endpoints"
proof -
  let ?u = "\<lparr>SvcFqdn = ''shop.ns.svc'', Endpoints = [], Ports = [],
        up_RouteType = UPSTREAM_ROUTE_TYPE_UNSPECIFIED, up_MirrorPolicy = None\<rparr>"
  from shop_route_created obtain t old where t: "CreateRoute tables_db (\<lambda>_. None) (\<lambda>k. 7) (shop_route ''shop.ns.svc'') empty_tables = Inr (None, t)"
      "tb_upstreams t ''shop.ns.svc'' = Some old" by auto
  obtain t' where t': "UpdateRoute tables_db (\<lambda>_. None) (Some ?u) t = Inr (None, t')"
    by (simp add: UpdateRoute_def Upstream_Save_def Let_def tables_db_def)
  from update_without_endpoints_keeps_them [OF tables_db_ok t'] t(2) obtain row where
    "tb_upstreams t' ''shop.ns.svc'' = Some row" "us_Endpoints row = us_Endpoints old" by auto
  with t t' show ?thesis by auto
qed

lemma Ingress_Save_stored:
  assumes "route_db_ok repo view" and "Ingress_Save repo i db = (Inr iid, db')" and "tb_ingresses (view db) (ir_Host i) = Some old"
  shows "\<exists>i'. tb_ingresses (view db') (ir_Host i) = Some (ingress_assignments old i') \<and> ir_ID old = iid"
proof -
  obtain i' db1 where c: "createApplicationIfNotExists repo i db = (Inr i', db1)"
      "upsert_ingress repo ingress_assignments i' db1 = (Inr iid, db')"
    using assms(2) by (auto simp: Ingress_Save_def split: prod.splits sum.splits)
  then have h: "ir_Host i' = ir_Host i"
    by (auto simp: createApplicationIfNotExists_def CreateApplication_def split: sum.splits db_error.splits prod.splits if_splits)
  from createApplicationIfNotExists_view [OF assms(1) c(1)] have "tb_ingresses (view db1) = tb_ingresses (view db)" by auto
  with row_laws(6,8) [OF assms(1) c(2)] h assms(3) show ?thesis
    by (auto simp: store_ingress_def ingress_assignments_def)
qed

text \<open>
  A host stays with the upstream and the application that it was first created with.  If a route is
  created again for the host with another service, the stored ingress takes the new name, path, scheme
  and state of discovery, but still refers to the old upstream, while the ports are stored with the new
  one.
\<close>

theorem host_keeps_its_first_upstream:
  assumes "route_db_ok repo view" and "CreateRoute repo validate draw req db = Inr (None, db')"
    and "crr_Ingress req = Some ing" and "tb_ingresses (view db) (ing_Host ing) = Some old"
  shows "\<exists>row. tb_ingresses (view db') (ing_Host ing) = Some row
    \<and> ir_UpstreamID row = ir_UpstreamID old \<and> ir_ApplicationID row = ir_ApplicationID old \<and> ir_ID row = ir_ID old"
proof -
  from assms(2) obtain u where u: "crr_Upstream req = Some u" by (auto simp: CreateRoute_def bind_res_eq_Inr_iff)
  obtain e1 u1 db1 where s: "Upstream_Save repo (NewUpstreamFromRequest u) db = ((e1, u1), db1)" by (metis surj_pair)
  let ?i = "(NewIngressFromProto ing)\<lparr>ir_UpstreamID := us_ID u1\<rparr>"
  from assms(2,3) u s obtain iid db2 where i: "Ingress_Save repo ?i db1 = (Inr iid, db2)"
      "Ports_Save repo draw (us_ID u1) iid (NewPortsFromProto (crr_Ports req)) db2 = (None, db')"
    by (auto simp: CreateRoute_def split: option.splits sum.splits prod.splits)
  have host: "ir_Host ?i = ing_Host ing" by (simp add: NewIngressFromProto_def)
  from Upstream_Save_view [OF assms(1) s] assms(4) host have "tb_ingresses (view db1) (ir_Host ?i) = Some old" by auto
  from Ingress_Save_stored [OF assms(1) i(1) this] host obtain i' where
    "tb_ingresses (view db2) (ing_Host ing) = Some (ingress_assignments old i')" by auto
  moreover have "tb_ingresses (view db') = tb_ingresses (view db2)"
    using create_ports_view [OF assms(1)] i(2) by (fastforce simp: Ports_Save_def split: if_splits option.splits)
  ultimately show ?thesis by (simp add: ingress_assignments_def)
qed

theorem host_keeps_its_first_upstream_witness:
  "\<exists>t t' row. CreateRoute tables_db (\<lambda>_. None) (\<lambda>k. 7) (shop_route ''shop.ns.svc'') empty_tables = Inr (None, t)
    \<and> CreateRoute tables_db (\<lambda>_. None) (\<lambda>k. 8) (shop_route ''other.ns.svc'') t = Inr (None, t')
    \<and> tb_ingresses t' ''shop.example'' = Some row \<and> ir_UpstreamID row = ''shop.ns.svc''"
proof -
  from shop_route_created obtain t old where
    t: "CreateRoute tables_db (\<lambda>_. None) (\<lambda>k. 7) (shop_route ''shop.ns.svc'') empty_tables = Inr (None, t)"
      "tb_ingresses t ''shop.example'' = Some old" "ir_UpstreamID old = ''shop.ns.svc''"
    "map po_ProxyListeningPort (tb_ports t) = [49159]" by auto
  obtain ing where ing: "crr_Ingress (shop_route ''other.ns.svc'') = Some ing" "ing_Host ing = ''shop.example''"
    by (simp add: shop_route_def)
  obtain t' where t': "CreateRoute tables_db (\<lambda>_. None) (\<lambda>k. 8) (shop_route ''other.ns.svc'') t = Inr (None, t')"
    using t(1)
    by (auto simp: route_defs tables_db_def shop_route_def empty_tables_def Let_def)
  from t(2) ing(2) have "tb_ingresses t (ing_Host ing) = Some old" by simp
  from host_keeps_its_first_upstream [OF tables_db_ok t' ing(1) this] ing(2) t(1,3) t' show ?thesis by auto
qed

end
