(* ===== verification/Apisrv_State.thy ===== *)
theory Apisrv_State
  imports Apisrv_Route
begin

text \<open>
  The version of the protections, which gateway and relay controllers poll: the repository and the service
  that report it (\<^verbatim>\<open>apisrv/internal/models/stateversion.go\<close>, \<^verbatim>\<open>apisrv/pkg/apiserver/stateversion.go\<close>) and the triggers
  of the database that renew it (\<^verbatim>\<open>models/assets/sql/triggers.sql\<close>).  A database with triggers is one without
  them together with the table of versions; it obeys the laws of the one without.  The lemmas show that
  the comparison of arrays in SQL is equality of sets, that an unchanged version means unchanged ports and
  addresses, and which changes renew it.
\<close>

section \<open>SQL expressions\<close>

text \<open>Values may be NULL, here \<open>None\<close>; a comparison with NULL is NULL; a branch of CASE is taken if its condition is true.\<close>

definition sql_neq :: "'a option \<Rightarrow> 'a option \<Rightarrow> bool option" where
  "sql_neq x y = (case (x, y) of (Some a, Some b) \<Rightarrow> Some (a \<noteq> b) | _ \<Rightarrow> None)"

definition array_length :: "'a list \<Rightarrow> nat option" where
  "array_length arr = (if arr = [] then None else Some (length arr))"

text \<open>The bounds of an array of one dimension, as a text.\<close>

definition array_dims :: "'a list \<Rightarrow> string option" where
  "array_dims arr = map_option (\<lambda>n. ''[1:'' @ dec_nat n @ '']'') (array_length arr)"

definition full_join :: "'a list \<Rightarrow> 'a list \<Rightarrow> ('a option \<times> 'a option) list" where
  "full_join arr1 arr2 = [(Some a, Some b). a \<leftarrow> arr1, b \<leftarrow> arr2, a = b]
     @ [(Some a, None). a \<leftarrow> arr1, a \<notin> set arr2] @ [(None, Some b). b \<leftarrow> arr2, b \<notin> set arr1]"

text \<open>
  The arrays that the triggers compare are the keys of JSON objects: they have one dimension, and no element is NULL.
  (For an element that is NULL the function would answer that the arrays differ, since NULL equals nothing.)
\<close>

definition array_compare_as_set :: "'a list \<Rightarrow> 'a list \<Rightarrow> bool" where
  "array_compare_as_set arr1 arr2 =
     (if sql_neq (array_dims arr1) (array_dims arr2) = Some True then False
      else if sql_neq (array_length arr1) (array_length arr2) = Some True then False
      else \<not> list_ex (\<lambda>(a, b). a = None \<or> b = None) (full_join arr1 arr2))"

section \<open>The table of versions and the triggers\<close>

text \<open>The rows by their type, and how many identifiers have been generated; \<open>uuid k\<close> is the \<open>k\<close>-th one.\<close>

record versions =
  vs_rows :: "uint32 \<rightharpoonup> string"
  vs_drawn :: nat

definition STATE_TYPE_ID_PROTECTION :: uint32 where
  "STATE_TYPE_ID_PROTECTION = 1"

text \<open>The statement that all triggers run: nothing happens if there is no row.\<close>

definition renew_version :: "(nat \<Rightarrow> string) \<Rightarrow> versions \<Rightarrow> versions" where
  "renew_version uuid vs = (case vs_rows vs STATE_TYPE_ID_PROTECTION of
     None \<Rightarrow> vs
   | Some _ \<Rightarrow> \<lparr>vs_rows = (vs_rows vs)(STATE_TYPE_ID_PROTECTION \<mapsto> uuid (vs_drawn vs)), vs_drawn = Suc (vs_drawn vs)\<rparr>)"

text \<open>Two objects are distinct if they have different entries, or one is NULL and the other is not.\<close>

definition jsonb_distinct :: "('k \<times> 'v) list option \<Rightarrow> ('k \<times> 'v) list option \<Rightarrow> bool" where
  "jsonb_distinct x y \<longleftrightarrow> map_option set x \<noteq> map_option set y"

definition object_keys :: "('k \<times> 'v) list option \<Rightarrow> 'k list" where
  "object_keys x = (case x of None \<Rightarrow> [] | Some kvs \<Rightarrow> map fst kvs)"

definition upstreams_update_trigger :: "(nat \<Rightarrow> string) \<Rightarrow> upstream_row \<Rightarrow> upstream_row \<Rightarrow> versions \<Rightarrow> versions" where
  "upstreams_update_trigger uuid old new vs =
     (let vs = (if jsonb_distinct (us_Endpoints old) (us_Endpoints new)
            \<and> \<not> array_compare_as_set (object_keys (us_Endpoints old)) (object_keys (us_Endpoints new))
          then renew_version uuid vs else vs)
      in if us_ID old \<noteq> us_ID new then renew_version uuid vs else vs)"

text \<open>The database of routes with its triggers: after an update of an upstream and after the insertion of a port.\<close>

definition triggered :: "(nat \<Rightarrow> string) \<Rightarrow> ('db \<Rightarrow> route_tables) \<Rightarrow> 'db route_db \<Rightarrow> ('db \<times> versions) route_db" where
  "triggered uuid view repo = \<lparr>
     find_port = (\<lambda>k s. find_port repo k (fst s)),
     find_proxy = (\<lambda>w s. find_proxy repo w (fst s)),
     currentPorts = (\<lambda>i s. currentPorts repo i (fst s)),
     upsert_port = (\<lambda>a p s. case upsert_port repo a p (fst s) of
        (Some e, db') \<Rightarrow> (Some e, (db', snd s))
      | (None, db') \<Rightarrow> (None, (db', if port_key p \<in> port_key ` set (tb_ports (view (fst s))) then snd s else renew_version uuid (snd s)))),
     save_upstream = (\<lambda>m eo u s. case save_upstream repo m eo u (fst s) of
        (Some e, db') \<Rightarrow> (Some e, (db', snd s))
      | (None, db') \<Rightarrow> (None, (db', case (tb_upstreams (view (fst s)) (us_ID u), tb_upstreams (view db') (us_ID u)) of
            (Some old, Some new) \<Rightarrow> upstreams_update_trigger uuid old new (snd s)
          | _ \<Rightarrow> snd s))),
     find_app = (\<lambda>n s. find_app repo n (fst s)),
     create_app = (\<lambda>n s. apsnd (\<lambda>db'. (db', snd s)) (create_app repo n (fst s))),
     upsert_ingress = (\<lambda>a i s. apsnd (\<lambda>db'. (db', snd s)) (upsert_ingress repo a i (fst s))),
     find_protections = (\<lambda>m w a s. find_protections repo m w a (fst s)),
     find_ports = (\<lambda>u i s. find_ports repo u i (fst s))\<rparr>"

text \<open>The table of protections with its trigger, for each row that is inserted or updated.\<close>

definition triggered_protections :: "(nat \<Rightarrow> string) \<Rightarrow> 'db protection_db \<Rightarrow> ('db \<times> versions) protection_db" where
  "triggered_protections uuid repo = \<lparr>
     db_select = (\<lambda>i s. db_select repo i (fst s)),
     db_First = (\<lambda>i a s. db_First repo i a (fst s)),
     db_Updates = (\<lambda>p s. case db_Updates repo p (fst s) of
        (Inl e, db') \<Rightarrow> (Inl e, (db', snd s))
      | (Inr rows, db') \<Rightarrow> (Inr rows, (db', (renew_version uuid ^^ rows) (snd s)))),
     db_Save = (\<lambda>p s. case db_Save repo p (fst s) of
        (Some e, db') \<Rightarrow> (Some e, (db', snd s)) | (None, db') \<Rightarrow> (None, (db', renew_version uuid (snd s)))),
     db_Create = (\<lambda>p s. case db_Create repo p (fst s) of
        (Inl e, db') \<Rightarrow> (Inl e, (db', snd s)) | (Inr row, db') \<Rightarrow> (Inr row, (db', renew_version uuid (snd s))))\<rparr>"

section \<open>Repository and service\<close>

definition GetVersionByTypeId :: "uint32 \<Rightarrow> versions \<Rightarrow> db_error + string" where
  "GetVersionByTypeId typeId vs = (case vs_rows vs typeId of None \<Rightarrow> Inl ErrRecordNotFound | Some v \<Rightarrow> Inr v)"

definition UpdateProtectionVersion :: "(nat \<Rightarrow> string) \<Rightarrow> versions \<Rightarrow> versions" where
  "UpdateProtectionVersion uuid vs =
     \<lparr>vs_rows = (vs_rows vs)(STATE_TYPE_ID_PROTECTION \<mapsto> uuid (vs_drawn vs)), vs_drawn = Suc (vs_drawn vs)\<rparr>"

text \<open>The service: the identifier, or \<open>None\<close> for an internal error.\<close>

definition GetStateVersion :: "uint32 \<Rightarrow> versions \<Rightarrow> string option" where
  "GetStateVersion typeId vs = (case GetVersionByTypeId typeId vs of Inl err \<Rightarrow> None | Inr v \<Rightarrow> Some v)"

section \<open>Comparison of arrays\<close>

lemma full_join_complete: "list_ex (\<lambda>(a, b). a = None \<or> b = None) (full_join arr1 arr2) \<longleftrightarrow> set arr1 \<noteq> set arr2"
  by (auto simp: full_join_def list_ex_iff)

lemma array_dims_neq [simp]: "sql_neq (array_dims arr1) (array_dims arr2) = sql_neq (array_length arr1) (array_length arr2)"
  by (auto simp: array_dims_def sql_neq_def split: option.splits)

lemma array_compare_as_set_iff:
  assumes "distinct arr1" and "distinct arr2"
  shows "array_compare_as_set arr1 arr2 \<longleftrightarrow> set arr1 = set arr2"
proof -
  have "length arr1 = length arr2" if "set arr1 = set arr2"
    using that assms by (metis distinct_card)
  then show ?thesis
    by (auto simp: array_compare_as_set_def full_join_complete sql_neq_def array_dims_def array_length_def)
qed

text \<open>
  C34: The SQL function that compares the addresses of an upstream decides, for arrays without repeated
  elements, whether they have the same elements; the tests of the dimensions, which are NULL for an empty array,
  do not spoil this.
\<close>

theorem array_compare_as_set_correct:
  assumes "distinct arr1" and "distinct arr2"
  shows "array_compare_as_set arr1 arr2 \<longleftrightarrow> set arr1 = set arr2"
  using assms by (rule array_compare_as_set_iff)

theorem array_compare_as_set_correct_witness:
  "array_compare_as_set [''10.1.0.5'', ''10.1.0.6''] [''10.1.0.6'', ''10.1.0.5''] \<and> \<not> array_compare_as_set [] [''10.1.0.5'']"
  using array_compare_as_set_correct [of "[''10.1.0.5'', ''10.1.0.6'']" "[''10.1.0.6'', ''10.1.0.5'']"]
    array_compare_as_set_correct [of "[]" "[''10.1.0.5'']"]
  by auto

text \<open>In one direction nothing is needed: arrays that count as equal have the same elements.\<close>

lemma array_compare_as_set_sound: "array_compare_as_set arr1 arr2 \<Longrightarrow> set arr1 = set arr2"
  by (auto simp: array_compare_as_set_def full_join_complete split: if_splits)

lemma same_object_keys: "\<not> jsonb_distinct x y \<Longrightarrow> set (object_keys x) = set (object_keys y)"
  by (cases x; cases y) (simp_all add: jsonb_distinct_def object_keys_def)

section \<open>What statements do to ports and addresses\<close>

text \<open>The addresses of an upstream.\<close>

definition addresses :: "upstream_row \<Rightarrow> string set" where
  "addresses u = set (object_keys (us_Endpoints u))"

definition same_addresses :: "(string \<rightharpoonup> upstream_row) \<Rightarrow> (string \<rightharpoonup> upstream_row) \<Rightarrow> bool" where
  "same_addresses t t' \<longleftrightarrow> (\<forall>i old. t i = Some old \<longrightarrow> (\<exists>new. t' i = Some new \<and> addresses new = addresses old))"

lemma same_addresses_refl [simp]: "same_addresses t t"
  by (simp add: same_addresses_def)

lemma same_addresses_trans: "same_addresses t t' \<Longrightarrow> same_addresses t' t'' \<Longrightarrow> same_addresses t t''"
  by (fastforce simp: same_addresses_def)

text \<open>The keys of the ports and the addresses of the upstreams stay as they are.\<close>

definition kept :: "route_tables \<Rightarrow> route_tables \<Rightarrow> bool" where
  "kept t t' \<longleftrightarrow> port_key ` set (tb_ports t') = port_key ` set (tb_ports t) \<and> same_addresses (tb_upstreams t) (tb_upstreams t')"

lemma kept_refl [simp]: "kept t t"
  by (simp add: kept_def)

lemma kept_trans: "kept t t' \<Longrightarrow> kept t' t'' \<Longrightarrow> kept t t''"
  using same_addresses_trans by (auto simp: kept_def)

text \<open>The current version is none of those that are still to come.\<close>

definition fresh :: "(nat \<Rightarrow> string) \<Rightarrow> versions \<Rightarrow> bool" where
  "fresh uuid vs \<longleftrightarrow> (\<exists>v. vs_rows vs STATE_TYPE_ID_PROTECTION = Some v \<and> v \<notin> uuid ` {vs_drawn vs..})"

text \<open>
  What a request may do: either it leaves the version, the keys of the ports and the addresses of the known
  upstreams as they are, or the version becomes one of the identifiers generated since.
\<close>

definition noticed :: "(nat \<Rightarrow> string) \<Rightarrow> ('db \<Rightarrow> route_tables) \<Rightarrow> 'db route_db \<Rightarrow> 'db \<times> versions \<Rightarrow> 'db \<times> versions \<Rightarrow> bool" where
  "noticed uuid view repo s s' \<longleftrightarrow> (route_db_ok repo view \<longrightarrow> inj uuid \<longrightarrow> fresh uuid (snd s) \<longrightarrow> fresh uuid (snd s') \<and>
     (snd s' = snd s \<and> kept (view (fst s)) (view (fst s'))
      \<or> vs_drawn (snd s) < vs_drawn (snd s')
        \<and> vs_rows (snd s') STATE_TYPE_ID_PROTECTION \<in> Some ` uuid ` {vs_drawn (snd s)..<vs_drawn (snd s')}))"

lemma noticed_refl: "noticed uuid view repo s s"
  by (simp add: noticed_def)

lemma noticed_trans:
  assumes "noticed uuid view repo s t" and "noticed uuid view repo t u"
  shows "noticed uuid view repo s u"
proof (cases "route_db_ok repo view \<and> inj uuid \<and> fresh uuid (snd s)")
  case True
  with assms(1) have "fresh uuid (snd t)" unfolding noticed_def by blast
  with True assms show ?thesis unfolding noticed_def by (auto intro: kept_trans)
qed (auto simp: noticed_def)

lemma renewed:
  assumes "inj uuid" and "fresh uuid vs"
  shows "fresh uuid (renew_version uuid vs)" and "vs_drawn (renew_version uuid vs) = Suc (vs_drawn vs)"
    and "vs_rows (renew_version uuid vs) STATE_TYPE_ID_PROTECTION = Some (uuid (vs_drawn vs))"
  using assms by (auto simp: renew_version_def fresh_def inj_eq)

lemma noticed_renewed: "snd s' = renew_version uuid (snd s) \<Longrightarrow> noticed uuid view repo s s'"
  by (auto simp: noticed_def renewed)

text \<open>
  Requests are sequences of statements: a reflexive and transitive relation that all statements satisfy is
  satisfied by every request, whether it succeeds or fails half-way.
\<close>

locale route_statements =
  fixes repo :: "'db route_db" and R :: "'db \<Rightarrow> 'db \<Rightarrow> bool"
  assumes R_refl: "R db db"
    and R_trans: "R db1 db2 \<Longrightarrow> R db2 db3 \<Longrightarrow> R db1 db3"
    and R_port: "upsert_port repo port_assignments p db = (err, db') \<Longrightarrow> R db db'"
    and R_upstream: "save_upstream repo m eo u db = (err, db') \<Longrightarrow> R db db'"
    and R_app: "create_app repo n db = (r, db') \<Longrightarrow> R db db'"
    and R_ingress: "upsert_ingress repo ingress_assignments i db = (ri, db') \<Longrightarrow> R db db'"
begin

lemma create_ports: "create_ports repo draw ps db = (err, db') \<Longrightarrow> R db db'"
proof (induction ps arbitrary: draw db)
  case (Cons p ps)
  obtain e1 db1 where c: "create_port repo (draw 0) p db = (e1, db1)" by fastforce
  then have "R db db1"
    by (auto simp: create_port_def intro: R_refl R_port split: sum.splits prod.splits option.splits)
  moreover have "R db1 db'" using Cons.prems c by (cases e1) (auto intro: Cons.IH R_refl)
  ultimately show ?case by (rule R_trans)
qed (simp add: R_refl)

lemma Ports_Save: "Ports_Save repo draw u i ps db = (err, db') \<Longrightarrow> R db db'"
  by (auto simp: Ports_Save_def intro: R_refl create_ports split: if_splits option.splits)

lemma Upstream_Save: "Upstream_Save repo u db = (r, db') \<Longrightarrow> R db db'"
  by (auto simp: Upstream_Save_def Let_def intro: R_upstream split: prod.splits)

lemma createApplicationIfNotExists: "createApplicationIfNotExists repo i db = (r, db') \<Longrightarrow> R db db'"
  by (auto simp: createApplicationIfNotExists_def CreateApplication_def intro: R_refl R_app
      split: sum.splits db_error.splits prod.splits if_splits)

lemma Ingress_Save:
  assumes "Ingress_Save repo i db = (r, db')"
  shows "R db db'"
proof -
  obtain r1 db1 where c: "createApplicationIfNotExists repo i db = (r1, db1)" by fastforce
  have "R db1 db'"
    using assms c by (cases r1) (auto simp: Ingress_Save_def intro: R_refl R_ingress split: prod.splits sum.splits)
  with createApplicationIfNotExists [OF c] show ?thesis by (rule R_trans)
qed

lemma UpdateRoute: "UpdateRoute repo validate req db = Inr (err, db') \<Longrightarrow> R db db'"
  by (auto simp: UpdateRoute_def bind_res_eq_Inr_iff intro: R_refl Upstream_Save split: option.splits prod.splits)

lemma CreateRoute:
  assumes "CreateRoute repo validate draw req db = Inr (err, db')"
  shows "R db db'"
proof -
  from assms obtain u where u: "crr_Upstream req = Some u" by (auto simp: CreateRoute_def bind_res_eq_Inr_iff)
  obtain e1 u1 db1 where s: "Upstream_Save repo (NewUpstreamFromRequest u) db = ((e1, u1), db1)" by (metis surj_pair)
  show ?thesis
  proof (cases "validate req = None \<and> e1 = None")
    case False
    with assms u s Upstream_Save [OF s] show ?thesis by (auto simp: CreateRoute_def R_refl split: option.splits)
  next
    case True
    with assms u s obtain g where g: "crr_Ingress req = Some g" by (auto simp: CreateRoute_def bind_res_eq_Inr_iff)
    obtain r2 db2 where i: "Ingress_Save repo ((NewIngressFromProto g)\<lparr>ir_UpstreamID := us_ID u1\<rparr>) db1 = (r2, db2)" by fastforce
    have "R db2 db'"
      using assms u s g i True
      by (cases r2) (auto simp: CreateRoute_def intro: R_refl Ports_Save split: prod.splits option.splits)
    with Upstream_Save [OF s] Ingress_Save [OF i] show ?thesis by (blast intro: R_trans)
  qed
qed

lemma served: "served repo db0 db \<Longrightarrow> R db0 db"
proof (induction rule: served.induct)
  case (create db draw validate req err db')
  then show ?case using CreateRoute R_trans by blast
next
  case (update db validate' ureq err db')
  then show ?case using UpdateRoute R_trans by blast
qed (rule R_refl)

end

text \<open>Statements on a database with triggers are noticed.\<close>

lemma store_port_keys:
  assumes "port_key p \<in> port_key ` set ports"
  shows "port_key ` set (store_port port_assignments i p ports) = port_key ` set ports"
proof -
  have "port_key (if port_key q = port_key p then port_assignments q p else q) = port_key q" for q
    by (simp add: port_key_assignments)
  then have "map port_key (store_port port_assignments i p ports) = map port_key ports"
    using assms by (simp add: store_port_def)
  then show ?thesis by (metis set_map)
qed

lemma noticed_port:
  assumes "upsert_port (triggered uuid view repo) port_assignments p s = (err, s')"
  shows "noticed uuid view repo s s'"
proof (cases "route_db_ok repo view")
  case ok: True
  obtain e db' where u: "upsert_port repo port_assignments p (fst s) = (e, db')" by fastforce
  show ?thesis
  proof (cases e)
    case (Some x)
    with port_laws(5) [OF ok] u have "view db' = view (fst s)" by blast
    with assms u Some show ?thesis by (auto simp: triggered_def noticed_def)
  next
    case None
    with port_laws(4) [OF ok] u obtain i where v: "tb_ports (view db') = store_port port_assignments i p (tb_ports (view (fst s)))"
        "tb_upstreams (view db') = tb_upstreams (view (fst s))" by fastforce
    show ?thesis
    proof (cases "port_key p \<in> port_key ` set (tb_ports (view (fst s)))")
      case True
      with assms u None have "s' = (db', snd s)" by (auto simp: triggered_def)
      with v store_port_keys [OF True] show ?thesis by (simp add: noticed_def kept_def)
    next
      case False
      with assms u None have "snd s' = renew_version uuid (snd s)" by (auto simp: triggered_def)
      then show ?thesis by (rule noticed_renewed)
    qed
  qed
qed (simp add: noticed_def)

text \<open>The trigger of the upstreams renews the version, once or twice, or the addresses are the same.\<close>

lemma upstreams_update_trigger_cases:
  obtains (same) "upstreams_update_trigger uuid old new vs = vs" "addresses new = addresses old"
  | (once) "upstreams_update_trigger uuid old new vs = renew_version uuid vs"
  | (twice) "upstreams_update_trigger uuid old new vs = renew_version uuid (renew_version uuid vs)"
proof (cases "jsonb_distinct (us_Endpoints old) (us_Endpoints new)
    \<and> \<not> array_compare_as_set (object_keys (us_Endpoints old)) (object_keys (us_Endpoints new))")
  case True
  then show ?thesis using once twice by (cases "us_ID old = us_ID new") (simp_all add: upstreams_update_trigger_def)
next
  case False
  have "addresses new = addresses old"
  proof (cases "jsonb_distinct (us_Endpoints old) (us_Endpoints new)")
    case True
    with False array_compare_as_set_sound show ?thesis by (metis addresses_def)
  next
    case False
    then show ?thesis by (simp add: addresses_def same_object_keys)
  qed
  moreover have "upstreams_update_trigger uuid old new vs = (if us_ID old \<noteq> us_ID new then renew_version uuid vs else vs)"
    using False by (auto simp: upstreams_update_trigger_def Let_def)
  ultimately show ?thesis using same once by (cases "us_ID old = us_ID new") simp_all
qed

lemma noticed_upstream:
  assumes "save_upstream (triggered uuid view repo) m eo u s = (err, s')"
  shows "noticed uuid view repo s s'"
proof (cases "route_db_ok repo view")
  case ok: True
  obtain e db' where w: "save_upstream repo m eo u (fst s) = (e, db')" by fastforce
  show ?thesis
  proof (cases e)
    case (Some x)
    with row_laws(2) [OF ok] w have "view db' = view (fst s)" by blast
    with assms w Some show ?thesis by (auto simp: triggered_def noticed_def)
  next
    case None
    with row_laws(1) [OF ok] w have v: "tb_ports (view db') = tb_ports (view (fst s))"
        "\<forall>i. i \<noteq> us_ID u \<longrightarrow> tb_upstreams (view db') i = tb_upstreams (view (fst s)) i"
      by (auto simp: store_upstream_def)
    obtain new where new: "tb_upstreams (view db') (us_ID u) = Some new"
      using row_laws(1) [OF ok] w None by (fastforce simp: store_upstream_def)
    show ?thesis
    proof (cases "tb_upstreams (view (fst s)) (us_ID u)")
      case no: None
      then have "same_addresses (tb_upstreams (view (fst s))) (tb_upstreams (view db'))"
        using v(2) unfolding same_addresses_def by (metis option.distinct(1))
      with assms w None no v(1) show ?thesis by (auto simp: triggered_def noticed_def kept_def)
    next
      case (Some old)
      with assms w None new have s': "s' = (db', upstreams_update_trigger uuid old new (snd s))"
        by (auto simp: triggered_def)
      show ?thesis
      proof (cases rule: upstreams_update_trigger_cases [of uuid old new "snd s"])
        case same
        then have "same_addresses (tb_upstreams (view (fst s))) (tb_upstreams (view db'))"
          using v(2) Some new unfolding same_addresses_def by (metis option.inject)
        with s' same v(1) show ?thesis by (simp add: noticed_def kept_def)
      next
        case once
        with s' show ?thesis by (intro noticed_renewed) simp
      next
        case twice
        have "noticed uuid view repo s (db', renew_version uuid (snd s))" by (rule noticed_renewed) simp
        moreover have "noticed uuid view repo (db', renew_version uuid (snd s)) s'"
          using s' twice by (intro noticed_renewed) simp
        ultimately show ?thesis by (rule noticed_trans)
      qed
    qed
  qed
qed (simp add: noticed_def)

lemma noticed_app:
  assumes "create_app (triggered uuid view repo) n s = (r, s')"
  shows "noticed uuid view repo s s'"
proof (cases "route_db_ok repo view")
  case ok: True
  obtain r1 db' where c: "create_app repo n (fst s) = (r1, db')" by fastforce
  with row_laws(4,5) [OF ok] have "tb_ports (view db') = tb_ports (view (fst s))" "tb_upstreams (view db') = tb_upstreams (view (fst s))"
    by (cases r1; fastforce)+
  with assms c show ?thesis by (auto simp: triggered_def noticed_def kept_def)
qed (simp add: noticed_def)

lemma noticed_ingress:
  assumes "upsert_ingress (triggered uuid view repo) ingress_assignments i s = (r, s')"
  shows "noticed uuid view repo s s'"
proof (cases "route_db_ok repo view")
  case ok: True
  obtain r1 db' where c: "upsert_ingress repo ingress_assignments i (fst s) = (r1, db')" by fastforce
  with row_laws(6,7) [OF ok] have "tb_ports (view db') = tb_ports (view (fst s))" "tb_upstreams (view db') = tb_upstreams (view (fst s))"
    by (cases r1; fastforce)+
  with assms c show ?thesis by (auto simp: triggered_def noticed_def kept_def)
qed (simp add: noticed_def)

interpretation trig: route_statements "triggered uuid view repo" "noticed uuid view repo"
proof (standard, goal_cases)
  case 1
  show ?case by (rule noticed_refl)
next
  case (2 s1 s2 s3)
  then show ?case by (rule noticed_trans)
next
  case (3 p s err s')
  then show ?case by (rule noticed_port)
next
  case (4 m eo u s err s')
  then show ?case by (rule noticed_upstream)
next
  case (5 n s r s')
  then show ?case by (rule noticed_app)
next
  case (6 i s r s')
  then show ?case by (rule noticed_ingress)
qed

section \<open>Properties\<close>

text \<open>A database with triggers obeys the laws of the one without.\<close>

lemma triggered_ok:
  assumes "route_db_ok repo view"
  shows "route_db_ok (triggered uuid view repo) (\<lambda>s. view (fst s))"
  unfolding route_db_ok_def
proof (intro conjI allI impI, goal_cases)
  case (6 a p s s')
  then obtain db' where "upsert_port repo a p (fst s) = (None, db')" "fst s' = db'"
    by (auto simp: triggered_def split: prod.splits option.splits)
  with port_laws(4) [OF assms] show ?case by blast
next
  case (7 a p e s s')
  then obtain db' where "upsert_port repo a p (fst s) = (Some e, db')" "fst s' = db'"
    by (auto simp: triggered_def split: prod.splits option.splits)
  with port_laws(5) [OF assms] show ?case by blast
next
  case (8 m eo u s s')
  then obtain db' where "save_upstream repo m eo u (fst s) = (None, db')" "fst s' = db'"
    by (auto simp: triggered_def split: prod.splits option.splits)
  with row_laws(1) [OF assms] show ?case by blast
next
  case (9 m eo u e s s')
  then obtain db' where "save_upstream repo m eo u (fst s) = (Some e, db')" "fst s' = db'"
    by (auto simp: triggered_def split: prod.splits option.splits)
  with row_laws(2) [OF assms] show ?case by blast
next
  case (11 n i s s')
  then show ?case using row_laws(4) [OF assms] by (cases "create_app repo n (fst s)") (auto simp: triggered_def)
next
  case (12 n e s s')
  then show ?case using row_laws(5) [OF assms] by (cases "create_app repo n (fst s)") (auto simp: triggered_def)
next
  case (13 a i iid s s')
  then show ?case using row_laws(6) [OF assms] by (cases "upsert_ingress repo a i (fst s)") (auto simp: triggered_def)
next
  case (14 i iid s s')
  then show ?case using row_laws(8) [OF assms]
    by (cases "upsert_ingress repo ingress_assignments i (fst s)") (auto simp: triggered_def)
next
  case (15 a i e s s')
  then show ?case using row_laws(7) [OF assms] by (cases "upsert_ingress repo a i (fst s)") (auto simp: triggered_def)
qed (use port_laws(1,2,3,6) [OF assms] row_laws(3) [OF assms] in \<open>auto simp: triggered_def\<close>)

text \<open>
  C9: What an unchanged version means.  Let the API server serve any requests to create and update routes, over a
  database with its triggers, starting with a version that is none of the identifiers still to
  be generated.  If the version is then the same, there are the same ports, by number, type, upstream and
  ingress, and every upstream that was known has the addresses that it had: a poller that compares versions
  misses none of these changes.
\<close>

theorem unchanged_version_means_same_addresses:
  assumes "route_db_ok repo view" and "inj uuid" and "fresh uuid vs0"
    and "served (triggered uuid view repo) (db0, vs0) (db, vs)"
    and "GetStateVersion STATE_TYPE_ID_PROTECTION vs = GetStateVersion STATE_TYPE_ID_PROTECTION vs0"
  shows "port_key ` set (tb_ports (view db)) = port_key ` set (tb_ports (view db0))
    \<and> (\<forall>i old. tb_upstreams (view db0) i = Some old \<longrightarrow> (\<exists>new. tb_upstreams (view db) i = Some new \<and> addresses new = addresses old))"
proof -
  from trig.served [OF assms(4)] have "noticed uuid view repo (db0, vs0) (db, vs)" .
  with assms(1-3) have "vs = vs0 \<and> kept (view db0) (view db)
      \<or> vs_rows vs STATE_TYPE_ID_PROTECTION \<in> Some ` uuid ` {vs_drawn vs0..<vs_drawn vs}" by (auto simp: noticed_def)
  moreover have "vs_rows vs STATE_TYPE_ID_PROTECTION \<notin> Some ` uuid ` {vs_drawn vs0..<vs_drawn vs}"
  proof -
    from assms(3) obtain v where v: "vs_rows vs0 STATE_TYPE_ID_PROTECTION = Some v" "v \<notin> uuid ` {vs_drawn vs0..}"
      by (auto simp: fresh_def)
    with assms(5) have "vs_rows vs STATE_TYPE_ID_PROTECTION = Some v"
      by (auto simp: GetStateVersion_def GetVersionByTypeId_def split: option.splits)
    with v(2) show ?thesis by auto
  qed
  ultimately show ?thesis by (simp add: kept_def same_addresses_def)
qed

text \<open>A database whose tables are its state, and a version that was never generated.\<close>

definition first_versions :: versions where
  "first_versions = \<lparr>vs_rows = [STATE_TYPE_ID_PROTECTION \<mapsto> []], vs_drawn = 0\<rparr>"

lemma first_versions_fresh: "fresh dec_nat first_versions"
proof -
  have "[] \<notin> dec_nat ` X" for X by (metis dec_nat_not_Nil imageE)
  then show ?thesis by (simp add: fresh_def first_versions_def)
qed

lemma inj_dec_nat: "inj dec_nat"
  by (simp add: inj_def)

definition shop_tables :: route_tables where
  "shop_tables = empty_tables\<lparr>tb_upstreams := [''shop.ns.svc'' \<mapsto> \<lparr>us_ID = ''shop.ns.svc'',
     us_Endpoints = Some [(''10.1.0.5'', \<lparr>er_NodeName = ''n1'', er_Kind = ''Pod'', er_Name = ''shop-0'', er_Namespace = ''ns''\<rparr>)],
     us_MirrorPolicy = None, us_UpstreamRouteType = 2, us_Ports = []\<rparr>]\<rparr>"

text \<open>An update that mirrors the traffic of the shop.\<close>

definition shop_update :: "string \<Rightarrow> Upstream" where
  "shop_update ip = \<lparr>SvcFqdn = ''shop.ns.svc'', Endpoints = [\<lparr>Ip = ip, NodeName = ''n1'', ep_Kind = ''Pod'', ep_Name = ''shop-0'',
     ep_Namespace = ''ns''\<rparr>], Ports = [], up_RouteType = UPSTREAM_ROUTE_TYPE_PORT,
     up_MirrorPolicy = Some \<lparr>mp_Status = MIRROR_POLICY_STATUS_ENABLED, mp_Ip = ''10.9.0.1'', mp_Port = 8080, mp_Dns = []\<rparr>\<rparr>"

section \<open>What renews the version\<close>

lemma fold_put_entry_keys:
  "distinct (map fst m) \<Longrightarrow> distinct (map fst (fold (\<lambda>x. put_entry (k x) (v x)) xs m))
     \<and> set (map fst (fold (\<lambda>x. put_entry (k x) (v x)) xs m)) = set (map fst m) \<union> k ` set xs"
proof (induction xs arbitrary: m)
  case (Cons x xs)
  have "distinct (map fst (put_entry (k x) (v x) m))" "set (map fst (put_entry (k x) (v x) m)) = insert (k x) (set (map fst m))"
    using Cons.prems by (auto simp: put_entry_def distinct_map_filter)
  with Cons.IH show ?case by auto
qed simp

lemma request_addresses:
  assumes "Endpoints u \<noteq> []"
  shows "distinct (object_keys (us_Endpoints (NewUpstreamFromRequest u)))"
    and "addresses (NewUpstreamFromRequest u) = Ip ` set (Endpoints u)"
proof -
  from assms have "object_keys (us_Endpoints (NewUpstreamFromRequest u))
      = map fst (fold (\<lambda>ep. put_entry (Ip ep) (NewEndpointFromRequest ep)) (Endpoints u) [])"
    by (simp add: NewUpstreamFromRequest_def object_keys_def)
  with fold_put_entry_keys [of "[]" Ip NewEndpointFromRequest "Endpoints u"]
  show "distinct (object_keys (us_Endpoints (NewUpstreamFromRequest u)))"
    and "addresses (NewUpstreamFromRequest u) = Ip ` set (Endpoints u)"
    by (simp_all add: addresses_def)
qed

text \<open>An update with endpoints stores them, and renews the version exactly if the addresses differ from the stored ones.\<close>

lemma UpdateRoute_version:
  assumes "route_db_ok repo view" and "UpdateRoute (triggered uuid view repo) validate (Some u) (db, vs) = Inr (None, (db', vs'))"
    and "tb_upstreams (view db) (SvcFqdn u) = Some old" and "us_ID old = SvcFqdn u"
    and "distinct (object_keys (us_Endpoints old))" and "Endpoints u \<noteq> []"
  shows "vs' = (if Ip ` set (Endpoints u) = addresses old then vs else renew_version uuid vs)"
    and "\<exists>new. tb_upstreams (view db') (SvcFqdn u) = Some new \<and> us_Endpoints new = us_Endpoints (NewUpstreamFromRequest u)
      \<and> us_MirrorPolicy new = (if up_MirrorPolicy u = None then us_MirrorPolicy old else NewMirrorPolicyFromRequest (up_MirrorPolicy u))"
proof -
  let ?u = "Upstream_BeforeSave (NewUpstreamFromRequest u)"
  let ?om = "us_MirrorPolicy (NewUpstreamFromRequest u) = None"
  have row: "us_ID ?u = SvcFqdn u" "us_Endpoints ?u = us_Endpoints (NewUpstreamFromRequest u)"
      "us_MirrorPolicy ?u = NewMirrorPolicyFromRequest (up_MirrorPolicy u)" "us_Endpoints (NewUpstreamFromRequest u) \<noteq> None"
    using assms(6) by (simp_all add: Upstream_BeforeSave_def NewUpstreamFromRequest_def)
  from assms(2) have t: "save_upstream (triggered uuid view repo) ?om False ?u (db, vs) = (None, (db', vs'))"
    using row(4) by (auto simp: UpdateRoute_def Upstream_Save_def Let_def split: option.splits prod.splits)
  then have s: "save_upstream repo ?om False ?u db = (None, db')"
    by (auto simp: triggered_def split: prod.splits option.splits)
  with row_laws(1) [OF assms(1) s] row obtain new where new: "tb_upstreams (view db') (SvcFqdn u) = Some new"
      "us_ID new = SvcFqdn u" "us_Endpoints new = us_Endpoints (NewUpstreamFromRequest u)"
      "us_MirrorPolicy new = (if ?om then us_MirrorPolicy old else NewMirrorPolicyFromRequest (up_MirrorPolicy u))"
    using assms(3) by (auto simp: store_upstream_def)
  have om: "?om \<longleftrightarrow> up_MirrorPolicy u = None"
    by (cases "up_MirrorPolicy u") (simp_all add: NewUpstreamFromRequest_def NewMirrorPolicyFromRequest_def)
  with new show "\<exists>new. tb_upstreams (view db') (SvcFqdn u) = Some new \<and> us_Endpoints new = us_Endpoints (NewUpstreamFromRequest u)
      \<and> us_MirrorPolicy new = (if up_MirrorPolicy u = None then us_MirrorPolicy old else NewMirrorPolicyFromRequest (up_MirrorPolicy u))"
    by auto
  from t s new(1) assms(3) row(1) have "vs' = upstreams_update_trigger uuid old new vs" by (simp add: triggered_def)
  moreover have cmp: "array_compare_as_set (object_keys (us_Endpoints old)) (object_keys (us_Endpoints new))
      \<longleftrightarrow> addresses old = Ip ` set (Endpoints u)"
    using array_compare_as_set_iff [OF assms(5)] request_addresses [OF assms(6)] new(3) by (simp add: addresses_def)
  moreover have "jsonb_distinct (us_Endpoints old) (us_Endpoints new)" if "addresses old \<noteq> Ip ` set (Endpoints u)"
    using that request_addresses(2) [OF assms(6)] new(3) same_object_keys by (metis addresses_def)
  ultimately show "vs' = (if Ip ` set (Endpoints u) = addresses old then vs else renew_version uuid vs)"
    using assms(4) new(2) by (auto simp: upstreams_update_trigger_def Let_def)
qed

theorem unchanged_version_means_same_addresses_witness:
  "\<exists>db. served (triggered dec_nat (\<lambda>t. t) tables_db) (shop_tables, first_versions) (db, first_versions) \<and> db \<noteq> shop_tables
    \<and> map_option addresses (tb_upstreams db ''shop.ns.svc'') = map_option addresses (tb_upstreams shop_tables ''shop.ns.svc'')"
proof -
  let ?repo = "triggered dec_nat (\<lambda>t. t) tables_db"
  obtain old where old: "tb_upstreams shop_tables ''shop.ns.svc'' = Some old" "us_ID old = ''shop.ns.svc''"
      "object_keys (us_Endpoints old) = [''10.1.0.5'']" "us_MirrorPolicy old = None"
    by (simp add: shop_tables_def object_keys_def)
  obtain db vs where u: "UpdateRoute ?repo (\<lambda>_. None) (Some (shop_update ''10.1.0.5'')) (shop_tables, first_versions) = Inr (None, (db, vs))"
    by (auto simp: UpdateRoute_def Upstream_Save_def Let_def triggered_def tables_db_def split: option.splits)
  have a: "SvcFqdn (shop_update ''10.1.0.5'') = ''shop.ns.svc''" "Ip ` set (Endpoints (shop_update ''10.1.0.5'')) = {''10.1.0.5''}"
      "up_MirrorPolicy (shop_update ''10.1.0.5'') \<noteq> None" by (simp_all add: shop_update_def)
  note v = UpdateRoute_version [OF tables_db_ok u, of old]
  have vs: "vs = first_versions" using v(1) old a by (simp add: addresses_def shop_update_def)
  have "tb_upstreams db ''shop.ns.svc'' \<noteq> tb_upstreams shop_tables ''shop.ns.svc''"
    using v(2) old a by (auto simp: shop_update_def NewMirrorPolicyFromRequest_def)
  moreover have s: "served ?repo (shop_tables, first_versions) (db, first_versions)"
    using served.update [OF served.start u] vs by simp
  ultimately show ?thesis
    using unchanged_version_means_same_addresses [OF tables_db_ok inj_dec_nat first_versions_fresh s] old(1) by fastforce
qed

text \<open>Each change of a protection renews the version.\<close>

lemma renew_version_changes:
  assumes "inj uuid" and "fresh uuid vs"
  shows "GetStateVersion STATE_TYPE_ID_PROTECTION (renew_version uuid vs) \<noteq> GetStateVersion STATE_TYPE_ID_PROTECTION vs"
  using renewed [OF assms] assms(2) by (auto simp: fresh_def GetStateVersion_def GetVersionByTypeId_def)

text \<open>
  Every accepted change of a protection gets a new version, whatever it changes: if an update of a
  protection changes a row of the table, the version that pollers see differs from the one before;
  an update that is rejected, or that finds no row, leaves it as it is.
\<close>

theorem protection_updates_get_a_new_version:
  assumes "inj uuid" and "fresh uuid vs" and "UpdateProtection (triggered_protections uuid repo) req (db, vs) = Inr (r, (db', vs'))"
    and "\<forall>p d n d'. db_Updates repo p d = (Inr n, d') \<longrightarrow> n \<le> 1"
  shows "GetStateVersion STATE_TYPE_ID_PROTECTION vs' \<noteq> GetStateVersion STATE_TYPE_ID_PROTECTION vs
    \<longleftrightarrow> (\<exists>p. db_Updates repo p db = (Inr 1, db') \<and> vs' = renew_version uuid vs)"
proof -
  consider "vs' = vs" | p where "db_Updates repo p db = (Inr 1, db')" "vs' = renew_version uuid vs"
  proof -
    have "vs' = vs \<or> (\<exists>p n. db_Updates repo p db = (Inr n, db') \<and> vs' = (renew_version uuid ^^ n) vs)"
      using assms(3)
      by (auto simp: UpdateProtection_def triggered_protections_def bind_res_eq_Inr_iff split: option.splits if_splits prod.splits sum.splits)
    then show ?thesis
    proof
      assume "\<exists>p n. db_Updates repo p db = (Inr n, db') \<and> vs' = (renew_version uuid ^^ n) vs"
      then obtain p n where p: "db_Updates repo p db = (Inr n, db')" "vs' = (renew_version uuid ^^ n) vs" by blast
      with assms(4) have "n = 0 \<or> n = 1" by (metis le_0_eq le_Suc_eq One_nat_def)
      with p that show ?thesis by auto
    qed (use that in blast)
  qed
  then show ?thesis
  proof cases
    case 1
    with renewed(2) [OF assms(1,2)] show ?thesis by (metis n_not_Suc_n)
  next
    case (2 p)
    with renew_version_changes [OF assms(1,2)] show ?thesis by blast
  qed
qed

theorem protection_updates_get_a_new_version_witness:
  "\<exists>r p vs'. UpdateProtection (triggered_protections dec_nat one_row_db) allow_request (new_row, first_versions) = Inr (r, (p, vs'))
    \<and> GetStateVersion STATE_TYPE_ID_PROTECTION vs' \<noteq> GetStateVersion STATE_TYPE_ID_PROTECTION first_versions"
proof -
  let ?repo = "triggered_protections dec_nat one_row_db"
  obtain d where d: "desired_state_Merge allow_request zero_desired_state = Inr d"
      "ds_IPRules d = Some \<lparr>ip_Block = [], ip_Allow = [''everybody'']\<rparr>"
    by (simp add: desired_state_Merge_def merge_waf_def merge_part_def AntiBot_Merge_def IPRules_Merge_def
        IPRules_FromProto_def addIPs_def allow_request_def empty_request_def zero_desired_state_def)
  have "UpdateProtection ?repo allow_request (new_row, first_versions) =
      Inr (Inr (new_row\<lparr>row_DesiredState := d\<rparr>), (new_row\<lparr>row_DesiredState := d\<rparr>, renew_version dec_nat first_versions))"
    using d
    by (simp add: UpdateProtection_def triggered_protections_def one_row_db_def new_row_def allow_request_def empty_request_def
        GetProtection_def IPRules_Validate_def)
  moreover have "\<forall>p d n d'. db_Updates one_row_db p d = (Inr n, d') \<longrightarrow> n \<le> 1" by (simp add: one_row_db_def)
  ultimately show ?thesis
    using protection_updates_get_a_new_version [OF inj_dec_nat first_versions_fresh, of one_row_db allow_request new_row]
    by (fastforce simp: one_row_db_def)
qed

end
