(* ===== verification/Apisrv_Crs.thy ===== *)
theory Apisrv_Crs
  imports Apisrv_Protection Seclang
begin

text \<open>
  A model of the rule sets of the API server, \<^verbatim>\<open>apisrv/internal/models/crs.go\<close>: cloning a profile into the
  rule sets of a version, adding rules of a user with new ids, and rendering the rule sets for the
  external processor.  The database, the template engine and MD5 are parameters.  The lemmas show which
  ids the search in a file finds, that new ids are new and grow, that a profile is cloned once, and
  with whose data rule sets are rendered.
\<close>

section \<open>Rows and messages\<close>

record profile_row =
  pr_ID :: "64 word"
  pr_Name :: string
  pr_CrsFileName :: string
  pr_CrsFileContent :: string

record rule_set_row =
  rs_ID :: "64 word"
  rs_CrsFileName :: string
  rs_CrsFileContent :: string
  rs_CrsVersionID :: "64 word"

record version_row =
  cv_ID :: "64 word"
  cv_Tag :: string
  cv_Status :: uint32
  cv_CrsRuleSets :: "rule_set_row list"
  cv_ProtectionID :: "64 word"

text \<open>The messages; a status that the enumeration does not name is kept as its number.\<close>

record v1_CrsRuleSet =
  v1_crs_Id :: uint32
  v1_crs_FileName :: string
  v1_crs_FileContent :: string
  v1_crs_VersionId :: uint32
  v1_crs_Md5 :: string

record v1_CrsVersion =
  v1_ver_Id :: "uint32 option"
  v1_ver_Tag :: string
  v1_ver_Status :: uint32
  v1_ver_ProtectionId :: uint32
  v1_ver_RuleSets :: "v1_CrsRuleSet list"

section \<open>The next rule id\<close>

text \<open>
  The search for \<^verbatim>\<open>id:\s*(\d+)\<close>: a match at the start of a text gives the digits and what follows them;
  matches are searched from the left and do not overlap.
\<close>

definition re_space :: "char \<Rightarrow> bool" where
  "re_space c \<longleftrightarrow> of_char c \<in> {9, 10, 12, 13, 32 :: nat}"

definition re_digit :: "char \<Rightarrow> bool" where
  "re_digit c \<longleftrightarrow> digit_val c \<noteq> None"

definition match_id :: "string \<Rightarrow> (string \<times> string) option" where
  "match_id s =
     (if has_prefix s ''id:'' then
        (let t = dropWhile re_space (drop 3 s); ds = takeWhile re_digit t
         in if ds = [] then None else Some (ds, dropWhile re_digit t))
      else None)"

lemma match_id_shorter: "match_id s = Some (ds, rest) \<Longrightarrow> length rest < length s"
proof -
  assume m: "match_id s = Some (ds, rest)"
  have "length rest \<le> length (drop 3 s)"
    using m le_trans [OF length_dropWhile_le length_dropWhile_le, of re_digit re_space "drop 3 s"]
    by (auto simp: match_id_def Let_def split: if_splits)
  moreover from m have "s \<noteq> []" by (auto simp: match_id_def has_prefix_def split: if_splits)
  ultimately show ?thesis by (cases s) auto
qed

function all_matches :: "string \<Rightarrow> string list" where
  "all_matches [] = []"
| "all_matches (c # cs) = (case match_id (c # cs) of
     None \<Rightarrow> all_matches cs | Some (ds, rest) \<Rightarrow> ds # all_matches rest)"
  by pat_completeness auto
termination
  by (relation "measure length") (auto dest: match_id_shorter)

text \<open>\<open>nextRuleId\<close>; the only error is that of \<open>strconv.Atoi\<close>.\<close>

definition max_id :: "int64 \<Rightarrow> string \<Rightarrow> unit + int64" where
  "max_id maxId ds = (case atoi ds of (v, True) \<Rightarrow> Inl () | (v, False) \<Rightarrow> Inr (if sint maxId < sint v then v else maxId))"

definition nextRuleId :: "string \<Rightarrow> unit + 64 word" where
  "nextRuleId crsFileContent = bind_res (fold_res max_id 0 (all_matches crsFileContent)) (\<lambda>maxId. Inr (maxId + 1))"

section \<open>The repository\<close>

text \<open>
  The database as far as the repository uses it: the rule set of an id among those of an application
  (a query over four tables), saving and creating rule sets, whether a version has rule sets, the
  profiles of a name, and the first protection.  \<open>First\<close> with \<open>Preload\<close> takes the first row of the table:
  the conditions of \<open>Preload\<close> select the associated rows only.
\<close>

record 'db crs_db =
  app_rule_set :: "string \<Rightarrow> 64 word \<Rightarrow> 'db \<Rightarrow> rule_set_row option"
  save_rule_set :: "rule_set_row \<Rightarrow> 'db \<Rightarrow> db_error option \<times> 'db"
  create_rule_set :: "rule_set_row \<Rightarrow> 'db \<Rightarrow> db_error option \<times> 'db"
  first_of_version :: "64 word \<Rightarrow> 'db \<Rightarrow> db_error option"
  profiles :: "string \<Rightarrow> 'db \<Rightarrow> profile_row list"
  first_protection :: "'db \<Rightarrow> db_error + protection_row"

datatype crs_error = Not_Found | Bad_Rule_Id | Bad_Rule parse_error | Crs_Db db_error | No_Profile string

definition ActionID :: string where
  "ActionID = ''id''"

definition with_rule_id :: "64 word \<Rightarrow> SecRule \<Rightarrow> SecRule" where
  "with_rule_id ruleId r = AddAction \<lparr>act_Name = ActionID, act_Parameter = dec_nat (unat ruleId)\<rparr> r"

definition add_rule :: "64 word \<Rightarrow> string \<Rightarrow> string \<Rightarrow> (fault + crs_error) + string" where
  "add_rule ruleId content rule = (case ParseRule rule of
     Inl panic \<Rightarrow> Inl (Inl panic)
   | Inr (Inl e) \<Rightarrow> Inl (Inr (Bad_Rule e))
   | Inr (Inr ruleObj) \<Rightarrow> Inr (content @ [CHR 0x0A] @ ToModSecurityRule (with_rule_id ruleId ruleObj)))"

text \<open>\<open>CreateRule\<close>; the left result is a panic of the parser.\<close>

definition CreateRule ::
    "'db crs_db \<Rightarrow> 64 word \<Rightarrow> string list \<Rightarrow> string \<Rightarrow> 'db \<Rightarrow> (crs_error option \<times> 'db) res" where
  "CreateRule repo ruleSetId rules appName db = (case app_rule_set repo appName ruleSetId db of
     None \<Rightarrow> Inr (Some Not_Found, db)
   | Some crsRuleSet \<Rightarrow>
       if rs_ID crsRuleSet = 0 then Inr (Some Not_Found, db)
       else (case nextRuleId (rs_CrsFileContent crsRuleSet) of
         Inl _ \<Rightarrow> Inr (Some Bad_Rule_Id, db)
       | Inr ruleId \<Rightarrow>
           (case fold_res (add_rule ruleId) (rs_CrsFileContent crsRuleSet) rules of
              Inl (Inl panic) \<Rightarrow> Inl panic
            | Inl (Inr e) \<Rightarrow> Inr (Some e, db)
            | Inr content \<Rightarrow>
                (case save_rule_set repo (crsRuleSet\<lparr>rs_CrsFileContent := content\<rparr>) db of
                   (Some e, db) \<Rightarrow> Inr (Some (Crs_Db e), db)
                 | (None, db) \<Rightarrow> Inr (None, db)))))"

definition uniqueCloneProfileOperation :: "'db crs_db \<Rightarrow> 64 word \<Rightarrow> 'db \<Rightarrow> bool" where
  "uniqueCloneProfileOperation repo crsVersionId db \<longleftrightarrow> first_of_version repo crsVersionId db = Some ErrRecordNotFound"

fun clone_files :: "'db crs_db \<Rightarrow> 64 word \<Rightarrow> profile_row list \<Rightarrow> 'db \<Rightarrow> crs_error option \<times> 'db" where
  "clone_files repo crsVersionId [] db = (None, db)"
| "clone_files repo crsVersionId (rule # rules) db =
     (case create_rule_set repo \<lparr>rs_ID = 0, rs_CrsFileName = pr_CrsFileName rule,
             rs_CrsFileContent = pr_CrsFileContent rule, rs_CrsVersionID = crsVersionId\<rparr> db of
        (Some e, db) \<Rightarrow> (Some (Crs_Db e), db)
      | (None, db) \<Rightarrow> clone_files repo crsVersionId rules db)"

definition CloneCrsProfileToCrsRuleSet :: "'db crs_db \<Rightarrow> string \<Rightarrow> 64 word \<Rightarrow> 'db \<Rightarrow> crs_error option \<times> 'db" where
  "CloneCrsProfileToCrsRuleSet repo profileName crsVersionId db =
     (if \<not> uniqueCloneProfileOperation repo crsVersionId db then (None, db)
      else (let rules = profiles repo profileName db in
        if rules = [] then (Some (No_Profile profileName), db)
        else clone_files repo crsVersionId rules db))"

section \<open>Rendering\<close>

definition with_defaults :: "desired_state \<Rightarrow> desired_state" where
  "with_defaults s =
     (let auth = (case ds_Auth s of
            None \<Rightarrow> \<lparr>auth_Basic = Some zero_basic_auth, auth_Token = Some zero_token_auth\<rparr> | Some a \<Rightarrow> a);
          auth = (if auth_Basic auth = None then auth\<lparr>auth_Basic := Some zero_basic_auth\<rparr> else auth);
          auth = (if auth_Token auth = None then auth\<lparr>auth_Token := Some zero_token_auth\<rparr> else auth)
      in s\<lparr>ds_IPRules := Some (case ds_IPRules s of None \<Rightarrow> \<lparr>ip_Block = [], ip_Allow = []\<rparr> | Some r \<Rightarrow> r),
           ds_Auth := Some auth,
           ds_AntiBot := Some (case ds_AntiBot s of None \<Rightarrow> zero_antibot\<lparr>v1_AntiBotEnabled := Some False\<rparr> | Some b \<Rightarrow> b)\<rparr>)"

definition crs_ProtectionDesiredState :: "'db crs_db \<Rightarrow> 64 word \<Rightarrow> 'db \<Rightarrow> db_error + desired_state" where
  "crs_ProtectionDesiredState repo crsVersionId db =
     bind_res (first_protection repo db) (\<lambda>p. Inr (with_defaults (row_DesiredState p)))"

text \<open>
  The template engine: name and text of a template and the data (\<open>None\<close>: a nil pointer) give an error or
  the rendered text.
\<close>

type_synonym engine = "string \<Rightarrow> string \<Rightarrow> desired_state option \<Rightarrow> string + string"

definition Render :: "engine \<Rightarrow> rule_set_row \<Rightarrow> desired_state option \<Rightarrow> string + string" where
  "Render tmpl s data = tmpl (rs_CrsFileName s) (rs_CrsFileContent s) data"

definition CrsRuleSet_ToProto :: "engine \<Rightarrow> (string \<Rightarrow> string) \<Rightarrow> desired_state option \<Rightarrow> rule_set_row \<Rightarrow> v1_CrsRuleSet option" where
  "CrsRuleSet_ToProto tmpl md5 data s = (case Render tmpl s data of
     Inl err \<Rightarrow> None
   | Inr rendered \<Rightarrow> Some \<lparr>v1_crs_Id = ucast (rs_ID s), v1_crs_FileName = rs_CrsFileName s, v1_crs_FileContent = rendered,
         v1_crs_VersionId = ucast (rs_CrsVersionID s), v1_crs_Md5 = md5 rendered\<rparr>)"

definition CrsVersion_ToProto ::
    "'db crs_db \<Rightarrow> engine \<Rightarrow> (string \<Rightarrow> string) \<Rightarrow> 'db \<Rightarrow> version_row \<Rightarrow> v1_CrsVersion" where
  "CrsVersion_ToProto repo tmpl md5 db v =
     (let data = (case crs_ProtectionDesiredState repo (cv_ID v) db of Inl err \<Rightarrow> None | Inr d \<Rightarrow> Some d)
      in \<lparr>v1_ver_Id = Some (ucast (cv_ID v)), v1_ver_Tag = cv_Tag v, v1_ver_Status = cv_Status v,
          v1_ver_ProtectionId = ucast (cv_ProtectionID v),
          v1_ver_RuleSets = List.map_filter (CrsRuleSet_ToProto tmpl md5 data) (cv_CrsRuleSets v)\<rparr>)"

definition CrsVersion_FromProto :: "v1_CrsVersion option \<Rightarrow> version_row \<Rightarrow> version_row" where
  "CrsVersion_FromProto crsVersion v = (case crsVersion of
     None \<Rightarrow> v
   | Some c \<Rightarrow> v\<lparr>cv_ID := (case v1_ver_Id c of None \<Rightarrow> cv_ID v | Some i \<Rightarrow> ucast i), cv_Tag := v1_ver_Tag c,
       cv_Status := v1_ver_Status c, cv_ProtectionID := ucast (v1_ver_ProtectionId c)\<rparr>)"

section \<open>Which ids are found\<close>

lemma match_id_None_hd: "c \<noteq> CHR ''i'' \<Longrightarrow> match_id (c # cs) = None"
  by (simp add: match_id_def has_prefix_def)

lemma all_matches_skip: "CHR ''i'' \<notin> set p \<Longrightarrow> all_matches (p @ s) = all_matches s"
  by (induction p) (auto simp: match_id_None_hd)

lemma re_classes:
  "re_space c \<Longrightarrow> c \<noteq> CHR ''i'' \<and> c \<noteq> CHR ''S'' \<and> \<not> re_digit c"
  "re_digit c \<Longrightarrow> c \<noteq> CHR ''i'' \<and> c \<noteq> CHR ''S'' \<and> \<not> re_space c"
  by (auto simp: re_space_def re_digit_def digit_val_def Let_def split: if_splits)

lemma match_id_parts:
  assumes "match_id s = Some (ds, rest)"
  obtains ws where "s = ''id:'' @ ws @ ds @ rest" and "\<forall>c \<in> set ws. re_space c" and "\<forall>c \<in> set ds. re_digit c" and "ds \<noteq> []"
proof -
  let ?t = "dropWhile re_space (drop 3 s)"
  from assms have p: "take 3 s = ''id:''" "ds = takeWhile re_digit ?t" "rest = dropWhile re_digit ?t" "ds \<noteq> []"
    by (auto simp: match_id_def has_prefix_def Let_def numeral_3_eq_3 split: if_splits)
  have "s = take 3 s @ takeWhile re_space (drop 3 s) @ takeWhile re_digit ?t @ dropWhile re_digit ?t" by simp
  with p that [of "takeWhile re_space (drop 3 s)"] show ?thesis by (auto dest: set_takeWhileD)
qed

text \<open>Matches cannot begin inside another one: the search finds a match at every position that has one.\<close>

lemma all_matches_Cons:
  "all_matches (c # cs) = (case map_option fst (match_id (c # cs)) of None \<Rightarrow> [] | Some ds \<Rightarrow> [ds]) @ all_matches cs"
proof (cases "match_id (c # cs)")
  case (Some m)
  then obtain ds rest where m: "match_id (c # cs) = Some (ds, rest)" by (cases m) auto
  from match_id_parts [OF m] obtain ws where
    p: "c # cs = ''id:'' @ ws @ ds @ rest" "\<forall>c \<in> set ws. re_space c" "\<forall>c \<in> set ds. re_digit c" by metis
  then have "cs = (''d:'' @ ws @ ds) @ rest" "CHR ''i'' \<notin> set (''d:'' @ ws @ ds)" using re_classes by auto
  then have "all_matches cs = all_matches rest" using all_matches_skip by metis
  with m show ?thesis by simp
qed simp

declare all_matches.simps(2) [simp del]

lemma all_matches_suffix: "\<exists>ms. all_matches (xs @ ys) = ms @ all_matches ys"
  by (induction xs) (auto simp: all_matches_Cons)

lemma all_matches_found:
  assumes "ds \<noteq> []" and "\<forall>c \<in> set ds. re_digit c" and "rest = [] \<or> \<not> re_digit (hd rest)"
  shows "ds \<in> set (all_matches (xs @ ''id:'' @ ds @ rest))"
proof -
  obtain d ds' where d: "ds = d # ds'" using assms(1) by (cases ds) auto
  have t: "takeWhile re_digit rest = []" using assms(3) by (cases rest) auto
  have "dropWhile re_space (ds @ rest) = ds @ rest" using d assms(2) re_classes(2) by auto
  moreover have "takeWhile re_digit (ds @ rest) = ds" using assms(2) t by simp
  ultimately have "match_id (''id:'' @ ds @ rest) = Some (ds, dropWhile re_digit (ds @ rest))"
    using assms(1) by (simp add: match_id_def has_prefix_def)
  then have "ds \<in> set (all_matches (''id:'' @ ds @ rest))" by (simp add: all_matches_Cons)
  with all_matches_suffix [of xs "''id:'' @ ds @ rest"] show ?thesis by auto
qed

text \<open>A line that starts with \<open>S\<close> does not change what is found in the text before it.\<close>

lemma match_id_append:
  assumes "xs \<noteq> []"
  shows "map_option fst (match_id (xs @ CHR 0x0A # CHR ''S'' # ys)) = map_option fst (match_id xs)"
proof -
  let ?zs = "CHR 0x0A # CHR ''S'' # ys"
  have nd: "\<not> re_digit (CHR 0x0A)" "\<not> re_digit (CHR ''S'')" "\<not> re_space (CHR ''S'')" "re_space (CHR 0x0A)"
    by (simp_all add: re_digit_def re_space_def digit_val_def)
  have "takeWhile re_digit (dropWhile re_space (t @ ?zs)) = takeWhile re_digit (dropWhile re_space t)" for t
  proof (cases "dropWhile re_space t = []")
    case True
    then have "dropWhile re_space (t @ ?zs) = dropWhile re_space ?zs" by (simp add: dropWhile_append2)
    then show ?thesis using nd by (simp add: True)
  next
    case False
    then have "dropWhile re_space (t @ ?zs) = dropWhile re_space t @ ?zs"
      by (metis dropWhile_append dropWhile_eq_Nil_conv)
    then show ?thesis using nd by (simp add: takeWhile_tail)
  qed
  moreover have "has_prefix (xs @ ?zs) ''id:'' \<longleftrightarrow> has_prefix xs ''id:''"
    using assms by (cases xs; cases "tl xs"; cases "tl (tl xs)") (auto simp: has_prefix_def)
  moreover have "drop 3 (xs @ ?zs) = drop 3 xs @ ?zs" if "has_prefix xs ''id:''"
    using that by (auto simp: has_prefix_def dest: arg_cong [of _ _ length])
  ultimately show ?thesis by (auto simp: match_id_def Let_def)
qed

lemma all_matches_line: "all_matches (xs @ CHR 0x0A # CHR ''S'' # ys) = all_matches xs @ all_matches (CHR ''S'' # ys)"
proof (induction xs)
  case Nil
  show ?case by (simp add: all_matches_Cons [of "CHR 0x0A"] match_id_None_hd)
next
  case (Cons x xs)
  with match_id_append [of "x # xs" ys] show ?case by (simp add: all_matches_Cons [of x])
qed

lemma all_matches_digits: "ds \<in> set (all_matches s) \<Longrightarrow> ds \<noteq> [] \<and> (\<forall>c \<in> set ds. re_digit c)"
proof (induction s)
  case (Cons c cs)
  show ?case
  proof (cases "ds \<in> set (all_matches cs)")
    case False
    with Cons.prems obtain rest where "match_id (c # cs) = Some (ds, rest)"
      by (cases "match_id (c # cs)") (auto simp: all_matches_Cons)
    then show ?thesis by (auto elim: match_id_parts)
  qed (rule Cons.IH)
qed simp

section \<open>Numbers of rules\<close>

text \<open>The numbers that the search finds in a file.\<close>

definition rule_ids :: "string \<Rightarrow> nat list" where
  "rule_ids content = map (\<lambda>ds. the (dec_val ds)) (all_matches content)"

lemma dec_acc_all_digits: "\<forall>c \<in> set ds. re_digit c \<Longrightarrow> dec_acc n ds \<noteq> None"
  by (induction ds arbitrary: n) (auto simp: re_digit_def)

lemma atoi_digits:
  assumes "ds \<noteq> []" and "\<forall>c \<in> set ds. re_digit c"
  shows "atoi ds = (let v = the (dec_val ds) in if v < 2 ^ 63 then (word_of_nat v, False) else (word_of_int (2 ^ 63 - 1), True))"
proof -
  obtain v where v: "dec_val ds = Some v"
    using dec_acc_all_digits [OF assms(2), of 0] assms(1) by (auto simp: dec_val_def)
  from assms have "re_digit (hd ds)" by simp
  then have "hd ds \<noteq> CHR ''-''" "hd ds \<noteq> CHR ''+''"
    by (auto simp: re_digit_def digit_val_def Let_def split: if_splits)
  with v assms(1) show ?thesis by (simp add: atoi_def Let_def)
qed

lemma sint_word_of_nat: "n < 2 ^ 63 \<Longrightarrow> sint (word_of_nat n :: int64) = int n"
  by (simp add: sint_uint uint_nat unat_of_nat signed_take_bit_int_eq_self)

lemma max_id_digits:
  assumes "ds \<noteq> []" and "\<forall>c \<in> set ds. re_digit c" and "m < 2 ^ 63"
  shows "max_id (word_of_nat m) ds = (let v = the (dec_val ds) in if v < 2 ^ 63 then Inr (word_of_nat (max m v)) else Inl ())"
  by (auto simp: max_id_def atoi_digits [OF assms(1,2)] Let_def sint_word_of_nat sint_word_of_nat [OF assms(3)] max_def)

lemma fold_max_id:
  assumes "\<forall>ds \<in> set dss. ds \<noteq> [] \<and> (\<forall>c \<in> set ds. re_digit c)" and "m < 2 ^ 63"
  shows "fold_res max_id (word_of_nat m) dss = (let vs = map (\<lambda>ds. the (dec_val ds)) dss in
    if list_all (\<lambda>v. v < 2 ^ 63) vs then Inr (word_of_nat (fold max vs m)) else Inl ())"
  using assms
proof (induction dss arbitrary: m)
  case (Cons ds dss)
  let ?v = "the (dec_val ds)"
  from Cons.prems have d: "ds \<noteq> []" "\<forall>c \<in> set ds. re_digit c" by auto
  note step = max_id_digits [OF d Cons.prems(2)]
  show ?case
  proof (cases "?v < 2 ^ 63")
    case True
    then have "max m ?v < 2 ^ 63" using Cons.prems(2) by simp
    from Cons.IH [OF _ this] Cons.prems(1) step True show ?thesis by (simp add: Let_def max.commute)
  next
    case False
    with step show ?thesis by (simp add: Let_def)
  qed
qed simp

text \<open>
  What \<open>nextRuleId\<close> computes: one more than the largest number in the file, and an error if a number
  does not fit.
\<close>

lemma nextRuleId_spec:
  "nextRuleId content = (if list_all (\<lambda>v. v < 2 ^ 63) (rule_ids content)
     then Inr (word_of_nat (Suc (fold max (rule_ids content) 0))) else Inl ())"
proof -
  have "nextRuleId content = bind_res (fold_res max_id (word_of_nat 0) (all_matches content)) (\<lambda>m. Inr (m + 1))"
    by (simp add: nextRuleId_def)
  also have "\<dots> = (if list_all (\<lambda>v. v < 2 ^ 63) (rule_ids content)
     then Inr (word_of_nat (Suc (fold max (rule_ids content) 0))) else Inl ())"
    by (subst fold_max_id) (auto simp: rule_ids_def all_matches_digits Let_def add.commute)
  finally show ?thesis .
qed

lemma fold_max_ge: "v \<in> set vs \<Longrightarrow> v \<le> fold max vs (m :: nat)" "m \<le> fold max vs m"
proof -
  show m: "m \<le> fold max vs m" for m :: nat and vs by (induction vs arbitrary: m) (auto intro: le_trans [OF max.cobounded2])
  show "v \<in> set vs \<Longrightarrow> v \<le> fold max vs (m :: nat)"
  proof (induction vs arbitrary: m)
    case (Cons w vs)
    then show ?case using m [of "max w m" vs] by auto
  qed simp
qed

lemma fold_max_less: "list_all (\<lambda>v. v < k) vs \<Longrightarrow> m < k \<Longrightarrow> fold max vs (m :: nat) < k"
  by (induction vs arbitrary: m) auto

lemma nextRuleId_unat:
  assumes "nextRuleId content = Inr n"
  shows "unat n = Suc (fold max (rule_ids content) 0)"
proof -
  have "fold max (rule_ids content) 0 < 2 ^ 63"
    using assms fold_max_less [of "2 ^ 63" "rule_ids content" 0] by (simp add: nextRuleId_spec split: if_splits)
  with assms show ?thesis by (auto simp: nextRuleId_spec unat_of_nat simp del: of_nat_Suc split: if_splits)
qed

section \<open>The text of a new rule\<close>

lemma needsQuoting_digits: "\<not> needsQuoting (dec_nat n)"
proof -
  have "of_char c \<notin> {48..57 :: nat}" if "c \<in> set special_chars" for c
    using that by (auto simp: special_chars_def)
  then show ?thesis using dec_nat_chars by (auto simp: needsQuoting_def)
qed

lemma id_action_text:
  "toModSecurityString \<lparr>act_Name = ActionID, act_Parameter = dec_nat n\<rparr> = ''id:'' @ dec_nat n"
  by (simp add: toModSecurityString_def needsQuoting_digits ActionID_def)

lemma add_action_mem: "a \<in> set (add_action a as)"
  by (induction as) auto

lemma join_mem:
  assumes "x \<in> set xs"
  shows "\<exists>a b. join xs '','' = a @ x @ b \<and> (b = [] \<or> hd b = CHR '','')"
  using assms
proof (induction xs rule: induct_list012)
  case (2 y)
  then have "join [y] '','' = [] @ x @ []" by simp
  then show ?case by blast
next
  case (3 y z zs)
  show ?case
  proof (cases "x = y")
    case True
    then have "join (y # z # zs) '','' = [] @ x @ CHR '','' # join (z # zs) '',''" by simp
    then show ?thesis by (metis list.sel(1))
  next
    case False
    with 3 obtain a b where "join (z # zs) '','' = a @ x @ b" "b = [] \<or> hd b = CHR '',''" by auto
    then have "join (y # z # zs) '','' = (y @ '','' @ a) @ x @ b" by simp
    with \<open>b = [] \<or> hd b = CHR '',''\<close> show ?thesis by blast
  qed
qed auto

lemma rule_text_shape:
  assumes "Actions r \<noteq> []"
  shows "ToModSecurityRule r = ''SecRule '' @ join (map Variable_String (Variables r)) ''|'' @ '' ''
    @ buildOperatorString (Operator r) @ '' '' @ quoted (join (map toModSecurityString (Actions r)) '','')"
  using assms by (simp add: ToModSecurityRule_def quoted_def)

lemma rule_text_starts: "\<exists>t. ToModSecurityRule r = CHR ''S'' # t"
  by (simp add: ToModSecurityRule_def Let_def)

text \<open>The id that a rule is given is found in its text.\<close>

lemma rule_id_in_text: "unat n \<in> set (rule_ids (ToModSecurityRule (with_rule_id n r)))"
proof -
  let ?act = "\<lparr>act_Name = ActionID, act_Parameter = dec_nat (unat n)\<rparr>" and ?r = "with_rule_id n r"
  have mem: "?act \<in> set (Actions ?r)" by (simp add: with_rule_id_def AddAction_def add_action_mem)
  then have "''id:'' @ dec_nat (unat n) \<in> set (map toModSecurityString (Actions ?r))"
    using id_action_text [of "unat n"] by force
  then obtain a b where ab: "join (map toModSecurityString (Actions ?r)) '','' = a @ (''id:'' @ dec_nat (unat n)) @ b"
      "b = [] \<or> hd b = CHR '',''" using join_mem by blast
  from mem have "Actions ?r \<noteq> []" by auto
  from rule_text_shape [OF this] ab(1) obtain a' where
    t: "ToModSecurityRule ?r = a' @ ''id:'' @ dec_nat (unat n) @ b @ [CHR 0x22]"
    by (simp add: quoted_def)
  have "\<not> re_digit (hd (b @ [CHR 0x22]))" using ab(2) by (cases b) (auto simp: re_digit_def digit_val_def)
  then have "dec_nat (unat n) \<in> set (all_matches (ToModSecurityRule ?r))"
    unfolding t by (intro all_matches_found) (auto simp: re_digit_def dest: digit_val_dec_nat)
  then show ?thesis by (force simp: rule_ids_def)
qed

definition added_rule :: "64 word \<Rightarrow> SecRule \<Rightarrow> string" where
  "added_rule n r = CHR 0x0A # ToModSecurityRule (with_rule_id n r)"

lemma rule_ids_added:
  "rule_ids (content @ added_rule n r) = rule_ids content @ rule_ids (ToModSecurityRule (with_rule_id n r))"
proof -
  obtain t where "ToModSecurityRule (with_rule_id n r) = CHR ''S'' # t" using rule_text_starts by blast
  then show ?thesis by (simp add: rule_ids_def added_rule_def all_matches_line)
qed

lemma rule_ids_added_all:
  "rule_ids (content @ concat (map (added_rule n) rs)) =
     rule_ids content @ concat (map (\<lambda>r. rule_ids (ToModSecurityRule (with_rule_id n r))) rs)"
proof (induction rs rule: rev_induct)
  case (snoc r rs)
  then show ?case using rule_ids_added [of "content @ concat (map (added_rule n) rs)" n r] by simp
qed simp

lemma fold_add_rule:
  "fold_res (add_rule n) content rules = Inr content' \<longleftrightarrow>
     (\<exists>rs. map ParseRule rules = map (\<lambda>r. Inr (Inr r)) rs \<and> content' = content @ concat (map (added_rule n) rs))"
proof (induction rules arbitrary: content)
  case (Cons rule rules)
  show ?case
  proof (cases "ParseRule rule")
    case (Inl panic)
    then show ?thesis by (auto simp: add_rule_def)
  next
    case (Inr p)
    with Cons show ?thesis
      by (cases p) (auto simp: add_rule_def added_rule_def Cons_eq_map_conv)
  qed
qed auto

section \<open>Properties\<close>

text \<open>
  C8: What adding rules of a user does.  All rules are parsed, printed with one new id and appended to the
  stored file.  The id is larger than every number that the search finds in the old file, so that it
  is new there, and the next call will take a still larger one.  But the rules of one call share it:
  it occurs in the new file at least as often as there are rules.
\<close>

theorem created_rules_get_a_new_id:
  assumes "CreateRule repo ruleSetId rules appName db = Inr (None, db')" and "rules \<noteq> []"
  shows "\<exists>row n parsed. app_rule_set repo appName ruleSetId db = Some row
    \<and> map ParseRule rules = map (\<lambda>r. Inr (Inr r)) parsed
    \<and> (let new_content = rs_CrsFileContent row @ concat (map (added_rule n) parsed)
       in save_rule_set repo (row\<lparr>rs_CrsFileContent := new_content\<rparr>) db = (None, db')
          \<and> (\<forall>v \<in> set (rule_ids (rs_CrsFileContent row)). v < unat n)
          \<and> (\<forall>n'. nextRuleId new_content = Inr n' \<longrightarrow> unat n < unat n')
          \<and> length rules \<le> count_list (rule_ids new_content) (unat n))"
proof -
  from assms(1) obtain row n content' where
    row: "app_rule_set repo appName ruleSetId db = Some row" "nextRuleId (rs_CrsFileContent row) = Inr n"
      "fold_res (add_rule n) (rs_CrsFileContent row) rules = Inr content'"
      "save_rule_set repo (row\<lparr>rs_CrsFileContent := content'\<rparr>) db = (None, db')"
    by (auto simp: CreateRule_def split: option.splits if_splits sum.splits prod.splits)
  then obtain parsed where p: "map ParseRule rules = map (\<lambda>r. Inr (Inr r)) parsed"
      "content' = rs_CrsFileContent row @ concat (map (added_rule n) parsed)" by (auto simp: fold_add_rule)
  note ids = rule_ids_added_all [of "rs_CrsFileContent row" n parsed]
  have old: "v < unat n" if "v \<in> set (rule_ids (rs_CrsFileContent row))" for v
    using fold_max_ge(1) [OF that, of 0] nextRuleId_unat [OF row(2)] by simp
  from p(1) assms(2) obtain r where "r \<in> set parsed" by (cases parsed) auto
  then have "unat n \<in> set (rule_ids content')" using ids rule_id_in_text [of n r] p(2) by auto
  then have new: "unat n < unat n'" if "nextRuleId content' = Inr n'" for n'
    using fold_max_ge(1) [of "unat n" _ 0] nextRuleId_unat [OF that] by (simp add: le_imp_less_Suc)
  have "length ps \<le> count_list (concat (map (\<lambda>r. rule_ids (ToModSecurityRule (with_rule_id n r))) ps)) (unat n)" for ps
  proof (induction ps)
    case (Cons r ps)
    have "0 < count_list (rule_ids (ToModSecurityRule (with_rule_id n r))) (unat n)"
      using rule_id_in_text [of n r] count_list_0_iff [of "rule_ids (ToModSecurityRule (with_rule_id n r))" "unat n"] by simp
    with Cons show ?case by simp
  qed simp
  then have "length rules \<le> count_list (rule_ids content') (unat n)"
    using ids p(2) map_eq_imp_length_eq [OF p(1)] by (simp add: trans_le_add2)
  with row(1,4) p old new show ?thesis unfolding Let_def by blast
qed

text \<open>A database that is the list of its rule sets, all of one application, with one profile of one file.\<close>

definition rule_list_db :: "rule_set_row list crs_db" where
  "rule_list_db = \<lparr>
     app_rule_set = (\<lambda>app i db. find (\<lambda>r. rs_ID r = i) db),
     save_rule_set = (\<lambda>row db. (None, map (\<lambda>r. if rs_ID r = rs_ID row then row else r) db)),
     create_rule_set = (\<lambda>row db. (None, db @ [row\<lparr>rs_ID := word_of_nat (Suc (length db))\<rparr>])),
     first_of_version = (\<lambda>v db. if list_ex (\<lambda>r. rs_CrsVersionID r = v) db then None else Some ErrRecordNotFound),
     profiles = (\<lambda>name db. if name = ''empty'' then
       [\<lparr>pr_ID = 1, pr_Name = ''empty'', pr_CrsFileName = ''crs-setup.conf'', pr_CrsFileContent = ''SecAction id:900000''\<rparr>] else []),
     first_protection = (\<lambda>db. Inr new_row)\<rparr>"

definition stored_rules :: rule_set_row where
  "stored_rules = \<lparr>rs_ID = 1, rs_CrsFileName = ''crs-setup.conf'', rs_CrsFileContent = ''SecRule ARGS @eq id:7'', rs_CrsVersionID = 3\<rparr>"

theorem created_rules_get_a_new_id_witness:
  "\<exists>content n. CreateRule rule_list_db 1 [ToModSecurityRule sample_secrule, ToModSecurityRule sample_secrule] ''shop'' [stored_rules]
      = Inr (None, [stored_rules\<lparr>rs_CrsFileContent := content\<rparr>]) \<and> 2 \<le> count_list (rule_ids content) n"
proof -
  let ?rule = "ToModSecurityRule sample_secrule"
  have "rule_ids (rs_CrsFileContent stored_rules) = [7]"
    by (simp add: rule_ids_def stored_rules_def all_matches_Cons match_id_def has_prefix_def re_space_def re_digit_def
        digit_val_def dec_val_def)
  then have next8: "nextRuleId (rs_CrsFileContent stored_rules) = Inr 8" by (simp add: nextRuleId_spec)
  have parse: "ParseRule ?rule = Inr (Inr sample_secrule)" by (rule parse_printed_rule [OF wf_sample_secrule])
  have row: "app_rule_set rule_list_db app 1 [stored_rules] = Some stored_rules" "rs_ID stored_rules = 1" for app
    by (simp_all add: rule_list_db_def stored_rules_def)
  have save: "save_rule_set rule_list_db (stored_rules\<lparr>rs_CrsFileContent := content\<rparr>) [stored_rules]
      = (None, [stored_rules\<lparr>rs_CrsFileContent := content\<rparr>])" for content
    by (simp add: rule_list_db_def)
  obtain content where c: "CreateRule rule_list_db 1 [?rule, ?rule] ''shop'' [stored_rules]
      = Inr (None, [stored_rules\<lparr>rs_CrsFileContent := content\<rparr>])"
    by (simp add: CreateRule_def row next8 add_rule_def parse save)
  from created_rules_get_a_new_id [OF c] obtain stored n parsed where
    w: "app_rule_set rule_list_db ''shop'' 1 [stored_rules] = Some stored"
      "save_rule_set rule_list_db (stored\<lparr>rs_CrsFileContent :=
            rs_CrsFileContent stored @ concat (map (added_rule n) parsed)\<rparr>) [stored_rules]
         = (None, [stored_rules\<lparr>rs_CrsFileContent := content\<rparr>])"
      "length [?rule, ?rule] \<le> count_list (rule_ids (rs_CrsFileContent stored @ concat (map (added_rule n) parsed))) (unat n)"
    unfolding Let_def by blast
  from w(1,2) have "content = rs_CrsFileContent stored @ concat (map (added_rule n) parsed)"
    by (simp add: row save) (metis rule_set_row.select_convs(3) rule_set_row.surjective rule_set_row.update_convs(3))
  with w(3) have "2 \<le> count_list (rule_ids content) (unat n)" by simp
  with c show ?thesis by blast
qed

text \<open>
  What is relied on of the database: a created rule set is the new last one, whatever its id;
  the first rule set of a version is reported as not found only if the
  version has none.
\<close>

definition crs_db_ok :: "'db crs_db \<Rightarrow> ('db \<Rightarrow> rule_set_row list) \<Rightarrow> bool" where
  "crs_db_ok repo rows \<longleftrightarrow>
     (\<forall>r db db'. create_rule_set repo r db = (None, db') \<longrightarrow>
        (\<exists>i. rows db' = rows db @ [r\<lparr>rs_ID := i\<rparr>]))
     \<and> (\<forall>v db. first_of_version repo v db = Some ErrRecordNotFound \<longrightarrow> \<not> list_ex (\<lambda>r. rs_CrsVersionID r = v) (rows db))"

definition version_files :: "64 word \<Rightarrow> rule_set_row list \<Rightarrow> (string \<times> string) list" where
  "version_files v rows = map (\<lambda>r. (rs_CrsFileName r, rs_CrsFileContent r)) (filter (\<lambda>r. rs_CrsVersionID r = v) rows)"

lemma clone_files_rows:
  assumes "crs_db_ok repo rows" and "clone_files repo v ps db = (None, db')"
  shows "version_files v (rows db') = version_files v (rows db) @ map (\<lambda>p. (pr_CrsFileName p, pr_CrsFileContent p)) ps"
    and "filter (\<lambda>r. rs_CrsVersionID r \<noteq> v) (rows db') = filter (\<lambda>r. rs_CrsVersionID r \<noteq> v) (rows db)"
proof -
  let ?new = "\<lambda>p. \<lparr>rs_ID = 0, rs_CrsFileName = pr_CrsFileName p, rs_CrsFileContent = pr_CrsFileContent p, rs_CrsVersionID = v\<rparr>"
  have "version_files v (rows db') = version_files v (rows db) @ map (\<lambda>p. (pr_CrsFileName p, pr_CrsFileContent p)) ps
      \<and> filter (\<lambda>r. rs_CrsVersionID r \<noteq> v) (rows db') = filter (\<lambda>r. rs_CrsVersionID r \<noteq> v) (rows db)"
    using assms(2)
  proof (induction ps arbitrary: db)
    case (Cons p ps)
    then obtain db1 where c: "create_rule_set repo (?new p) db = (None, db1)" "clone_files repo v ps db1 = (None, db')"
      by (auto split: prod.splits option.splits)
    from assms(1) c(1) obtain i where "rows db1 = rows db @ [(?new p)\<lparr>rs_ID := i\<rparr>]"
      unfolding crs_db_ok_def by blast
    with Cons.IH [OF c(2)] show ?case by (simp add: version_files_def)
  qed simp
  then show "version_files v (rows db') = version_files v (rows db) @ map (\<lambda>p. (pr_CrsFileName p, pr_CrsFileContent p)) ps"
    and "filter (\<lambda>r. rs_CrsVersionID r \<noteq> v) (rows db') = filter (\<lambda>r. rs_CrsVersionID r \<noteq> v) (rows db)" by auto
qed

text \<open>
  A profile is cloned at most once per version.  If cloning succeeds, either nothing has changed, or
  the version had no files and now has exactly those of the profile, and the other versions have the
  files they had.  In both cases cloning any profile again succeeds and changes nothing.
\<close>

theorem profile_is_cloned_once:
  assumes "crs_db_ok repo rows" and "CloneCrsProfileToCrsRuleSet repo profileName v db = (None, db')"
  shows "(db' = db \<or> version_files v (rows db) = []
        \<and> version_files v (rows db') = map (\<lambda>p. (pr_CrsFileName p, pr_CrsFileContent p)) (profiles repo profileName db)
        \<and> filter (\<lambda>r. rs_CrsVersionID r \<noteq> v) (rows db') = filter (\<lambda>r. rs_CrsVersionID r \<noteq> v) (rows db))
    \<and> CloneCrsProfileToCrsRuleSet repo otherProfile v db' = (None, db')"
proof (cases "uniqueCloneProfileOperation repo v db")
  case False
  with assms(2) show ?thesis by (simp add: CloneCrsProfileToCrsRuleSet_def)
next
  case True
  let ?ps = "profiles repo profileName db"
  from True assms(2) have c: "?ps \<noteq> []" "clone_files repo v ?ps db = (None, db')"
    by (auto simp: CloneCrsProfileToCrsRuleSet_def Let_def split: if_splits)
  from True assms(1) have "\<not> list_ex (\<lambda>r. rs_CrsVersionID r = v) (rows db)"
    unfolding crs_db_ok_def uniqueCloneProfileOperation_def by blast
  then have none: "version_files v (rows db) = []" by (auto simp: version_files_def list_ex_iff filter_empty_conv)
  note rows = clone_files_rows [OF assms(1) c(2)]
  have "version_files v (rows db') \<noteq> []" using rows(1) c(1) by simp
  then have "list_ex (\<lambda>r. rs_CrsVersionID r = v) (rows db')"
    by (auto simp: version_files_def list_ex_iff filter_empty_conv)
  with assms(1) have "\<not> uniqueCloneProfileOperation repo v db'"
    unfolding crs_db_ok_def uniqueCloneProfileOperation_def by blast
  with none rows show ?thesis by (simp add: CloneCrsProfileToCrsRuleSet_def)
qed

lemma rule_list_db_ok: "crs_db_ok rule_list_db (\<lambda>db. db)"
  by (auto simp: crs_db_ok_def rule_list_db_def)

theorem profile_is_cloned_once_witness:
  "\<exists>db'. CloneCrsProfileToCrsRuleSet rule_list_db ''empty'' 4 [stored_rules] = (None, db')
    \<and> version_files 4 db' = [(''crs-setup.conf'', ''SecAction id:900000'')]
    \<and> CloneCrsProfileToCrsRuleSet rule_list_db ''full'' 4 db' = (None, db')"
proof -
  obtain db' where c: "CloneCrsProfileToCrsRuleSet rule_list_db ''empty'' 4 [stored_rules] = (None, db')"
      "version_files 4 db' = [(''crs-setup.conf'', ''SecAction id:900000'')]"
    by (simp add: CloneCrsProfileToCrsRuleSet_def uniqueCloneProfileOperation_def rule_list_db_def stored_rules_def
        version_files_def)
  with profile_is_cloned_once [OF rule_list_db_ok c(1), of "''full''"] show ?thesis by blast
qed

text \<open>
  Whose data rule sets are rendered with: that of the first protection, whichever protection the version
  belongs to.  Two versions with the same files are rendered alike, although their protections may want
  different things; and a rule set that cannot be rendered is left out without an error.
\<close>

theorem rule_sets_are_rendered_with_the_first_protection:
  assumes "first_protection repo db = Inr p"
  shows "v1_ver_RuleSets (CrsVersion_ToProto repo tmpl md5 db v) =
    List.map_filter (CrsRuleSet_ToProto tmpl md5 (Some (with_defaults (row_DesiredState p)))) (cv_CrsRuleSets v)"
  using assms by (simp add: CrsVersion_ToProto_def crs_ProtectionDesiredState_def)

theorem rule_sets_are_rendered_with_the_first_protection_witness:
  "map v1_crs_Md5 (v1_ver_RuleSets (CrsVersion_ToProto rule_list_db (\<lambda>n t d. if t = [] then Inl ''empty'' else Inr t) (\<lambda>s. s) []
     \<lparr>cv_ID = 3, cv_Tag = ''default'', cv_Status = 1,
       cv_CrsRuleSets = [stored_rules\<lparr>rs_CrsFileContent := []\<rparr>, stored_rules\<lparr>rs_CrsFileContent := ''x''\<rparr>], cv_ProtectionID = 77\<rparr>)) = [''x'']"
  by (subst rule_sets_are_rendered_with_the_first_protection [of _ _ new_row])
    (simp_all add: rule_list_db_def List.map_filter_simps CrsRuleSet_ToProto_def Render_def)

text \<open>
  The ids of a version are 64 bits wide in the database and 32 in the messages: they come back from a
  message exactly if they fit.
\<close>

theorem version_ids_survive_iff_they_fit:
  "cv_ID (CrsVersion_FromProto (Some (CrsVersion_ToProto repo tmpl md5 db v)) v0) = cv_ID v \<longleftrightarrow> unat (cv_ID v) < 2 ^ 32"
proof -
  have "unat (ucast (ucast (cv_ID v) :: uint32) :: 64 word) = unat (cv_ID v) mod 2 ^ 32"
    by (simp add: unsigned_ucast_eq unsigned_take_bit_eq) (simp add: take_bit_eq_mod)
  then show ?thesis
    by (simp add: CrsVersion_FromProto_def CrsVersion_ToProto_def Let_def word_unat_eq_iff) (metis mod_less mod_less_divisor zero_less_numeral)
qed

text \<open>The data that templates see has all its parts, and what is set is kept.\<close>

lemma with_defaults_complete:
  "\<exists>ips auth basic token bot. ds_IPRules (with_defaults s) = Some ips \<and> ds_Auth (with_defaults s) = Some auth
     \<and> auth_Basic auth = Some basic \<and> auth_Token auth = Some token \<and> ds_AntiBot (with_defaults s) = Some bot"
  by (auto simp: with_defaults_def Let_def split: option.splits)

lemma with_defaults_idem: "with_defaults (with_defaults s) = with_defaults s"
  by (auto simp: with_defaults_def Let_def split: option.splits)

end
