(* ===== verification/Apisrv_Setup.thy ===== *)
theory Apisrv_Setup
  imports Apisrv_Crs Apisrv_Route
begin

text \<open>
  The set-up of the API server's database: connection, migration and seeding
  (\<^verbatim>\<open>apisrv/internal/models/dbsetup.go\<close>), the embedded profiles and SQL statements
  (\<^verbatim>\<open>models/assets/modsec/modsec.go\<close>, \<^verbatim>\<open>models/assets/sql/sql.go\<close>), and the rule sets of a new protection
  (\<open>AfterCreate\<close> of \<^verbatim>\<open>models/protection.go\<close>).  GORM and the database are parameters.  The lemmas show that
  a new protection gets the files of the embedded profile, what remains of an interrupted seeding, and
  who learns of a failed set-up.
\<close>

section \<open>Embedded files\<close>

text \<open>
  The compiled-in files: a tree whose directories list their entries in the order of their names.  Walking it calls
  back with the path of each file; reading an embedded file does not fail.
\<close>

datatype embed_node = Embedded_File string | Embedded_Dir "(string \<times> embed_node) list"

fun walk_files :: "string \<Rightarrow> embed_node \<Rightarrow> (string \<times> string) list" where
  "walk_files path (Embedded_File data) = [(path, data)]"
| "walk_files path (Embedded_Dir entries) = concat (map (\<lambda>e. walk_files (path @ ''/'' @ fst e) (snd e)) entries)"

text \<open>\<open>strings.Replace\<close> with a limit of one.\<close>

fun replace_first :: "string \<Rightarrow> string \<Rightarrow> string \<Rightarrow> string" where
  "replace_first [] old new = (if old = [] then new else [])"
| "replace_first (c # cs) old new =
     (if has_prefix (c # cs) old then new @ drop (length old) (c # cs) else c # replace_first cs old new)"

datatype setup_error = Setup_Db db_error | ErrNotExist string

definition CRSRuleSet :: "(string \<rightharpoonup> embed_node) \<Rightarrow> string \<Rightarrow> setup_error + (string \<times> string) list" where
  "CRSRuleSet crsFS profileDir = (let root = ''profiles/'' @ profileDir in
     case crsFS root of
       None \<Rightarrow> Inl (ErrNotExist root)
     | Some node \<Rightarrow> Inr (fold (\<lambda>(path, data). put_entry (replace_first path (root @ ''/'') []) data) (walk_files root node) []))"

definition sql_Triggers :: "(string \<rightharpoonup> string) \<Rightarrow> setup_error + string" where
  "sql_Triggers sqlFS = (case sqlFS ''triggers.sql'' of None \<Rightarrow> Inl (ErrNotExist ''triggers.sql'') | Some s \<Rightarrow> Inr s)"

section \<open>Connection, migration and seeding\<close>

record DbCfg =
  cfg_host :: string
  cfg_port :: int64
  cfg_user :: string
  cfg_password :: string
  cfg_dbName :: string

definition dsn :: "DbCfg \<Rightarrow> string" where
  "dsn c = ''host='' @ cfg_host c @ '' port='' @ dec_int (sint (cfg_port c)) @ '' user='' @ cfg_user c @ '' password='' @ cfg_password c
     @ '' dbname='' @ cfg_dbName c @ '' sslmode=disable''"

text \<open>
  What is used of GORM, on a world \<open>'w\<close>: opening a connection (which may give one together with an
  error), migrating tables, the row of a state version, executing statements, creating profiles and
  versions (with the id they get); the repository of rule sets; the embedded files; and the order in which the
  entries of a Go map are visited.
\<close>

record ('c, 'w) setup_env =
  gorm_Open :: "string \<Rightarrow> 'w \<Rightarrow> 'c option \<times> db_error option"
  AutoMigrate :: "'w \<Rightarrow> db_error option \<times> 'w"
  FirstOrCreate_version :: "uint32 \<Rightarrow> 'w \<Rightarrow> db_error option \<times> 'w"
  db_Exec :: "string \<Rightarrow> 'w \<Rightarrow> db_error option \<times> 'w"
  CreateCrsProfile :: "profile_row \<Rightarrow> 'w \<Rightarrow> db_error option \<times> 'w"
  CreateCrsVersion :: "version_row \<Rightarrow> 'w \<Rightarrow> (db_error + 64 word) \<times> 'w"
  crsRepo :: "'w crs_db"
  crsFS :: "string \<rightharpoonup> embed_node"
  sqlFS :: "string \<rightharpoonup> string"
  visit_rules :: "(string \<times> string) list \<Rightarrow> (string \<times> string) list"

record 'c db_globals =
  dbConn :: "'c option"
  migrated :: bool
  seeded :: bool

definition FullCRSProfileName :: string where
  "FullCRSProfileName = ''full''"

definition EmptyCRSProfileName :: string where
  "EmptyCRSProfileName = ''empty''"

definition DefaultCRSProfileName :: string where
  "DefaultCRSProfileName = EmptyCRSProfileName"

definition DefaultCrsVersionTag :: string where
  "DefaultCrsVersionTag = ''default''"

definition CRS_VERSION_STATUS_ACTIVE :: uint32 where
  "CRS_VERSION_STATUS_ACTIVE = 1"

text \<open>Methods of a null connection panic; setting up returns an error or nothing.\<close>

definition migrate ::
    "('c, 'w) setup_env \<Rightarrow> 'c option \<Rightarrow> 'c db_globals \<times> 'w \<Rightarrow> (setup_error option \<times> 'c db_globals \<times> 'w) res" where
  "migrate env db s = bind_res (deref db) (\<lambda>_. case AutoMigrate env (snd s) of
     (Some e, w) \<Rightarrow> Inr (Some (Setup_Db e), (fst s, w))
   | (None, w) \<Rightarrow> Inr (None, ((fst s)\<lparr>migrated := True\<rparr>, w)))"

definition seedSQLTriggers :: "('c, 'w) setup_env \<Rightarrow> 'w \<Rightarrow> setup_error option \<times> 'w" where
  "seedSQLTriggers env w = (case sql_Triggers (sqlFS env) of
     Inl e \<Rightarrow> (Some e, w) | Inr rawSQL \<Rightarrow> apfst (map_option Setup_Db) (db_Exec env rawSQL w))"

fun seed_files :: "('c, 'w) setup_env \<Rightarrow> string \<Rightarrow> (string \<times> string) list \<Rightarrow> 'w \<Rightarrow> setup_error option \<times> 'w" where
  "seed_files env crsProfile [] w = (None, w)"
| "seed_files env crsProfile ((crsName, crsContent) # rules) w =
     (case CreateCrsProfile env \<lparr>pr_ID = 0, pr_Name = crsProfile, pr_CrsFileName = crsName, pr_CrsFileContent = crsContent\<rparr> w of
        (Some e, w) \<Rightarrow> (Some (Setup_Db e), w)
      | (None, w) \<Rightarrow> seed_files env crsProfile rules w)"

fun seed_profiles :: "('c, 'w) setup_env \<Rightarrow> string list \<Rightarrow> 'w \<Rightarrow> setup_error option \<times> 'w" where
  "seed_profiles env [] w = (None, w)"
| "seed_profiles env (crsProfile # crsProfiles) w =
     (if profiles (crsRepo env) crsProfile w \<noteq> [] then seed_profiles env crsProfiles w
      else (case CRSRuleSet (crsFS env) crsProfile of
         Inl err \<Rightarrow> (Some err, w)
       | Inr rules \<Rightarrow> (case seed_files env crsProfile (visit_rules env rules) w of
            (Some err, w) \<Rightarrow> (Some err, w)
          | (None, w) \<Rightarrow> seed_profiles env crsProfiles w)))"

definition seedCrsProfiles :: "('c, 'w) setup_env \<Rightarrow> 'w \<Rightarrow> setup_error option \<times> 'w" where
  "seedCrsProfiles env w = seed_profiles env [FullCRSProfileName, EmptyCRSProfileName] w"

definition seed ::
    "('c, 'w) setup_env \<Rightarrow> 'c option \<Rightarrow> 'c db_globals \<times> 'w \<Rightarrow> (setup_error option \<times> 'c db_globals \<times> 'w) res" where
  "seed env db s = bind_res (deref db) (\<lambda>_. case FirstOrCreate_version env 1 (snd s) of
     (Some e, w) \<Rightarrow> Inr (Some (Setup_Db e), (fst s, w))
   | (None, w) \<Rightarrow> (case seedSQLTriggers env w of
       (Some e, w) \<Rightarrow> Inr (Some e, (fst s, w))
     | (None, w) \<Rightarrow> (case seedCrsProfiles env w of
         (Some e, w) \<Rightarrow> Inr (Some e, (fst s, w))
       | (None, w) \<Rightarrow> Inr (None, ((fst s)\<lparr>seeded := True\<rparr>, w)))))"

definition NewDb ::
    "('c, 'w) setup_env \<Rightarrow> DbCfg \<Rightarrow> 'c db_globals \<times> 'w \<Rightarrow> ((setup_error + 'c option) \<times> 'c db_globals \<times> 'w) res" where
  "NewDb env cfg s =
     (if dbConn (fst s) \<noteq> None then Inr (Inr (dbConn (fst s)), s)
      else (case gorm_Open env (dsn cfg) (snd s) of (conn, err) \<Rightarrow>
        let s = ((fst s)\<lparr>dbConn := conn\<rparr>, snd s) in
        case err of
          Some e \<Rightarrow> Inr (Inl (Setup_Db e), s)
        | None \<Rightarrow> bind_res (migrate env conn s) (\<lambda>(err, s). case err of
            Some e \<Rightarrow> Inr (Inl e, s)
          | None \<Rightarrow> bind_res (seed env conn s) (\<lambda>(err, s). case err of
              Some e \<Rightarrow> Inr (Inl e, s)
            | None \<Rightarrow> Inr (Inr (dbConn (fst s)), s)))))"

text \<open>\<open>db()\<close>, which every repository calls: errors are logged only.\<close>

definition db_conn :: "('c, 'w) setup_env \<Rightarrow> 'c db_globals \<times> 'w \<Rightarrow> ('c option \<times> 'c db_globals \<times> 'w) res" where
  "db_conn env s =
     bind_res (if migrated (fst s) then Inr s else bind_res (migrate env (dbConn (fst s)) s) (\<lambda>(err, s). Inr s)) (\<lambda>s.
     bind_res (if seeded (fst s) then Inr s else bind_res (seed env (dbConn (fst s)) s) (\<lambda>(err, s). Inr s)) (\<lambda>s.
     Inr (dbConn (fst s), s)))"

section \<open>A new protection\<close>

definition AfterCreate :: "('c, 'w) setup_env \<Rightarrow> 64 word \<Rightarrow> 'w \<Rightarrow> crs_error option \<times> 'w" where
  "AfterCreate env protectionId w =
     (case CreateCrsVersion env \<lparr>cv_ID = 0, cv_Tag = DefaultCrsVersionTag, cv_Status = CRS_VERSION_STATUS_ACTIVE, cv_CrsRuleSets = [],
             cv_ProtectionID = protectionId\<rparr> w of
        (Inl e, w) \<Rightarrow> (Some (Crs_Db e), w)
      | (Inr crsVersionId, w) \<Rightarrow> CloneCrsProfileToCrsRuleSet (crsRepo env) DefaultCRSProfileName crsVersionId w)"

section \<open>The files of a profile\<close>

lemma replace_first_prefix: "p \<noteq> [] \<Longrightarrow> replace_first (p @ s) p new = new @ s"
  by (cases p) (simp_all add: has_prefix_def)

lemma walk_files_below: "f \<in> set (walk_files path node) \<Longrightarrow> \<exists>t. fst f = path @ t"
proof (induction path node rule: walk_files.induct)
  case (2 path entries)
  then obtain e where e: "e \<in> set entries" "f \<in> set (walk_files (path @ ''/'' @ fst e) (snd e))" by auto
  from "2.IH" [OF e] show ?case by auto
qed simp

lemma walk_files_relative:
  assumes "f \<in> set (walk_files dir (Embedded_Dir entries))"
  shows "dir @ ''/'' @ replace_first (fst f) (dir @ ''/'') [] = fst f"
proof -
  from assms obtain e where "e \<in> set entries" "f \<in> set (walk_files (dir @ ''/'' @ fst e) (snd e))" by auto
  then obtain t where "fst f = (dir @ ''/'') @ fst e @ t" using walk_files_below by fastforce
  then show ?thesis using replace_first_prefix [of "dir @ ''/''" "fst e @ t" "[]"] by simp
qed

text \<open>Paths of files are distinct; the entries of the map are the files with the paths below the directory.\<close>

lemma relative_files:
  assumes "distinct (map fst (walk_files dir (Embedded_Dir entries)))"
  shows "map (apfst (\<lambda>n. dir @ ''/'' @ n)) (fold (\<lambda>(path, data). put_entry (replace_first path (dir @ ''/'') []) data)
    (walk_files dir (Embedded_Dir entries)) []) = walk_files dir (Embedded_Dir entries)"
proof -
  define files where "files = walk_files dir (Embedded_Dir entries)"
  let ?key = "\<lambda>f. replace_first (fst f) (dir @ ''/'') []"
  have key: "dir @ ''/'' @ ?key f = fst f" if "f \<in> set files" for f using walk_files_relative that by (simp add: files_def)
  have "distinct (map ?key files)"
  proof (rule distinct_map [THEN iffD2], intro conjI)
    show "distinct files" using assms by (simp add: files_def distinct_map)
    show "inj_on ?key (set files)"
      using assms key by (metis (no_types, lifting) distinct_map files_def inj_on_def)
  qed
  then have "fold (\<lambda>(path, data). put_entry (replace_first path (dir @ ''/'') []) data) files [] = map (\<lambda>f. (?key f, snd f)) files"
    using fold_put_entry [of ?key files "[]" snd] by (simp add: case_prod_unfold)
  moreover have "map (\<lambda>f. apfst (\<lambda>n. dir @ ''/'' @ n) (?key f, snd f)) files = files"
    by (rule map_idI) (use key in \<open>simp add: prod_eq_iff\<close>)
  ultimately show ?thesis by (simp add: files_def comp_def)
qed

lemma CRSRuleSet_files:
  assumes "fs (''profiles/'' @ p) = Some (Embedded_Dir entries)"
    and "distinct (map fst (walk_files (''profiles/'' @ p) (Embedded_Dir entries)))"
  obtains rules where "CRSRuleSet fs p = Inr rules"
    and "map (apfst (\<lambda>n. (''profiles/'' @ p) @ ''/'' @ n)) rules = walk_files (''profiles/'' @ p) (Embedded_Dir entries)"
  by (rule that [OF _ relative_files [OF assms(2)]]) (simp add: CRSRuleSet_def Let_def assms(1) [simplified])

section \<open>What seeding stores\<close>

text \<open>The files that are stored for a profile.\<close>

definition stored :: "('c, 'w) setup_env \<Rightarrow> string \<Rightarrow> 'w \<Rightarrow> (string \<times> string) multiset" where
  "stored env n w = mset (map (\<lambda>r. (pr_CrsFileName r, pr_CrsFileContent r)) (profiles (crsRepo env) n w))"

lemma stored_empty_iff [simp]: "stored env n w = {#} \<longleftrightarrow> profiles (crsRepo env) n w = []"
  by (simp add: stored_def)

text \<open>
  What is relied on of the database: a created profile is stored, and a failed statement stores nothing;
  migrations and other statements of the set-up keep the profiles; a created version has an id
  without rule sets; and visiting a map visits each entry once.
\<close>

definition setup_ok :: "('c, 'w) setup_env \<Rightarrow> ('w \<Rightarrow> rule_set_row list) \<Rightarrow> bool" where
  "setup_ok env rows \<longleftrightarrow> crs_db_ok (crsRepo env) rows
     \<and> (\<forall>p w w' n. CreateCrsProfile env p w = (None, w') \<longrightarrow> stored env n w' =
          (if pr_Name p = n then add_mset (pr_CrsFileName p, pr_CrsFileContent p) (stored env n w) else stored env n w))
     \<and> (\<forall>p w e w' n. CreateCrsProfile env p w = (Some e, w') \<longrightarrow> stored env n w' = stored env n w)
     \<and> (\<forall>w r w' n. AutoMigrate env w = (r, w') \<longrightarrow> stored env n w' = stored env n w)
     \<and> (\<forall>i w r w' n. FirstOrCreate_version env i w = (r, w') \<longrightarrow> stored env n w' = stored env n w)
     \<and> (\<forall>sql w r w' n. db_Exec env sql w = (r, w') \<longrightarrow> stored env n w' = stored env n w)
     \<and> (\<forall>v w i w' n. CreateCrsVersion env v w = (Inr i, w') \<longrightarrow>
          first_of_version (crsRepo env) i w' = Some ErrRecordNotFound \<and> stored env n w' = stored env n w)
     \<and> (\<forall>m. mset (visit_rules env m) = mset m)"

text \<open>
  Of the table of versions: creating one appends its row with the id that it gets, and creating a rule
  set leaves the table alone.
\<close>

definition versions_ok :: "('c, 'w) setup_env \<Rightarrow> ('w \<Rightarrow> version_row list) \<Rightarrow> bool" where
  "versions_ok env vers \<longleftrightarrow>
     (\<forall>v w i w'. CreateCrsVersion env v w = (Inr i, w') \<longrightarrow> vers w' = vers w @ [v\<lparr>cv_ID := i\<rparr>])
     \<and> (\<forall>r w e w'. create_rule_set (crsRepo env) r w = (e, w') \<longrightarrow> vers w' = vers w)"

lemma setup_laws:
  assumes "setup_ok env rows"
  shows "CreateCrsProfile env p w = (None, w') \<Longrightarrow> stored env n w' =
      (if pr_Name p = n then add_mset (pr_CrsFileName p, pr_CrsFileContent p) (stored env n w) else stored env n w)"
    and "CreateCrsProfile env p w = (Some e, w') \<Longrightarrow> stored env n w' = stored env n w"
    and "AutoMigrate env w = (r, w') \<Longrightarrow> stored env n w' = stored env n w"
    and "FirstOrCreate_version env i w = (r, w') \<Longrightarrow> stored env n w' = stored env n w"
    and "db_Exec env sql w = (r, w') \<Longrightarrow> stored env n w' = stored env n w"
    and "CreateCrsVersion env v w = (Inr j, w') \<Longrightarrow> first_of_version (crsRepo env) j w' = Some ErrRecordNotFound"
    and "CreateCrsVersion env v w = (Inr j, w') \<Longrightarrow> stored env n w' = stored env n w"
    and "mset (visit_rules env m) = mset m"
    and "crs_db_ok (crsRepo env) rows"
  using assms unfolding setup_ok_def by (blast | (elim conjE, metis))+

text \<open>Seeding a profile stores the files up to the first one that cannot be stored.\<close>

lemma seed_files_stored:
  assumes "setup_ok env rows" and "seed_files env p rules w = (err, w')"
  shows "\<exists>k \<le> length rules. (err = None \<longleftrightarrow> k = length rules) \<and> stored env p w' = stored env p w + mset (take k rules)
    \<and> (\<forall>n. n \<noteq> p \<longrightarrow> stored env n w' = stored env n w)"
  using assms(2)
proof (induction rules arbitrary: w)
  case (Cons f rules)
  obtain crsName crsContent where f: "f = (crsName, crsContent)" by fastforce
  let ?p = "\<lparr>pr_ID = 0, pr_Name = p, pr_CrsFileName = crsName, pr_CrsFileContent = crsContent\<rparr>"
  show ?case
  proof (cases "CreateCrsProfile env ?p w")
    case (Pair r w1)
    show ?thesis
    proof (cases r)
      case None
      with Pair Cons.prems f have s: "seed_files env p rules w1 = (err, w')" by simp
      from Cons.IH [OF s] obtain k where k: "k \<le> length rules" "err = None \<longleftrightarrow> k = length rules"
        "stored env p w' = stored env p w1 + mset (take k rules)" "\<forall>n. n \<noteq> p \<longrightarrow> stored env n w' = stored env n w1" by blast
      from Pair None setup_laws(1) [OF assms(1)] have c: "stored env n w1 = (if p = n then add_mset f (stored env n w) else stored env n w)" for n
        using f by fastforce
      show ?thesis by (rule exI [of _ "Suc k"]) (use k c in auto)
    next
      case (Some e)
      with Pair Cons.prems f setup_laws(2) [OF assms(1)] show ?thesis by fastforce
    qed
  qed
qed auto

text \<open>A profile with a file is not touched again.\<close>

lemma seed_profiles_keeps:
  assumes "setup_ok env rows" and "seed_profiles env ps w = (err, w')" and "stored env p w \<noteq> {#}"
  shows "stored env p w' = stored env p w"
  using assms(2,3)
proof (induction ps arbitrary: w)
  case (Cons q ps)
  show ?case
  proof (cases "profiles (crsRepo env) q w = []")
    case True
    with Cons.prems(2) have q: "p \<noteq> q" by auto
    show ?thesis
    proof (cases "CRSRuleSet (crsFS env) q")
      case (Inr rules)
      obtain r w1 where s: "seed_files env q (visit_rules env rules) w = (r, w1)" by fastforce
      with seed_files_stored [OF assms(1) s] q have k: "stored env p w1 = stored env p w" by auto
      with Cons.IH [of w1] Cons.prems True Inr s show ?thesis by (cases r) auto
    qed (use Cons.prems True in auto)
  qed (use Cons in auto)
qed simp

lemma seed_keeps:
  assumes "setup_ok env rows" and "seed env db s = Inr (err, s')" and "stored env p (snd s) \<noteq> {#}"
  shows "stored env p (snd s') = stored env p (snd s)"
proof -
  obtain r1 w1 where 1: "FirstOrCreate_version env 1 (snd s) = (r1, w1)" by fastforce
  obtain r2 w2 where 2: "seedSQLTriggers env w1 = (r2, w2)" by fastforce
  obtain r3 w3 where 3: "seedCrsProfiles env w2 = (r3, w3)" by fastforce
  have e1: "stored env p w1 = stored env p (snd s)" using setup_laws(4) [OF assms(1) 1] .
  have e2: "stored env p w2 = stored env p w1"
    using 2 setup_laws(5) [OF assms(1)] by (auto simp: seedSQLTriggers_def apfst_def map_prod_def split: sum.splits prod.splits)
  have e3: "stored env p w3 = stored env p w2"
    using seed_profiles_keeps [OF assms(1) 3 [unfolded seedCrsProfiles_def], of p] assms(3) e1 e2 by simp
  from assms(2) 1 2 3 have "snd s' \<in> {w1, w2, w3}"
    by (auto simp: seed_def bind_res_eq_Inr_iff split: option.splits)
  with e1 e2 e3 show ?thesis by auto
qed

lemma migrate_keeps:
  assumes "setup_ok env rows" and "migrate env db s = Inr (err, s')"
  shows "stored env p (snd s') = stored env p (snd s)"
  using assms(2) setup_laws(3) [OF assms(1)] by (auto simp: migrate_def bind_res_eq_Inr_iff split: prod.splits option.splits)

lemma db_conn_keeps:
  assumes "setup_ok env rows" and "db_conn env s = Inr (c, s')" and "stored env p (snd s) \<noteq> {#}"
  shows "stored env p (snd s') = stored env p (snd s)"
proof -
  from assms(2) obtain s1 where 1: "(if migrated (fst s) then Inr s else bind_res (migrate env (dbConn (fst s)) s) (\<lambda>(err, s). Inr s)) = Inr s1"
      and 2: "(if seeded (fst s1) then Inr s1 else bind_res (seed env (dbConn (fst s1)) s1) (\<lambda>(err, s). Inr s)) = Inr s'"
    by (auto simp: db_conn_def bind_res_eq_Inr_iff)
  from 1 migrate_keeps [OF assms(1)] have k: "stored env p (snd s1) = stored env p (snd s)"
    by (cases s) (auto simp: bind_res_eq_Inr_iff split: if_splits)
  show ?thesis
  proof (cases "seeded (fst s1)")
    case False
    with 2 obtain err where "seed env (dbConn (fst s1)) s1 = Inr (err, s')" by (auto simp: bind_res_eq_Inr_iff)
    from seed_keeps [OF assms(1) this] k assms(3) show ?thesis by metis
  qed (use 2 k in simp)
qed


lemma calls_keep:
  assumes "setup_ok env rows" and "fold_res (\<lambda>s _. bind_res (db_conn env s) (\<lambda>(c, s). Inr s)) s calls = Inr s'"
    and "stored env p (snd s) \<noteq> {#}"
  shows "stored env p (snd s') = stored env p (snd s)"
  using assms(2,3)
proof (induction calls arbitrary: s)
  case (Cons call calls)
  then obtain c s1 where s1: "db_conn env s = Inr (c, s1)"
      "fold_res (\<lambda>s _. bind_res (db_conn env s) (\<lambda>(c, s). Inr s)) s1 calls = Inr s'"
    by (auto simp: bind_res_eq_Inr_iff)
  from db_conn_keeps [OF assms(1) s1(1) Cons.prems(2)] Cons.IH [OF s1(2)] Cons.prems(2) show ?case by simp
qed simp
section \<open>A database in memory\<close>

text \<open>
  A database that consists of the list of its profiles, of which it can store so many, of its rule sets and of
  its versions.
\<close>

type_synonym memory = "profile_row list \<times> rule_set_row list \<times> version_row list"

abbreviation mem_rules :: "memory \<Rightarrow> rule_set_row list" where
  "mem_rules w \<equiv> fst (snd w)"

abbreviation mem_versions :: "memory \<Rightarrow> version_row list" where
  "mem_versions w \<equiv> snd (snd w)"

definition memory_crs :: "memory crs_db" where
  "memory_crs = \<lparr>
     app_rule_set = (\<lambda>app i w. app_rule_set rule_list_db app i (mem_rules w)),
     save_rule_set = (\<lambda>r w. apsnd (\<lambda>rs. (fst w, rs, mem_versions w)) (save_rule_set rule_list_db r (mem_rules w))),
     create_rule_set = (\<lambda>r w. apsnd (\<lambda>rs. (fst w, rs, mem_versions w)) (create_rule_set rule_list_db r (mem_rules w))),
     first_of_version = (\<lambda>v w. first_of_version rule_list_db v (mem_rules w)),
     profiles = (\<lambda>n w. filter (\<lambda>p. pr_Name p = n) (fst w)),
     first_protection = (\<lambda>w. Inr new_row)\<rparr>"

definition small_profiles :: "string \<rightharpoonup> embed_node" where
  "small_profiles = [''profiles/full'' \<mapsto> Embedded_Dir [(''crs-setup.conf'', Embedded_File ''SecAction id:900000''),
       (''rules'', Embedded_Dir [(''911.conf'', Embedded_File ''SecRule'')])],
     ''profiles/empty'' \<mapsto> Embedded_Dir [(''crs-setup.conf'', Embedded_File ''SecAction id:1''),
       (''rules'', Embedded_Dir [(''800.conf'', Embedded_File [])])]]"

definition memory_env :: "nat \<Rightarrow> (unit, memory) setup_env" where
  "memory_env limit = \<lparr>
     gorm_Open = (\<lambda>_ _. (Some (), None)),
     AutoMigrate = (\<lambda>w. (None, w)),
     FirstOrCreate_version = (\<lambda>_ w. (None, w)),
     db_Exec = (\<lambda>_ w. (None, w)),
     CreateCrsProfile = (\<lambda>p w. if length (fst w) < limit then (None, (fst w @ [p\<lparr>pr_ID := word_of_nat (Suc (length (fst w)))\<rparr>], snd w))
       else (Some (Db_Error ''disk full''), w)),
     CreateCrsVersion = (\<lambda>v w. let i = word_of_nat (Suc (length (mem_versions w))) in
       if list_ex (\<lambda>r. rs_CrsVersionID r = i) (mem_rules w) then (Inl (Db_Error ''duplicate key''), w)
       else (Inr i, (fst w, mem_rules w, mem_versions w @ [v\<lparr>cv_ID := i\<rparr>]))),
     crsRepo = memory_crs,
     crsFS = small_profiles,
     sqlFS = [''triggers.sql'' \<mapsto> ''select 1''],
     visit_rules = rev\<rparr>"

lemma memory_crs_ok: "crs_db_ok memory_crs mem_rules"
  by (auto simp: crs_db_ok_def memory_crs_def rule_list_db_def)

lemma memory_versions_ok: "versions_ok (memory_env limit) mem_versions"
  by (auto simp: versions_ok_def memory_env_def memory_crs_def rule_list_db_def Let_def split: if_splits)

lemma memory_env_ok: "setup_ok (memory_env limit) mem_rules"
  unfolding setup_ok_def stored_def
  by (auto simp: memory_env_def memory_crs_ok Let_def split: if_splits) (auto simp: memory_crs_def rule_list_db_def list_ex_iff)

definition unconnected :: "unit db_globals" where
  "unconnected = \<lparr>dbConn = None, migrated = False, seeded = False\<rparr>"

section \<open>Properties\<close>

lemma seed_files_other:
  assumes "setup_ok env rows" and "seed_files env q rules w = (err, w')" and "p \<noteq> q"
  shows "stored env p w' = stored env p w"
  using seed_files_stored [OF assms(1,2)] assms(3) by blast

lemma seed_profiles_other:
  assumes "setup_ok env rows" and "seed_profiles env ps w = (err, w')" and "p \<notin> set ps"
  shows "stored env p w' = stored env p w"
  using assms(2,3)
proof (induction ps arbitrary: w)
  case (Cons q ps)
  consider "seed_profiles env ps w = (err, w')" | "w' = w"
    | rules err1 w1 where "seed_files env q rules w = (err1, w1)" "w' = w1 \<or> seed_profiles env ps w1 = (err, w')"
    using Cons.prems(1) by (auto split: if_splits sum.splits prod.splits option.splits)
  then show ?case
  proof cases
    case (3 rules err1 w1)
    with seed_files_other [OF assms(1) 3(1), of p] Cons.IH [of w1] Cons.prems(2) show ?thesis by auto
  qed (use Cons in auto)
qed simp

lemma seeded_profile:
  assumes "setup_ok env rows" and "seed_profiles env ps w = (None, w')" and "distinct ps" and "p \<in> set ps"
    and "stored env p w = {#}" and "CRSRuleSet (crsFS env) p = Inr rules"
  shows "stored env p w' = mset rules"
  using assms(2-5)
proof (induction ps arbitrary: w)
  case (Cons q ps)
  show ?case
  proof (cases "q = p")
    case True
    with Cons.prems assms(6) obtain w1 where w1: "seed_files env p (visit_rules env rules) w = (None, w1)" "seed_profiles env ps w1 = (None, w')"
      by (auto split: prod.splits option.splits)
    from seed_files_stored [OF assms(1) w1(1)] setup_laws(8) [OF assms(1)] Cons.prems(4) have "stored env p w1 = mset rules" by auto
    with seed_profiles_other [OF assms(1) w1(2), of p] Cons.prems(2) True show ?thesis by simp
  next
    case False
    consider "seed_profiles env ps w = (None, w')"
      | rules' w1 where "seed_files env q rules' w = (None, w1)" "seed_profiles env ps w1 = (None, w')"
      using Cons.prems(1) by (auto split: if_splits sum.splits prod.splits option.splits)
    then show ?thesis
    proof cases
      case (2 rules' w1)
      with seed_files_other [OF assms(1) 2(1), of p] False Cons.IH [of w1] Cons.prems show ?thesis by auto
    qed (use Cons False in auto)
  qed
qed simp

lemma NewDb_seeded:
  assumes "setup_ok env rows" and "dbConn g = None" and "NewDb env cfg (g, w) = Inr (Inr c, (g1, w1))"
  obtains w0 where "seedCrsProfiles env w0 = (None, w1)" and "\<And>n. stored env n w0 = stored env n w"
proof -
  from assms(2,3) obtain conn g2 w2 where m: "migrate env conn (g\<lparr>dbConn := conn\<rparr>, w) = Inr (None, (g2, w2))"
      "seed env conn (g2, w2) = Inr (None, (g1, w1))"
    by (auto simp: NewDb_def Let_def bind_res_eq_Inr_iff split: prod.splits option.splits)
  from m(2) obtain w3 w4 where w: "FirstOrCreate_version env 1 w2 = (None, w3)" "seedSQLTriggers env w3 = (None, w4)"
      "seedCrsProfiles env w4 = (None, w1)"
    by (auto simp: seed_def bind_res_eq_Inr_iff split: prod.splits option.splits)
  have "stored env n w4 = stored env n w3" for n
    using w(2) setup_laws(5) [OF assms(1)] by (auto simp: seedSQLTriggers_def apfst_def map_prod_def split: sum.splits prod.splits)
  moreover have "stored env n w2 = stored env n w" for n using migrate_keeps [OF assms(1) m(1)] by simp
  ultimately show ?thesis using that [OF w(3)] setup_laws(4) [OF assms(1) w(1)] by simp
qed

lemma clone_files_versions:
  assumes "versions_ok env vers" and "clone_files (crsRepo env) v ps w = (err, w')"
  shows "vers w' = vers w"
  using assms(2)
proof (induction ps arbitrary: w)
  case (Cons p ps)
  then show ?case
    using assms(1) unfolding versions_ok_def by (auto split: prod.splits option.splits)
qed simp

lemma AfterCreate_files:
  assumes "setup_ok env rows" and "versions_ok env vers" and "AfterCreate env protectionId w = (None, w')"
  obtains i where "vers w' = vers w @ [\<lparr>cv_ID = i, cv_Tag = ''default'', cv_Status = 1, cv_CrsRuleSets = [], cv_ProtectionID = protectionId\<rparr>]"
    and "mset (version_files i (rows w')) = stored env DefaultCRSProfileName w"
proof -
  let ?row = "\<lparr>cv_ID = 0, cv_Tag = ''default'', cv_Status = 1, cv_CrsRuleSets = [], cv_ProtectionID = protectionId\<rparr>"
  from assms(3) obtain i w1 where i: "CreateCrsVersion env ?row w = (Inr i, w1)"
      "CloneCrsProfileToCrsRuleSet (crsRepo env) DefaultCRSProfileName i w1 = (None, w')"
    by (auto simp: AfterCreate_def DefaultCrsVersionTag_def CRS_VERSION_STATUS_ACTIVE_def split: prod.splits sum.splits)
  note new = setup_laws(6) [OF assms(1) i(1)]
  with i(2) have c: "clone_files (crsRepo env) i (profiles (crsRepo env) DefaultCRSProfileName w1) w1 = (None, w')"
    by (auto simp: CloneCrsProfileToCrsRuleSet_def uniqueCloneProfileOperation_def Let_def split: if_splits)
  have "vers w' = vers w @ [?row\<lparr>cv_ID := i\<rparr>]"
    using clone_files_versions [OF assms(2) c] assms(2) i(1) unfolding versions_ok_def by metis
  moreover have "version_files i (rows w1) = []"
    using new setup_laws(9) [OF assms(1)] by (auto simp: crs_db_ok_def version_files_def filter_empty_conv list_ex_iff)
  with clone_files_rows(1) [OF setup_laws(9) [OF assms(1)] c] have "mset (version_files i (rows w')) = stored env DefaultCRSProfileName w1"
    by (simp add: stored_def)
  ultimately show ?thesis using setup_laws(7) [OF assms(1) i(1)] that by simp
qed

text \<open>
  C12: The rules of a new protection.  A server is started on a database without the default profile,
  connects and sets it up without an error.  If a protection is then created while the profile is as it was
  seeded, one row is added to the table of versions, namely an active version (status 1) of this protection with
  the tag \<^verbatim>\<open>default\<close>, and the rule sets of this version are exactly the files of the embedded directory
  \<^verbatim>\<open>profiles/empty\<close>, with their paths below it and their contents.
\<close>

theorem new_protection_gets_the_embedded_files:
  assumes "setup_ok env rows" and "versions_ok env vers"
    and "dbConn g = None" and "NewDb env cfg (g, w) = Inr (Inr c, (g1, w1))"
    and "profiles (crsRepo env) DefaultCRSProfileName w = []"
    and "crsFS env ''profiles/empty'' = Some (Embedded_Dir entries)"
    and "distinct (map fst (walk_files ''profiles/empty'' (Embedded_Dir entries)))"
    and "stored env DefaultCRSProfileName w2 = stored env DefaultCRSProfileName w1"
    and "AfterCreate env protectionId w2 = (None, w3)"
  shows "\<exists>i. vers w3 = vers w2 @ [\<lparr>cv_ID = i, cv_Tag = ''default'', cv_Status = 1, cv_CrsRuleSets = [],
        cv_ProtectionID = protectionId\<rparr>]
    \<and> mset (map (apfst (\<lambda>n. ''profiles/empty'' @ ''/'' @ n)) (version_files i (rows w3)))
      = mset (walk_files ''profiles/empty'' (Embedded_Dir entries))"
proof -
  let ?dir = "''profiles/'' @ DefaultCRSProfileName"
  have d: "''profiles/empty'' = ?dir" by (simp add: DefaultCRSProfileName_def EmptyCRSProfileName_def)
  obtain rules where r: "CRSRuleSet (crsFS env) DefaultCRSProfileName = Inr rules"
      "map (apfst (\<lambda>n. ?dir @ ''/'' @ n)) rules = walk_files ?dir (Embedded_Dir entries)"
    by (rule CRSRuleSet_files [of "crsFS env" DefaultCRSProfileName, OF assms(6,7) [unfolded d]])
  obtain w0 where w0: "seedCrsProfiles env w0 = (None, w1)" "\<And>n. stored env n w0 = stored env n w"
    using NewDb_seeded [OF assms(1,3,4)] by metis
  have "stored env DefaultCRSProfileName w1 = mset rules"
    by (rule seeded_profile [OF assms(1) w0(1) [unfolded seedCrsProfiles_def] _ _ _ r(1)])
      (use w0(2) [of DefaultCRSProfileName] assms(5) in
        \<open>simp_all add: FullCRSProfileName_def DefaultCRSProfileName_def EmptyCRSProfileName_def flip: stored_empty_iff\<close>)
  moreover obtain i where
    i: "vers w3 = vers w2 @ [\<lparr>cv_ID = i, cv_Tag = ''default'', cv_Status = 1, cv_CrsRuleSets = [], cv_ProtectionID = protectionId\<rparr>]"
      "mset (version_files i (rows w3)) = stored env DefaultCRSProfileName w2"
    using AfterCreate_files [OF assms(1,2,9)] by metis
  ultimately have "mset (version_files i (rows w3)) = mset rules" using assms(8) by simp
  then have "mset (map (apfst (\<lambda>n. ?dir @ ''/'' @ n)) (version_files i (rows w3))) = mset (walk_files ?dir (Embedded_Dir entries))"
    by (simp only: mset_map r(2) [symmetric])
  with i(1) show ?thesis unfolding d by blast
qed

lemmas memory_simps = memory_env_def memory_crs_def rule_list_db_def

definition profile_file :: "nat \<Rightarrow> string \<Rightarrow> string \<times> string \<Rightarrow> profile_row" where
  "profile_file i p f = \<lparr>pr_ID = word_of_nat i, pr_Name = p, pr_CrsFileName = fst f, pr_CrsFileContent = snd f\<rparr>"

definition full_files :: "(string \<times> string) list" where
  "full_files = [(''crs-setup.conf'', ''SecAction id:900000''), (''rules/911.conf'', ''SecRule'')]"

definition empty_files :: "(string \<times> string) list" where
  "empty_files = [(''crs-setup.conf'', ''SecAction id:1''), (''rules/800.conf'', [])]"

lemma small_rules:
  "CRSRuleSet small_profiles FullCRSProfileName = Inr full_files" "CRSRuleSet small_profiles EmptyCRSProfileName = Inr empty_files"
  by (simp_all add: CRSRuleSet_def small_profiles_def FullCRSProfileName_def EmptyCRSProfileName_def Let_def put_entry_def has_prefix_def
      full_files_def empty_files_def)

lemma memory_env_fields [simp]:
  "crsRepo (memory_env n) = memory_crs" "crsFS (memory_env n) = small_profiles" "visit_rules (memory_env n) = rev"
  "AutoMigrate (memory_env n) w = (None, w)" "FirstOrCreate_version (memory_env n) i w = (None, w)"
  "seedSQLTriggers (memory_env n) w = (None, w)" "gorm_Open (memory_env n) d w = (Some (), None)"
  "profiles memory_crs p w = filter (\<lambda>r. pr_Name r = p) (fst w)"
  "CreateCrsProfile (memory_env n) \<lparr>pr_ID = 0, pr_Name = p, pr_CrsFileName = f, pr_CrsFileContent = d\<rparr> w =
     (if length (fst w) < n then (None, (fst w @ [profile_file (Suc (length (fst w))) p (f, d)], snd w)) else (Some (Db_Error ''disk full''), w))"
  by (simp_all add: memory_env_def memory_crs_def seedSQLTriggers_def sql_Triggers_def profile_file_def)

lemma profile_names [simp]: "FullCRSProfileName \<noteq> EmptyCRSProfileName" "EmptyCRSProfileName \<noteq> FullCRSProfileName"
  by (simp_all add: FullCRSProfileName_def EmptyCRSProfileName_def)

lemma profile_file_name [simp]: "pr_Name (profile_file i p f) = p"
  by (simp add: profile_file_def)

definition seeded_world :: memory where
  "seeded_world = ([profile_file 1 FullCRSProfileName (full_files ! 1), profile_file 2 FullCRSProfileName (full_files ! 0),
     profile_file 3 EmptyCRSProfileName (empty_files ! 1), profile_file 4 EmptyCRSProfileName (empty_files ! 0)], [], [])"

lemma memory_seeded: "seedCrsProfiles (memory_env 9) ([], [], []) = (None, seeded_world)"
  using small_rules by (simp add: seedCrsProfiles_def full_files_def empty_files_def seeded_world_def eval_nat_numeral)

lemma memory_cloned: "\<exists>w. AfterCreate (memory_env n) 7 seeded_world = (None, w)"
  by (simp add: AfterCreate_def CloneCrsProfileToCrsRuleSet_def uniqueCloneProfileOperation_def memory_simps seeded_world_def
      DefaultCRSProfileName_def Let_def)

definition test_cfg :: DbCfg where
  "test_cfg = \<lparr>cfg_host = ''localhost'', cfg_port = 5432, cfg_user = ''wafie'', cfg_password = [], cfg_dbName = ''wafie''\<rparr>"

lemma memory_NewDb: "NewDb (memory_env 9) test_cfg (unconnected, ([], [], [])) =
    Inr (Inr (Some ()), (\<lparr>dbConn = Some (), migrated = True, seeded = True\<rparr>, seeded_world))"
  by (simp add: NewDb_def unconnected_def migrate_def seed_def memory_seeded deref_def)

theorem new_protection_gets_the_embedded_files_witness:
  "\<exists>g1 w1 w3 i. NewDb (memory_env 9) test_cfg (unconnected, ([], [], [])) = Inr (Inr (Some ()), (g1, w1)) \<and> AfterCreate (memory_env 9) 7 w1 = (None, w3)
    \<and> map cv_ProtectionID (mem_versions w3) = [7] \<and> map cv_ID (mem_versions w3) = [i]
    \<and> mset (map (apfst (\<lambda>n. ''profiles/empty'' @ ''/'' @ n)) (version_files i (mem_rules w3)))
      = {#(''profiles/empty/crs-setup.conf'', ''SecAction id:1''), (''profiles/empty/rules/800.conf'', [])#}"
proof -
  obtain w3 where w3: "AfterCreate (memory_env 9) 7 seeded_world = (None, w3)" using memory_cloned by blast
  obtain entries where e: "small_profiles ''profiles/empty'' = Some (Embedded_Dir entries)"
      "walk_files ''profiles/empty'' (Embedded_Dir entries)
        = [(''profiles/empty/crs-setup.conf'', ''SecAction id:1''), (''profiles/empty/rules/800.conf'', [])]"
    by (simp add: small_profiles_def)
  have seeded: "mem_versions seeded_world = []" by (simp add: seeded_world_def)
  have "\<exists>i. mem_versions w3 = mem_versions seeded_world @ [\<lparr>cv_ID = i, cv_Tag = ''default'', cv_Status = 1, cv_CrsRuleSets = [],
        cv_ProtectionID = 7\<rparr>]
      \<and> mset (map (apfst (\<lambda>n. ''profiles/empty'' @ ''/'' @ n)) (version_files i (mem_rules w3)))
        = mset (walk_files ''profiles/empty'' (Embedded_Dir entries))"
    by (rule new_protection_gets_the_embedded_files [OF memory_env_ok memory_versions_ok _ memory_NewDb _ _ _ refl w3])
      (use e in \<open>simp_all add: unconnected_def\<close>)
  then obtain i where i: "mem_versions w3 = [\<lparr>cv_ID = i, cv_Tag = ''default'', cv_Status = 1, cv_CrsRuleSets = [], cv_ProtectionID = 7\<rparr>]"
      "mset (map (apfst (\<lambda>n. ''profiles/empty'' @ ''/'' @ n)) (version_files i (mem_rules w3)))
        = mset (walk_files ''profiles/empty'' (Embedded_Dir entries))"
    unfolding seeded append_Nil by blast
  have row: "map cv_ProtectionID (mem_versions w3) = [7]" "map cv_ID (mem_versions w3) = [i]" using i(1) by simp_all
  show ?thesis
    by (intro exI conjI) (rule memory_NewDb, rule w3, rule row, rule row, rule i(2) [unfolded e(2) mset.simps])
qed

text \<open>
  C31: An interrupted seeding is never completed.  If storing the files of the full profile fails after some have been stored,
  setting up fails with the profile incomplete; and however often the repositories ask for the connection
  later, which repeats the seeding, the profile stays as it is: a profile with one file counts as seeded.
\<close>

theorem interrupted_seeding_is_not_completed:
  assumes "setup_ok env rows" and "profiles (crsRepo env) FullCRSProfileName w = []"
    and "CRSRuleSet (crsFS env) FullCRSProfileName = Inr rules"
    and "seed_files env FullCRSProfileName (visit_rules env rules) w = (Some e, w1)"
    and "profiles (crsRepo env) FullCRSProfileName w1 \<noteq> []"
    and "fold_res (\<lambda>s _. bind_res (db_conn env s) (\<lambda>(c, s). Inr s)) (g, w1) calls = Inr (g2, w2)"
  shows "seedCrsProfiles env w = (Some e, w1) \<and> stored env FullCRSProfileName w2 = stored env FullCRSProfileName w1
    \<and> size (stored env FullCRSProfileName w2) < length rules"
proof -
  have "seedCrsProfiles env w = (Some e, w1)" using assms(2-4) by (simp add: seedCrsProfiles_def)
  moreover have "stored env FullCRSProfileName w2 = stored env FullCRSProfileName w1"
    using calls_keep [OF assms(1,6)] assms(5) by simp
  moreover have "size (stored env FullCRSProfileName w1) < length rules"
  proof -
    have "stored env FullCRSProfileName w = {#}" using assms(2) by simp
    moreover have "length (visit_rules env rules) = length rules" using setup_laws(8) [OF assms(1)] by (metis size_mset)
    ultimately show ?thesis using seed_files_stored [OF assms(1,4)] by (auto simp del: stored_empty_iff)
  qed
  ultimately show ?thesis by simp
qed

theorem interrupted_seeding_is_not_completed_witness:
  "\<exists>w1 g2 w2. seedCrsProfiles (memory_env 1) ([], [], []) = (Some (Setup_Db (Db_Error ''disk full'')), w1)
    \<and> fold_res (\<lambda>s _. bind_res (db_conn (memory_env 1) s) (\<lambda>(c, s). Inr s)) (unconnected\<lparr>dbConn := Some ()\<rparr>, w1) [(), ()] = Inr (g2, w2)
    \<and> size (stored (memory_env 1) FullCRSProfileName w2) = 1 \<and> length full_files = 2"
proof -
  let ?w1 = "([profile_file 1 FullCRSProfileName (''rules/911.conf'', ''SecRule'')], [], []) :: memory"
  let ?g2 = "\<lparr>dbConn = Some (), migrated = True, seeded = False\<rparr>"
  have s: "seed_files (memory_env 1) FullCRSProfileName (visit_rules (memory_env 1) full_files) ([], [], [])
      = (Some (Setup_Db (Db_Error ''disk full'')), ?w1)"
    by (simp add: full_files_def)
  have again: "seedCrsProfiles (memory_env 1) ?w1 = (Some (Setup_Db (Db_Error ''disk full'')), ?w1)"
    using small_rules(2) by (simp add: seedCrsProfiles_def empty_files_def)
  have f: "fold_res (\<lambda>s _. bind_res (db_conn (memory_env 1) s) (\<lambda>(c, s). Inr s)) (unconnected\<lparr>dbConn := Some ()\<rparr>, ?w1) [(), ()] = Inr (?g2, ?w1)"
    by (simp add: db_conn_def unconnected_def migrate_def seed_def again deref_def del: One_nat_def)
  have "seedCrsProfiles (memory_env 1) ([], [], []) = (Some (Setup_Db (Db_Error ''disk full'')), ?w1)
      \<and> stored (memory_env 1) FullCRSProfileName ?w1 = stored (memory_env 1) FullCRSProfileName ?w1
      \<and> size (stored (memory_env 1) FullCRSProfileName ?w1) < length full_files"
    by (rule interrupted_seeding_is_not_completed [OF memory_env_ok _ _ s _ f]) (use small_rules(1) in simp_all)
  moreover have "size (stored (memory_env 1) FullCRSProfileName ?w1) = 1" "length full_files = 2"
    by (simp_all add: stored_def full_files_def)
  ultimately show ?thesis using f by blast
qed

text \<open>A failed set-up is reported once: if there is a connection, the next call returns it as if all had gone well.\<close>

lemma failed_NewDb_then_success:
  assumes "NewDb env cfg (g, w) = Inr (Inl e, (g1, w1))" and "dbConn g1 = Some c" and "\<not> seeded g"
  shows "NewDb env cfg' (g1, w2) = Inr (Inr (Some c), (g1, w2)) \<and> \<not> seeded g1"
  using assms
  by (auto simp: NewDb_def migrate_def seed_def Let_def bind_res_eq_Inr_iff split: prod.splits option.splits if_splits)

text \<open>Asking for the connection panics exactly if there is none and the set-up is not complete.\<close>

lemma db_conn_panics_iff:
  "(\<exists>f. db_conn env s = Inl f) \<longleftrightarrow> dbConn (fst s) = None \<and> \<not> (migrated (fst s) \<and> seeded (fst s))"
proof (cases "dbConn (fst s)")
  case None
  then show ?thesis by (simp add: db_conn_def migrate_def seed_def deref_def)
next
  case (Some c)
  have m: "\<exists>r g w. migrate env (Some c) s = Inr (r, (g, w)) \<and> dbConn g = Some c"
    using Some by (auto simp: migrate_def deref_def split: prod.splits option.splits)
  then obtain g w where
    1: "(if migrated (fst s) then Inr s else bind_res (migrate env (dbConn (fst s)) s) (\<lambda>(err, s). Inr s)) = Inr (g, w)" "dbConn g = Some c"
    using Some that [of "fst s" "snd s"] that by (cases "migrated (fst s)") auto
  have "\<exists>r s'. seed env (Some c) (g, w) = Inr (r, s')"
    by (auto simp: seed_def deref_def split: prod.splits option.splits)
  then obtain r s' where "seed env (Some c) (g, w) = Inr (r, s')" by blast
  with 1 have "\<exists>r. db_conn env s = Inr r" by (simp add: db_conn_def)
  with Some show ?thesis by auto
qed

end
