(* ===== verification/Apisrv_Service.thy ===== *)
theory Apisrv_Service
  imports Apisrv_Setup
begin

text \<open>
  The services of the API server that clients call (\<^verbatim>\<open>apisrv/pkg/apiserver\<close>): applications, protections and
  rule sets, with the repository of applications (\<^verbatim>\<open>models/application.go\<close>) and the decoding of the rules that
  clients send (\<^verbatim>\<open>encoding/base64\<close>).  The lemmas show that rules arrive as they were encoded, that rules which
  cannot be decoded change nothing, and which requests panic.
\<close>

section \<open>Base64\<close>

definition alphabet :: string where
  "alphabet = ''ABCDEFGHIJKLMNOPQRSTUVWXYZabcdefghijklmnopqrstuvwxyz0123456789+/''"

definition b64_val :: "char \<Rightarrow> nat option" where
  "b64_val c = map_of (zip alphabet [0..<64]) c"

text \<open>
  \<open>base64.StdEncoding\<close>: groups of four characters stand for three bytes; the last group may be padded; the
  bits that padding leaves over are ignored.  Line ends are skipped wherever they are.
\<close>

definition quantum :: "nat \<Rightarrow> nat \<Rightarrow> nat \<Rightarrow> nat \<Rightarrow> string" where
  "quantum a b c d = (let v = a * 2 ^ 18 + b * 2 ^ 12 + c * 2 ^ 6 + d
     in [char_of (v div 2 ^ 16), char_of (v div 2 ^ 8 mod 256), char_of (v mod 256)])"

fun decode_quanta :: "string \<Rightarrow> string option" where
  "decode_quanta [] = Some []"
| "decode_quanta (w # x # y # z # rest) =
     (case (b64_val w, b64_val x) of
        (Some a, Some b) \<Rightarrow>
          if y = CHR ''='' then (if z = CHR ''='' \<and> rest = [] then Some (take 1 (quantum a b 0 0)) else None)
          else (case b64_val y of
            None \<Rightarrow> None
          | Some c \<Rightarrow>
              if z = CHR ''='' then (if rest = [] then Some (take 2 (quantum a b c 0)) else None)
              else (case b64_val z of
                None \<Rightarrow> None
              | Some d \<Rightarrow> map_option ((@) (quantum a b c d)) (decode_quanta rest)))
      | _ \<Rightarrow> None)"
| "decode_quanta _ = None"

definition newline :: "char \<Rightarrow> bool" where
  "newline c \<longleftrightarrow> c = CHR 0x0A \<or> c = CHR 0x0D"

definition DecodeString :: "string \<Rightarrow> string option" where
  "DecodeString s = decode_quanta (filter (\<lambda>c. \<not> newline c) s)"

section \<open>Rule sets\<close>

datatype code = CodeInvalidArgument | CodeNotFound | CodeInternal | CodeUnknown

record Rule_msg =
  Base64Rule :: "string list"
  RuleSetId :: uint32
  ApplicationName :: string

definition svc_CreateRule :: "'db crs_db \<Rightarrow> Rule_msg option \<Rightarrow> 'db \<Rightarrow> ((code + unit) \<times> 'db) res" where
  "svc_CreateRule repo req db = bind_res (deref req) (\<lambda>rule. case those (map DecodeString (Base64Rule rule)) of
     None \<Rightarrow> Inr (Inl CodeInvalidArgument, db)
   | Some decodedRules \<Rightarrow>
       bind_res (CreateRule repo (ucast (RuleSetId rule)) decodedRules (ApplicationName rule) db) (\<lambda>(err, db).
         Inr (case err of Some _ \<Rightarrow> Inl CodeInternal | None \<Rightarrow> Inr (), db)))"

definition svc_CreateCrsRuleSet :: "'db crs_db \<Rightarrow> string \<Rightarrow> uint32 \<Rightarrow> 'db \<Rightarrow> (code + unit) \<times> 'db" where
  "svc_CreateCrsRuleSet repo profileName crsVersionId db = (case CloneCrsProfileToCrsRuleSet repo profileName (ucast crsVersionId) db of
     (Some _, db) \<Rightarrow> (Inl CodeInternal, db) | (None, db) \<Rightarrow> (Inr (), db))"

definition svc_CreateCrsVersion ::
    "('c, 'w) setup_env \<Rightarrow> engine \<Rightarrow> (string \<Rightarrow> string) \<Rightarrow> v1_CrsVersion option \<Rightarrow> 'w \<Rightarrow> (code + v1_CrsVersion) \<times> 'w" where
  "svc_CreateCrsVersion env tmpl md5 version w =
     (let v = CrsVersion_FromProto version \<lparr>cv_ID = 0, cv_Tag = [], cv_Status = 0, cv_CrsRuleSets = [], cv_ProtectionID = 0\<rparr> in
      case CreateCrsVersion env v w of
        (Inl _, w) \<Rightarrow> (Inl CodeInternal, w)
      | (Inr i, w) \<Rightarrow> (Inr (CrsVersion_ToProto (crsRepo env) tmpl md5 w (v\<lparr>cv_ID := i\<rparr>)), w))"

section \<open>Applications\<close>

text \<open>The queries: the first application of an id, and all of them, with or without their ingresses.\<close>

record 'db app_db =
  app_First :: "uint32 \<Rightarrow> 'db \<Rightarrow> db_error + app_row"
  app_Find :: "bool \<Rightarrow> 'db \<Rightarrow> db_error + app_row list"

definition GetApplication :: "'db app_db \<Rightarrow> uint32 \<Rightarrow> 'db \<Rightarrow> code + app_row" where
  "GetApplication repo i db = (case app_First repo i db of
     Inr app \<Rightarrow> Inr app | Inl ErrRecordNotFound \<Rightarrow> Inl CodeNotFound | Inl _ \<Rightarrow> Inl CodeInternal)"

text \<open>The options are \<open>IncludeIngress\<close>; asking absent options panics.\<close>

definition ListApplications :: "'db app_db \<Rightarrow> bool option \<Rightarrow> 'db \<Rightarrow> (code + app_row list) res" where
  "ListApplications repo options db = bind_res (deref options) (\<lambda>includeIngress. Inr (case app_Find repo includeIngress db of
     Inl _ \<Rightarrow> Inl CodeUnknown | Inr apps \<Rightarrow> Inr apps))"

text \<open>An update looks at a new, empty application; \<open>GetName\<close> of an absent message is empty.\<close>

definition UpdateApplication :: "Application option \<Rightarrow> code + app_row" where
  "UpdateApplication req = (let app = \<lparr>ar_ID = 0, ar_Name = [], ar_Ingresses = []\<rparr>; name = (case req of None \<Rightarrow> [] | Some a \<Rightarrow> app_Name a) in
     if name \<noteq> [] \<and> ar_Name app \<noteq> name then Inl CodeUnknown else Inr app)"

definition svc_CreateApplication :: "'db route_db \<Rightarrow> string \<Rightarrow> 'db \<Rightarrow> (code + uint32) \<times> 'db" where
  "svc_CreateApplication repo name db = (case CreateApplication repo name db of
     (Inl _, db) \<Rightarrow> (Inl CodeUnknown, db) | (Inr i, db) \<Rightarrow> (Inr (ucast i), db))"

definition svc_GetApplication ::
    "((string \<times> endpoint_row) list \<Rightarrow> (string \<times> endpoint_row) list) \<Rightarrow> 'db app_db \<Rightarrow> uint32 \<Rightarrow> 'db \<Rightarrow> code + Application" where
  "svc_GetApplication visit repo i db = bind_res (GetApplication repo i db) (\<lambda>app. Inr (Application_ToProto visit app))"

definition svc_ListApplications ::
    "((string \<times> endpoint_row) list \<Rightarrow> (string \<times> endpoint_row) list) \<Rightarrow> 'db app_db \<Rightarrow> bool option \<Rightarrow> 'db \<Rightarrow> (code + Application list) res" where
  "svc_ListApplications visit repo options db = bind_res (ListApplications repo options db) (\<lambda>apps.
     Inr (bind_res apps (\<lambda>apps. Inr (map (Application_ToProto visit) apps))))"

definition svc_PutApplication ::
    "((string \<times> endpoint_row) list \<Rightarrow> (string \<times> endpoint_row) list) \<Rightarrow> Application option \<Rightarrow> code + Application" where
  "svc_PutApplication visit req = bind_res (UpdateApplication req) (\<lambda>app. Inr (Application_ToProto visit app))"

section \<open>Protections\<close>

text \<open>The codes of errors; errors without a code of their own are reported as unknown.\<close>

fun svc_code :: "svc_error \<Rightarrow> code" where
  "svc_code (Code_NotFound _) = CodeNotFound"
| "svc_code (Code_Internal_Db _) = CodeInternal"
| "svc_code (Code_Internal_CIDR _) = CodeInternal"
| "svc_code (Plain_Db_Error _) = CodeUnknown"

fun list_code :: "list_error \<Rightarrow> code" where
  "list_code Options_Required = CodeInvalidArgument"
| "list_code (List_Failed _) = CodeUnknown"

definition svc_CreateProtection :: "'db protection_db \<Rightarrow> uint32 \<Rightarrow> 'db \<Rightarrow> (code + Protection) \<times> 'db" where
  "svc_CreateProtection repo applicationId db = (case UpsertProtection repo applicationId db of
     (Inl _, db) \<Rightarrow> (Inl CodeInternal, db) | (Inr p, db) \<Rightarrow> (Inr (Protection_ToProto None p), db))"

definition svc_GetProtection :: "'db protection_db \<Rightarrow> uint32 option \<Rightarrow> uint32 option \<Rightarrow> 'db \<Rightarrow> code + Protection" where
  "svc_GetProtection repo pid appId db = (case GetProtection repo pid appId db of
     Inl e \<Rightarrow> Inl (svc_code e) | Inr p \<Rightarrow> Inr (Protection_ToProto None p))"

definition svc_PutProtection :: "'db protection_db \<Rightarrow> PutProtectionRequest \<Rightarrow> 'db \<Rightarrow> ((code + Protection) \<times> 'db) res" where
  "svc_PutProtection repo req db = bind_res (UpdateProtection repo req db) (\<lambda>(r, db). Inr (case r of
     Inl e \<Rightarrow> (Inl (svc_code e), db) | Inr p \<Rightarrow> (Inr (Protection_ToProto None p), db)))"

definition svc_ListProtections ::
    "((string \<times> endpoint_row) list \<Rightarrow> (string \<times> endpoint_row) list) \<Rightarrow> 'db route_db \<Rightarrow> ListProtectionsOptions option \<Rightarrow> 'db
      \<Rightarrow> code + Protection list" where
  "svc_ListProtections visit repo options db = (case ListProtections repo options db of
     Inl e \<Rightarrow> Inl (list_code e) | Inr ps \<Rightarrow> Inr (map (listed_message visit) ps))"

text \<open>Deleting a row through the object mapper, which succeeds also if there is none.\<close>

definition svc_DeleteProtection :: "(64 word \<Rightarrow> 'db \<Rightarrow> db_error option \<times> 'db) \<Rightarrow> uint32 \<Rightarrow> 'db \<Rightarrow> (code + unit) \<times> 'db" where
  "svc_DeleteProtection delete_row protectionId db = (case delete_row (ucast protectionId) db of
     (Some _, db) \<Rightarrow> (Inl CodeUnknown, db) | (None, db) \<Rightarrow> (Inr (), db))"

section \<open>Health\<close>

datatype serving_status = StatusServing | StatusNotServing

text \<open>The check of the API server, with the result of \<open>DB()\<close> and of a ping of what it gives.\<close>

definition health_Ping :: "db_error + (unit \<Rightarrow> db_error option) \<Rightarrow> db_error option" where
  "health_Ping sqlDB = (case sqlDB of Inl err \<Rightarrow> Some err | Inr ping \<Rightarrow> ping ())"

definition svc_Check :: "db_error + (unit \<Rightarrow> db_error option) \<Rightarrow> serving_status" where
  "svc_Check sqlDB = (if health_Ping sqlDB \<noteq> None then StatusNotServing else StatusServing)"

text \<open>A component's own check, with the answer of the API server (\<open>None\<close>: the request failed).\<close>

definition proxy_Check :: "serving_status option \<Rightarrow> serving_status" where
  "proxy_Check resp = (case resp of None \<Rightarrow> StatusNotServing
     | Some s \<Rightarrow> if s = StatusServing then StatusServing else StatusNotServing)"

section \<open>Decoding what was encoded\<close>

text \<open>The encoding, as clients do it (RFC 4648).\<close>

definition b64_char :: "nat \<Rightarrow> char" where
  "b64_char n = alphabet ! (n mod 64)"

definition b64_group :: "nat \<Rightarrow> string" where
  "b64_group v = [b64_char (v div 2 ^ 18), b64_char (v div 2 ^ 12), b64_char (v div 2 ^ 6), b64_char v]"

fun base64_encode :: "string \<Rightarrow> string" where
  "base64_encode [] = []"
| "base64_encode [x] = take 2 (b64_group (of_char x * 2 ^ 16)) @ ''==''"
| "base64_encode [x, y] = take 3 (b64_group (of_char x * 2 ^ 16 + of_char y * 2 ^ 8)) @ ''=''"
| "base64_encode (x # y # z # rest) = b64_group (of_char x * 2 ^ 16 + of_char y * 2 ^ 8 + of_char z) @ base64_encode rest"

lemma length_alphabet: "length alphabet = 64"
  by (simp add: alphabet_def)

lemma distinct_alphabet: "distinct alphabet"
  by (simp add: alphabet_def)

lemma b64_val_char [simp]: "b64_val (b64_char n) = Some (n mod 64)"
proof -
  have "map_of (zip alphabet [0..<64]) (alphabet ! (n mod 64)) = Some ([0..<64] ! (n mod 64))"
    by (rule map_of_zip_nth) (simp_all add: length_alphabet distinct_alphabet)
  then show ?thesis by (simp add: b64_val_def b64_char_def)
qed

lemma alphabet_chars: "c \<in> set alphabet \<Longrightarrow> c \<noteq> CHR ''='' \<and> \<not> newline c"
  by (auto simp: alphabet_def newline_def)

lemma b64_char_not_special [simp]: "b64_char n \<noteq> CHR ''=''" "\<not> newline (b64_char n)"
  using alphabet_chars nth_mem [of "n mod 64" alphabet] by (simp_all add: b64_char_def length_alphabet)

lemma regroup:
  assumes "v < 2 ^ 24"
  shows "v div 2 ^ 18 mod 64 * 2 ^ 18 + v div 2 ^ 12 mod 64 * 2 ^ 12 + v div 2 ^ 6 mod 64 * 2 ^ 6 + v mod 64 = (v :: nat)"
proof -
  define p q r where "p = v div 64" and "q = p div 64" and "r = q div 64"
  have d: "v div 2 ^ 6 = p" "v div 2 ^ 12 = q" "v div 2 ^ 18 = r" by (simp_all add: p_def q_def r_def div_mult2_eq [symmetric])
  have "r < 64" using assms d(3) by (simp add: less_mult_imp_div_less flip: d(3))
  moreover have "p * 64 + v mod 64 = v" "q * 64 + p mod 64 = p" "r * 64 + q mod 64 = q"
    unfolding p_def q_def r_def by (rule div_mult_mod_eq)+
  ultimately show ?thesis unfolding d by simp
qed

lemma three_bytes:
  assumes "y < 256" and "z < (256 :: nat)"
  shows "(x * 65536 + y * 256 + z) div 65536 = x" and "(x * 65536 + y * 256 + z) div 256 mod 256 = y"
    and "(x * 65536 + y * 256 + z) mod 256 = z"
proof -
  have v: "x * 65536 + y * 256 + z = (x * 256 + y) * 256 + z" by simp
  have d: "((x * 256 + y) * 256 + z) div 256 = x * 256 + y" using assms(2) by (subst div_mult_self3) simp_all
  show "(x * 65536 + y * 256 + z) div 256 mod 256 = y" unfolding v d using assms(1) by simp
  have "((x * 256 + y) * 256 + z) div (256 * 256) = x" unfolding div_mult2_eq d using assms(1) by simp
  then show "(x * 65536 + y * 256 + z) div 65536 = x" unfolding v by simp
  show "(x * 65536 + y * 256 + z) mod 256 = z" unfolding v mod_mult_self3 using assms(2) by (rule mod_less)
qed

lemma quantum_bytes:
  assumes "a * 2 ^ 18 + b * 2 ^ 12 + c * 2 ^ 6 + d = of_char x * 2 ^ 16 + of_char y * 2 ^ 8 + (of_char z :: nat)"
  shows "quantum a b c d = [x, y, z]"
  unfolding quantum_def Let_def assms using three_bytes [of "of_char y" "of_char z" "of_char x"] by simp

lemma decode_group:
  assumes "v = of_char x * 2 ^ 16 + of_char y * 2 ^ 8 + (of_char z :: nat)"
  shows "quantum (v div 2 ^ 18 mod 64) (v div 2 ^ 12 mod 64) (v div 2 ^ 6 mod 64) (v mod 64) = [x, y, z]"
proof (rule quantum_bytes)
  have "of_char x < (256 :: nat)" "of_char y < (256 :: nat)" "of_char z < (256 :: nat)" by simp_all
  moreover from assms have v: "v = of_char x * 65536 + of_char y * 256 + of_char z" by simp
  ultimately have "v < 16777216" unfolding v by linarith
  then have "v < 2 ^ 24" by simp
  from trans [OF regroup [OF this] assms] show "v div 2 ^ 18 mod 64 * 2 ^ 18 + v div 2 ^ 12 mod 64 * 2 ^ 12 + v div 2 ^ 6 mod 64 * 2 ^ 6 + v mod 64
    = of_char x * 2 ^ 16 + of_char y * 2 ^ 8 + of_char z" .
qed

lemma decode_encode: "decode_quanta (base64_encode s) = Some s"
proof (induction s rule: base64_encode.induct)
  case (2 x)
  let ?v = "of_char x * 2 ^ 16 :: nat"
  have "?v div 2 ^ 6 mod 64 = 0" "?v mod 64 = 0" by (simp_all add: mod_mult_left_eq)
  then show ?case using decode_group [of ?v x "CHR 0x00" "CHR 0x00"] by (simp add: b64_group_def)
next
  case (3 x y)
  let ?v = "of_char x * 2 ^ 16 + of_char y * 2 ^ 8 :: nat"
  have "?v = (of_char x * 1024 + of_char y * 4) * 64" by simp
  then have "?v mod 64 = 0" by (simp only: mod_mult_self2_is_0)
  then show ?case using decode_group [of ?v x y "CHR 0x00"] by (simp add: b64_group_def)
next
  case (4 x y z rest)
  then show ?case using decode_group [OF refl, of x y z] by (simp add: b64_group_def)
qed simp

lemma encode_no_newlines: "filter (\<lambda>c. \<not> newline c) (base64_encode s) = base64_encode s"
  by (induction s rule: base64_encode.induct) (simp_all add: b64_group_def newline_def [of "CHR ''=''"])

lemma DecodeString_encode: "filter (\<lambda>c. \<not> newline c) t = base64_encode s \<Longrightarrow> DecodeString t = Some s"
  by (simp add: DecodeString_def decode_encode)
section \<open>Properties\<close>

lemma those_decoded:
  "map (filter (\<lambda>c. \<not> newline c)) ts = map base64_encode ss \<Longrightarrow> those (map DecodeString ts) = Some ss"
  by (induction ts arbitrary: ss) (auto simp: DecodeString_encode Cons_eq_map_conv)

lemma those_None: "those xs = None \<longleftrightarrow> None \<in> set xs"
  by (induction xs) (auto split: option.splits)

text \<open>
  C32: Rules arrive as they were encoded.  A client sends rules in base64, with line breaks wherever it likes.  The service
  then does what the repository does with these rules, in this order; its answer is an internal error
  exactly if the repository reports an error, and it panics exactly if the repository does.
\<close>

theorem encoded_rules_are_created:
  assumes "map (filter (\<lambda>c. \<not> newline c)) (Base64Rule msg) = map base64_encode rules"
  shows "svc_CreateRule repo (Some msg) db = (case CreateRule repo (ucast (RuleSetId msg)) rules (ApplicationName msg) db of
      Inl panic \<Rightarrow> Inl panic
    | Inr (err, db') \<Rightarrow> Inr (if err = None then Inr () else Inl CodeInternal, db'))"
  by (simp add: svc_CreateRule_def deref_def those_decoded [OF assms] bind_res_def split: sum.splits option.splits)

text \<open>The rule of an example, broken into two lines.\<close>

definition wrapped_rule :: Rule_msg where
  "wrapped_rule = \<lparr>Base64Rule = [let t = base64_encode (ToModSecurityRule sample_secrule) in take 8 t @ [CHR 0x0D, CHR 0x0A] @ drop 8 t],
     RuleSetId = 1, ApplicationName = ''shop''\<rparr>"

theorem encoded_rules_are_created_witness:
  "\<exists>content. svc_CreateRule rule_list_db (Some wrapped_rule) [stored_rules] = Inr (Inr (), [stored_rules\<lparr>rs_CrsFileContent := content\<rparr>])"
proof -
  let ?rule = "ToModSecurityRule sample_secrule"
  have w: "map (filter (\<lambda>c. \<not> newline c)) (Base64Rule wrapped_rule) = map base64_encode [?rule]"
  proof -
    have "filter (\<lambda>c. \<not> newline c) (take 8 t @ [CHR 0x0D, CHR 0x0A] @ drop 8 t) = filter (\<lambda>c. \<not> newline c) t" for t
      using filter_append [of "\<lambda>c. \<not> newline c" "take 8 t" "drop 8 t"]
      by (simp add: newline_def [of "CHR 0x0D"] newline_def [of "CHR 0x0A"])
    then show ?thesis by (simp add: wrapped_rule_def Let_def encode_no_newlines)
  qed
  have "rule_ids (rs_CrsFileContent stored_rules) = [7]"
    by (simp add: rule_ids_def stored_rules_def all_matches_Cons match_id_def has_prefix_def re_space_def re_digit_def digit_val_def dec_val_def)
  then have n: "nextRuleId (rs_CrsFileContent stored_rules) = Inr 8" by (simp add: nextRuleId_spec)
  have "ParseRule ?rule = Inr (Inr sample_secrule)" by (rule parse_printed_rule [OF wf_sample_secrule])
  then have "\<exists>content. CreateRule rule_list_db 1 [?rule] ''shop'' [stored_rules] = Inr (None, [stored_rules\<lparr>rs_CrsFileContent := content\<rparr>])"
    using n by (simp add: CreateRule_def add_rule_def rule_list_db_def stored_rules_def)
  with encoded_rules_are_created [OF w, of rule_list_db "[stored_rules]"] show ?thesis by (auto simp: wrapped_rule_def)
qed

text \<open>
  A rule that cannot be decoded stops the request before anything is stored: if one of the rules is not
  base64 the answer is an invalid argument, and the database stays as it is, also if the other rules are good.
\<close>

theorem undecodable_rule_changes_nothing:
  assumes "t \<in> set (Base64Rule msg)" and "DecodeString t = None"
  shows "svc_CreateRule repo (Some msg) db = Inr (Inl CodeInvalidArgument, db)"
proof -
  from assms have "None \<in> set (map DecodeString (Base64Rule msg))" by (force simp: image_iff)
  then show ?thesis by (simp add: svc_CreateRule_def deref_def those_None [THEN iffD2])
qed

theorem undecodable_rule_changes_nothing_witness:
  "svc_CreateRule rule_list_db (Some \<lparr>Base64Rule = [base64_encode ''SecRule'', ''QUJD=''], RuleSetId = 1, ApplicationName = ''shop''\<rparr>) [stored_rules]
     = Inr (Inl CodeInvalidArgument, [stored_rules])"
proof -
  have "DecodeString ''QUJD='' = None" by (simp add: DecodeString_def newline_def split: option.splits)
  then show ?thesis by (intro undecodable_rule_changes_nothing [of "''QUJD=''"]) simp_all
qed

text \<open>Which requests panic for want of a message, and that applications are never updated.\<close>

lemma service_panics:
  "(\<exists>f. svc_ListApplications visit apps options db = Inl f) \<longleftrightarrow> options = None"
  "svc_CreateRule repo None db' = Inl Null_Dereference"
  by (simp_all add: svc_ListApplications_def ListApplications_def svc_CreateRule_def deref_def split: option.splits)

lemma PutApplication_ignores_the_database:
  "svc_PutApplication visit req = (if req = None \<or> (\<exists>a. req = Some a \<and> app_Name a = []) then Inr \<lparr>app_Id = 0, app_Name = [], app_Ingress = []\<rparr>
     else Inl CodeUnknown)"
  by (auto simp: svc_PutApplication_def UpdateApplication_def Application_ToProto_def Let_def split: option.splits)

end
