(* ===== verification/Discovery_Sync.thy ===== *)
theory Discovery_Sync
  imports Discovery Apisrv_State Apisrv_Service
begin

text \<open>
  How the discovery agent learns which services to synchronise: the listing of routes by the API server
  (\<open>List\<close> of \<^verbatim>\<open>apisrv/internal/models/upstream.go\<close>, \<open>ListRoutes\<close> of \<^verbatim>\<open>apisrv/pkg/apiserver/route.go\<close>), and the loops of the
  agent with the channels between them (\<^verbatim>\<open>discovery/pkg/discovery/endpointslice/cache.go\<close>): one asks for the
  listing, the informer delivers endpoint slices, and one consumes both.  The lemmas show that updates are sent for
  listed services only, and that those of a created route will be sent.
\<close>

section \<open>Listing routes\<close>

record ListRoutesOptions =
  lr_IncludeIngress :: "bool option"
  lr_SvcFqdn :: "string option"

text \<open>The query: whether ingresses and ports are joined and loaded, and the service that is asked for.\<close>

definition Upstream_List ::
    "(bool \<Rightarrow> string option \<Rightarrow> 'db \<Rightarrow> db_error + upstream_row list) \<Rightarrow> ListRoutesOptions option \<Rightarrow> 'db \<Rightarrow> db_error + upstream_row list" where
  "Upstream_List query options db =
     query (case options of None \<Rightarrow> False | Some opts \<Rightarrow> lr_IncludeIngress opts = Some True) (Option.bind options lr_SvcFqdn) db"

definition svc_ListRoutes ::
    "((string \<times> endpoint_row) list \<Rightarrow> (string \<times> endpoint_row) list) \<Rightarrow> (ListRoutesOptions option \<Rightarrow> string option)
      \<Rightarrow> (bool \<Rightarrow> string option \<Rightarrow> 'db \<Rightarrow> db_error + upstream_row list) \<Rightarrow> ListRoutesOptions option \<Rightarrow> 'db \<Rightarrow> code + Upstream list" where
  "svc_ListRoutes visit validate query options db = (case validate options of
     Some e \<Rightarrow> Inl CodeInternal
   | None \<Rightarrow> (case Upstream_List query options db of
       Inl e \<Rightarrow> Inl CodeInternal | Inr upstreams \<Rightarrow> Inr (map (Upstream_ToProto visit) upstreams)))"

section \<open>The loops of the agent\<close>

text \<open>
  What the loop that asks for listings is waiting to send, the two channels, the state of the loop that
  consumes them, and all listings that were received so far.
\<close>

record agent =
  cache_waiting :: "string list option"
  svcFqdnCacheUpdaterCh :: "string list list"
  EpsCh :: "EndpointSlice list"
  syncer :: sync_state
  listings :: "string list list"

definition NewCache :: agent where
  "NewCache = \<lparr>cache_waiting = None, svcFqdnCacheUpdaterCh = [], EpsCh = [], syncer = ([], []), listings = []\<rparr>"

text \<open>A round of \<open>runUpstreamSvcFqdnCache\<close> up to the send: after an error it sleeps and asks again.\<close>

definition cache_round :: "code + Upstream list \<Rightarrow> agent \<Rightarrow> agent" where
  "cache_round resp a = (case resp of
     Inl err \<Rightarrow> a
   | Inr upstreams \<Rightarrow> let uc = map SvcFqdn upstreams in a\<lparr>cache_waiting := Some uc, listings := listings a @ [uc]\<rparr>)"

inductive agent_step :: "agent \<Rightarrow> agent \<Rightarrow> bool" where
  list: "cache_waiting a = None \<Longrightarrow> agent_step a (cache_round resp a)"
| send: "cache_waiting a = Some uc \<Longrightarrow> chan_send 5 (svcFqdnCacheUpdaterCh a) uc = Some c
    \<Longrightarrow> agent_step a (a\<lparr>cache_waiting := None, svcFqdnCacheUpdaterCh := c\<rparr>)"
| inform: "chan_send 5 (EpsCh a) sl = Some c \<Longrightarrow> agent_step a (a\<lparr>EpsCh := c\<rparr>)"
| slice: "chan_recv (EpsCh a) = Some (sl, c) \<Longrightarrow> sync_step (syncer a) (Slice sl) = Inr s
    \<Longrightarrow> agent_step a (a\<lparr>EpsCh := c, syncer := s\<rparr>)"
| services: "chan_recv (svcFqdnCacheUpdaterCh a) = Some (uc, c) \<Longrightarrow> sync_step (syncer a) (Services uc) = Inr s
    \<Longrightarrow> agent_step a (a\<lparr>svcFqdnCacheUpdaterCh := c, syncer := s\<rparr>)"

inductive_cases agent_stepE: "agent_step a b"

section \<open>Only listed services\<close>

definition agent_inv :: "agent \<Rightarrow> bool" where
  "agent_inv a \<longleftrightarrow> length (svcFqdnCacheUpdaterCh a) \<le> 5 \<and> length (EpsCh a) \<le> 5
     \<and> set (svcFqdnCacheUpdaterCh a) \<subseteq> set (listings a) \<and> set_option (cache_waiting a) \<subseteq> set (listings a)
     \<and> (fst (syncer a) = [] \<or> fst (syncer a) \<in> set (listings a))
     \<and> (\<forall>(f, eps) \<in> set (snd (syncer a)). \<exists>uc \<in> set (listings a). f \<in> set uc)"

lemma chan_send_mem: "chan_send n c x = Some c' \<Longrightarrow> length c' \<le> n \<and> set c' = insert x (set c)"
  by (auto simp: chan_send_def split: if_splits)

lemma chan_recv_mem: "chan_recv c = Some (x, c') \<Longrightarrow> length c = Suc (length c') \<and> set c = insert x (set c')"
  by (auto simp: chan_recv_def split: list.splits)

lemma agent_inv_step:
  assumes "agent_inv a" and "agent_step a b"
  shows "agent_inv b"
  using assms(2)
proof (rule agent_stepE)
  fix resp assume "b = cache_round resp a"
  with assms(1) show ?thesis by (cases resp) (fastforce simp: agent_inv_def cache_round_def Let_def)+
next
  fix uc c assume "b = a\<lparr>cache_waiting := None, svcFqdnCacheUpdaterCh := c\<rparr>" "cache_waiting a = Some uc"
    and s: "chan_send 5 (svcFqdnCacheUpdaterCh a) uc = Some c"
  with assms(1) chan_send_mem [OF s] show ?thesis by (auto simp: agent_inv_def)
next
  fix sl c assume "b = a\<lparr>EpsCh := c\<rparr>" "chan_send 5 (EpsCh a) sl = Some c"
  with assms(1) show ?thesis by (auto simp: agent_inv_def dest: chan_send_mem)
next
  fix sl c s assume s: "b = a\<lparr>EpsCh := c, syncer := s\<rparr>" "chan_recv (EpsCh a) = Some (sl, c)" "sync_step (syncer a) (Slice sl) = Inr s"
  obtain fqdns sent where a: "syncer a = (fqdns, sent)" by fastforce
  from s(3) a have "s = (fqdns, sent) \<or> (svc_fqdn sl \<in> set fqdns \<and> (\<exists>eps. s = (fqdns, sent @ [(svc_fqdn sl, eps)])))"
    by (auto simp: bind_res_eq_Inr_iff shouldProtect_def list_ex_iff split: if_splits)
  with s(1) chan_recv_mem [OF s(2)] a assms(1) show ?thesis by (auto simp: agent_inv_def)
next
  fix uc c s assume s: "b = a\<lparr>svcFqdnCacheUpdaterCh := c, syncer := s\<rparr>" "chan_recv (svcFqdnCacheUpdaterCh a) = Some (uc, c)"
    "sync_step (syncer a) (Services uc) = Inr s"
  then have "s = (uc, snd (syncer a))" by (cases "syncer a") auto
  with s(1) chan_recv_mem [OF s(2)] assms(1) show ?thesis by (auto simp: agent_inv_def)
qed

lemma agent_inv_reachable: "agent_step\<^sup>*\<^sup>* NewCache a \<Longrightarrow> agent_inv a"
proof (induction rule: rtranclp_induct)
  case base
  show ?case by (simp add: agent_inv_def NewCache_def)
qed (rule agent_inv_step)

text \<open>
  Updates for listed services only.  However the loops of the agent interleave, whatever the informer
  delivers and the API server lists: each update that has been sent is for a service of a listing that was
  received before, and no channel ever holds more than five elements.
\<close>

theorem only_listed_services_are_updated:
  assumes "agent_step\<^sup>*\<^sup>* NewCache a"
  shows "(\<forall>(f, eps) \<in> set (snd (syncer a)). \<exists>uc \<in> set (listings a). f \<in> set uc)
    \<and> length (svcFqdnCacheUpdaterCh a) \<le> 5 \<and> length (EpsCh a) \<le> 5"
  using agent_inv_reachable [OF assms] by (simp add: agent_inv_def)

section \<open>The services of created routes\<close>

text \<open>No request removes an upstream.\<close>

interpretation stays: route_statements repo
    "\<lambda>db db'. route_db_ok repo view \<longrightarrow> dom (tb_upstreams (view db)) \<subseteq> dom (tb_upstreams (view db'))"
proof (unfold_locales, goal_cases)
  case (3 p db err db')
  then show ?case using port_laws(4) [of repo view] port_laws(5) [of repo view] by (cases err) fastforce+
next
  case (4 m eo u db err db')
  then show ?case using row_laws(1) [of repo view] row_laws(2) [of repo view] by (cases err) (fastforce simp: store_upstream_def)+
next
  case (5 n db r db')
  then show ?case using row_laws(4) [of repo view] row_laws(5) [of repo view] by (cases r) fastforce+
next
  case (6 i db ri db')
  then show ?case using row_laws(6) [of repo view] row_laws(7) [of repo view] by (cases ri) fastforce+
qed auto

lemma created_upstream:
  assumes "route_db_ok repo view" and "CreateRoute repo validate draw req db = Inr (None, db')" and "crr_Upstream req = Some u"
  shows "SvcFqdn u \<in> dom (tb_upstreams (view db'))"
proof -
  obtain e1 u1 db1 where s1: "Upstream_Save repo (NewUpstreamFromRequest u) db = ((e1, u1), db1)" by (metis surj_pair)
  with assms(2,3) obtain ingress where n: "validate req = None" "e1 = None" "crr_Ingress req = Some ingress"
    by (auto simp: CreateRoute_def bind_res_eq_Inr_iff split: option.splits)
  obtain r2 db2 where s2: "Ingress_Save repo ((NewIngressFromProto ingress)\<lparr>ir_UpstreamID := us_ID u1\<rparr>) db1 = (r2, db2)" by fastforce
  with assms(2,3) s1 n obtain iid where r2: "r2 = Inr iid" by (cases r2) (auto simp: CreateRoute_def)
  obtain r3 db3 where s3: "Ports_Save repo draw (us_ID u1) iid (NewPortsFromProto (crr_Ports req)) db2 = (r3, db3)" by fastforce
  with assms(2,3) s1 s2 n r2 have "db3 = db'" by (cases r3) (auto simp: CreateRoute_def)
  with s1 s2 s3 n r2 have s: "Upstream_Save repo (NewUpstreamFromRequest u) db = ((None, u1), db1)"
      "Ingress_Save repo ((NewIngressFromProto ingress)\<lparr>ir_UpstreamID := us_ID u1\<rparr>) db1 = (Inr iid, db2)"
      "Ports_Save repo draw (us_ID u1) iid (NewPortsFromProto (crr_Ports req)) db2 = (r3, db')"
    by blast+
  from s(1) obtain u' m eo where "save_upstream repo m eo u' db = (None, db1)" "us_ID u' = SvcFqdn u"
    by (auto simp: Upstream_Save_def Let_def Upstream_BeforeSave_def NewUpstreamFromRequest_def split: prod.splits)
  then have "SvcFqdn u \<in> dom (tb_upstreams (view db1))" using row_laws(1) [OF assms(1)] by (auto simp: store_upstream_def)
  with stays.Ingress_Save [OF s(2)] stays.Ports_Save [OF s(3)] assms(1) show ?thesis by blast
qed

lemma drain_services:
  "agent_step\<^sup>*\<^sup>* a (a\<lparr>svcFqdnCacheUpdaterCh := [], syncer := (last (fst (syncer a) # svcFqdnCacheUpdaterCh a), snd (syncer a))\<rparr>)"
proof (induction "svcFqdnCacheUpdaterCh a" arbitrary: a)
  case Nil
  then have "a\<lparr>svcFqdnCacheUpdaterCh := [], syncer := (last (fst (syncer a) # svcFqdnCacheUpdaterCh a), snd (syncer a))\<rparr> = a" by simp
  then show ?case by simp
next
  case (Cons uc ucs)
  let ?b = "a\<lparr>svcFqdnCacheUpdaterCh := ucs, syncer := (uc, snd (syncer a))\<rparr>"
  have "agent_step a ?b"
  proof (rule agent_step.services)
    show "chan_recv (svcFqdnCacheUpdaterCh a) = Some (uc, ucs)" by (simp add: chan_recv_def flip: Cons.hyps(2))
    show "sync_step (syncer a) (Services uc) = Inr (uc, snd (syncer a))" by (cases "syncer a") simp
  qed
  moreover have "agent_step\<^sup>*\<^sup>* ?b (?b\<lparr>svcFqdnCacheUpdaterCh := [], syncer := (last (fst (syncer ?b) # svcFqdnCacheUpdaterCh ?b), snd (syncer ?b))\<rparr>)"
    by (rule Cons.hyps(1)) simp
  ultimately have "agent_step\<^sup>*\<^sup>* a (?b\<lparr>svcFqdnCacheUpdaterCh := [], syncer := (last (fst (syncer ?b) # svcFqdnCacheUpdaterCh ?b), snd (syncer ?b))\<rparr>)"
    by (rule converse_rtranclp_into_rtranclp)
  then show ?case by (simp flip: Cons.hyps(2))
qed

text \<open>Queued slices that the loop can read without dereferencing a nil pointer.\<close>

definition readable_slices :: "EndpointSlice list \<Rightarrow> bool" where
  "readable_slices sls \<longleftrightarrow> list_all (\<lambda>sl. list_all (\<lambda>ep. Addresses ep = [] \<or> sep_NodeName ep \<noteq> None \<and> TargetRef ep \<noteq> None)
     (slice_Endpoints sl)) sls"

lemma slice_endpoints_readable:
  assumes "list_all (\<lambda>ep. Addresses ep = [] \<or> sep_NodeName ep \<noteq> None \<and> TargetRef ep \<noteq> None) eps"
  shows "\<exists>es. slice_endpoints eps = Inr es"
proof -
  have "\<exists>es. fold_res (\<lambda>acc ep. bind_res (slice_endpoint ep) (\<lambda>e. Inr (acc @ [e]))) acc eps = Inr es" for acc
    using assms by (induction eps arbitrary: acc) (auto simp: slice_endpoint_def split: list.splits)
  then show ?thesis by (simp add: slice_endpoints_def)
qed

lemma sync_step_readable:
  assumes "list_all (\<lambda>ep. Addresses ep = [] \<or> sep_NodeName ep \<noteq> None \<and> TargetRef ep \<noteq> None) (slice_Endpoints sl)"
  shows "\<exists>more. sync_step st (Slice sl) = Inr (fst st, snd st @ more)"
  using slice_endpoints_readable [OF assms] by (cases st) auto

lemma drain_slices:
  assumes "readable_slices (EpsCh a)"
  shows "\<exists>more. agent_step\<^sup>*\<^sup>* a (a\<lparr>EpsCh := [], syncer := (fst (syncer a), snd (syncer a) @ more)\<rparr>)"
  using assms
proof (induction "EpsCh a" arbitrary: a)
  case Nil
  then have "a\<lparr>EpsCh := [], syncer := (fst (syncer a), snd (syncer a) @ [])\<rparr> = a" by simp
  then show ?case by (metis rtranclp.rtrancl_refl)
next
  case (Cons sl sls)
  from Cons.prems obtain m where m: "sync_step (syncer a) (Slice sl) = Inr (fst (syncer a), snd (syncer a) @ m)"
    using sync_step_readable by (fastforce simp: readable_slices_def simp flip: Cons.hyps(2))
  let ?b = "a\<lparr>EpsCh := sls, syncer := (fst (syncer a), snd (syncer a) @ m)\<rparr>"
  have "agent_step a ?b"
    by (rule agent_step.slice [OF _ m]) (simp add: chan_recv_def flip: Cons.hyps(2))
  moreover obtain more where
    "agent_step\<^sup>*\<^sup>* ?b (?b\<lparr>EpsCh := [], syncer := (fst (syncer ?b), snd (syncer ?b) @ more)\<rparr>)"
    using Cons.hyps(1) [of ?b] Cons.prems by (auto simp: readable_slices_def simp flip: Cons.hyps(2))
  ultimately have "agent_step\<^sup>*\<^sup>* a (a\<lparr>EpsCh := [], syncer := (fst (syncer a), snd (syncer a) @ (m @ more))\<rparr>)"
    by (simp add: converse_rtranclp_into_rtranclp)
  then show ?case by blast
qed

lemma listed_service_updated:
  assumes "cache_waiting a = Some uc" and "readable_slices (EpsCh a)"
    and "svc_fqdn sl \<in> set uc" and "slice_endpoints (slice_Endpoints sl) = Inr eps"
  shows "\<exists>more. agent_step\<^sup>*\<^sup>* a (a\<lparr>cache_waiting := None, svcFqdnCacheUpdaterCh := [], EpsCh := [],
    syncer := (uc, snd (syncer a) @ more @ [(svc_fqdn sl, eps)])\<rparr>)"
proof -
  from drain_slices [OF assms(2)] obtain more where
    a: "agent_step\<^sup>*\<^sup>* a (a\<lparr>EpsCh := [], syncer := (fst (syncer a), snd (syncer a) @ more)\<rparr>)" (is "agent_step\<^sup>*\<^sup>* a ?a") by blast
  let ?b = "?a\<lparr>svcFqdnCacheUpdaterCh := [], syncer := (last (fst (syncer ?a) # svcFqdnCacheUpdaterCh ?a), snd (syncer ?a))\<rparr>"
  let ?c = "?b\<lparr>cache_waiting := None, svcFqdnCacheUpdaterCh := [uc]\<rparr>"
  let ?d = "?c\<lparr>svcFqdnCacheUpdaterCh := [], syncer := (uc, snd (syncer ?a))\<rparr>"
  let ?e = "?d\<lparr>EpsCh := [sl]\<rparr>"
  let ?f = "?e\<lparr>EpsCh := [], syncer := (uc, snd (syncer ?a) @ [(svc_fqdn sl, eps)])\<rparr>"
  have b: "agent_step\<^sup>*\<^sup>* ?a ?b" by (rule drain_services)
  have c: "agent_step ?b ?c" by (rule agent_step.send [of _ uc]) (use assms(1) in \<open>simp_all add: chan_send_def\<close>)
  have d: "agent_step ?c ?d" by (rule agent_step.services [of _ uc]) (simp_all add: chan_recv_def)
  have e: "agent_step ?d ?e" by (rule agent_step.inform) (simp add: chan_send_def)
  have f: "agent_step ?e ?f"
    by (rule agent_step.slice [of _ sl]) (use assms in \<open>simp_all add: chan_recv_def shouldProtect_def list_ex_iff\<close>)
  from rtranclp_trans [OF a b] c d e f have "agent_step\<^sup>*\<^sup>* a ?f" by (meson rtranclp.rtrancl_into_rtrancl)
  then show ?thesis by (auto intro!: exI [of _ more])
qed

text \<open>The service of the shop in a listing.\<close>

theorem only_listed_services_are_updated_witness:
  "\<exists>a. agent_step\<^sup>*\<^sup>* NewCache a \<and> ''shop.ns.svc'' \<in> fst ` set (snd (syncer a)) \<and> (\<exists>uc \<in> set (listings a). ''shop.ns.svc'' \<in> set uc)"
proof -
  let ?a = "cache_round (Inr [shop_update ''10.1.0.5'']) NewCache"
  have "agent_step NewCache ?a" by (rule agent_step.list) (simp add: NewCache_def)
  moreover have "\<exists>b more. agent_step\<^sup>*\<^sup>* ?a b \<and> snd (syncer b) = more @ [(''shop.ns.svc'', [])]"
    using listed_service_updated [of ?a "[''shop.ns.svc'']" shop_slice "[]"]
    by (fastforce simp: cache_round_def NewCache_def Let_def shop_update_def svc_fqdn_def shop_slice_def slice_endpoints_def
        readable_slices_def)
  ultimately obtain b more where "agent_step\<^sup>*\<^sup>* NewCache b" "snd (syncer b) = more @ [(''shop.ns.svc'', [])]"
    by (meson converse_rtranclp_into_rtranclp)
  with only_listed_services_are_updated [of b] show ?thesis by fastforce
qed

text \<open>
  C11: The services of created routes are synchronised.  After the API server has created a route for a service,
  and then served any requests, the agent asks for a listing, which is that of all rows of the table.  If this
  succeeds, and none of the slices that are queued at that time has an endpoint with an address but without node or
  target (which would make the loop panic), the loops can go on as follows, whatever is queued: the
  queued slices and listings are consumed, the informer delivers a slice of the service, and an update with the
  endpoints of this slice is sent, after the updates for queued slices.
\<close>

theorem created_service_is_synchronised:
  assumes "route_db_ok repo view"
    and "CreateRoute repo validate draw req db = Inr (None, db')" and "crr_Upstream req = Some u"
    and "served repo db' db''" and "valid None = None" and "query False None db'' = Inr rows"
    and "us_ID ` set rows = dom (tb_upstreams (view db''))"
    and "svc_fqdn sl = SvcFqdn u" and "slice_endpoints (slice_Endpoints sl) = Inr eps"
    and "readable_slices (EpsCh a)"
  shows "\<exists>a' more. agent_step\<^sup>*\<^sup>* (cache_round (svc_ListRoutes visit valid query None db'') a) a'
    \<and> snd (syncer a') = snd (syncer a) @ more @ [(SvcFqdn u, eps)]"
proof -
  have "SvcFqdn u \<in> dom (tb_upstreams (view db''))"
    using created_upstream [OF assms(1-3)] stays.served [OF assms(4)] assms(1) by blast
  then have mem: "SvcFqdn u \<in> us_ID ` set rows" using assms(7) by simp
  have l: "svc_ListRoutes visit valid query None db'' = Inr (map (Upstream_ToProto visit) rows)"
    using assms(5,6) by (simp add: svc_ListRoutes_def Upstream_List_def)
  let ?a = "cache_round (svc_ListRoutes visit valid query None db'') a"
  let ?uc = "map SvcFqdn (map (Upstream_ToProto visit) rows)"
  have "SvcFqdn u \<in> set ?uc" using mem by (force simp: Upstream_ToProto_def)
  then show ?thesis
    using listed_service_updated [of ?a ?uc sl eps] assms(8-10) unfolding l by (fastforce simp: cache_round_def Let_def)
qed

text \<open>The agent after it knew of another service and a slice of that one has been queued.\<close>

definition busy_agent :: agent where
  "busy_agent = NewCache\<lparr>EpsCh := [shop_slice\<lparr>slice_Service := ''other''\<rparr>], syncer := ([''other.ns.svc''], [])\<rparr>"

theorem created_service_is_synchronised_witness:
  "\<exists>t a more. CreateRoute tables_db (\<lambda>_. None) (\<lambda>k. 7) (shop_route ''shop.ns.svc'') empty_tables = Inr (None, t)
    \<and> agent_step\<^sup>*\<^sup>* (cache_round (svc_ListRoutes (\<lambda>m. m) (\<lambda>_. None) (\<lambda>_ _ t. Inr (map (the \<circ> tb_upstreams t) [''shop.ns.svc''])) None t) busy_agent) a
    \<and> snd (syncer a) = more @ [(''shop.ns.svc'', [])]"
proof -
  obtain t where t: "CreateRoute tables_db (\<lambda>_. None) (\<lambda>k. 7) (shop_route ''shop.ns.svc'') empty_tables = Inr (None, t)"
      "dom (tb_upstreams t) = {''shop.ns.svc''}" "map_option us_ID (tb_upstreams t ''shop.ns.svc'') = Some ''shop.ns.svc''"
    by (simp add: route_defs tables_db_def shop_route_def empty_tables_def Let_def)
  obtain u where u: "crr_Upstream (shop_route ''shop.ns.svc'') = Some u" "SvcFqdn u = ''shop.ns.svc''" by (simp add: shop_route_def)
  obtain row where row: "tb_upstreams t ''shop.ns.svc'' = Some row" "us_ID row = ''shop.ns.svc''"
    using t(3) by (cases "tb_upstreams t ''shop.ns.svc''") simp_all
  let ?query = "\<lambda>_ _ t. Inr (map (the \<circ> tb_upstreams t) [''shop.ns.svc''])"
  have "\<exists>a more. agent_step\<^sup>*\<^sup>* (cache_round (svc_ListRoutes (\<lambda>m. m) (\<lambda>_. None) ?query None t) busy_agent) a
      \<and> snd (syncer a) = snd (syncer busy_agent) @ more @ [(SvcFqdn u, [])]"
  proof (rule created_service_is_synchronised [OF tables_db_ok t(1) u(1) served.start])
    show "us_ID ` set (map (the \<circ> tb_upstreams t) [''shop.ns.svc'']) = dom (tb_upstreams t)"
      by (simp add: t(2) row)
    show "svc_fqdn shop_slice = SvcFqdn u" using u(2) by (simp add: svc_fqdn_def shop_slice_def)
    show "slice_endpoints (slice_Endpoints shop_slice) = Inr []" by (simp add: shop_slice_def slice_endpoints_def)
    show "readable_slices (EpsCh busy_agent)" by (simp add: busy_agent_def shop_slice_def readable_slices_def)
  qed simp_all
  with t(1) u(2) show ?thesis by (auto simp: busy_agent_def)
qed

end
