(* ===== verification/Spec2Isabelle.thy ===== *)
theory Spec2Isabelle
  imports MS_Transaction_Facts MS_C_Api Xproc_Watcher Seclang Modsec_Filter Gateway_ControlPlane Apisrv_Protection
    Relay_Socat Apisrv_Event Discovery_Sync
begin

text \<open>
  A verification development for wafie, a web application firewall for Kubernetes.  The program has a
  C/C++ part, the headers of the ModSecurity engine and of the library \<open>libwafie\<close> that it is built
  against (under \<^verbatim>\<open>src/xproc/pkg/modsec/include\<close>, repeated under \<^verbatim>\<open>src/modsecfilter/include\<close>), with the
  inline code they contain, and a Go part: an external processor for Envoy (\<^verbatim>\<open>src/xproc\<close>), an Envoy
  filter (\<^verbatim>\<open>src/modsecfilter\<close>), an API server (\<^verbatim>\<open>src/apisrv\<close>), a gateway control plane (\<^verbatim>\<open>src/gateway\<close>),
  a relay (\<^verbatim>\<open>src/relay\<close>) and a discovery agent (\<^verbatim>\<open>src/discovery\<close>).

  How the parts interact.  Envoy sends the messages of an HTTP request to the external processor
  (\<^verbatim>\<open>processor/server.go\<close>), which turns them into C structs (\<^verbatim>\<open>modsec/modsec.go\<close>) and calls the functions
  of \<^verbatim>\<open>wafielib.h\<close>; the library drives a ModSecurity transaction through its phases and reports
  interventions, which the processor turns into responses.  A watcher in the same program fetches rule
  sets from the API server, writes them to disk and makes the library load them.  The API server
  keeps the desired state of the protections and parses and prints rules with the package \<^verbatim>\<open>seclang\<close>.
  The gateway polls it for the protections and derives from them Envoy's listeners, clusters and filters,
  among them the filter that sends requests to the external processor together with the id of the
  protection.  A relay controller on every node polls the protections too and starts, in the network
  namespaces of the protected pods, relays that redirect their traffic to the ports of the gateway.  The
  discovery agent watches Kubernetes and reports routes, that is ingresses with their services, ports
  and endpoints, to the API server.  The Envoy filter is an older way to run the library inside Envoy.

  Conventions.  Pointers are addresses in an explicit store, null pointers are \<open>None\<close>; machine integers
  are words of their width; strings are byte lists.  Exceptions, failed assertions, undefined memory
  accesses and Go panics are values of the type \<open>fault\<close>, errors are values of their own.  Code that is
  declared but not contained in the sources (the engine's \<^verbatim>\<open>.cc\<close> files, libwafie, protobuf, the
  database, Kubernetes, nftables, the operating system, the template engine) is a record of functions that the definitions take as an
  argument, and what is relied on is a named hypothesis (\<open>adds_fresh_values\<close>, \<open>keeps_names\<close>,
  \<open>lib_ok\<close>, \<open>filter_lib_ok\<close>, \<open>os_laws\<close>, \<open>crs_db_ok\<close>, \<open>route_db_ok\<close>, \<open>event_db_ok\<close>,
  \<open>setup_ok\<close>, \<open>versions_ok\<close>, \<open>nft_laws\<close>) that a concrete instance is shown
  to satisfy.  Go's standard library and
  the STL containers are modelled as far as they are used.

  Theories.
  \<^item> \<^verbatim>\<open>Wafie_Prelude\<close>: machine integers, faults, results, decimal numerals, C strings, the object
    store and its interface (locale \<open>object_store\<close>).
  \<^item> \<^verbatim>\<open>MS_Variables\<close> (\<^verbatim>\<open>variable_origin.h\<close>, \<^verbatim>\<open>variable_value.h\<close>, \<^verbatim>\<open>anchored_*.h\<close>): hash and comparison
    of keys agree (locale \<open>hashed_keys\<close>) and ignore the case of ASCII letters, the translation proxy is memory safe and
    replaces every value by its key.
  \<^item> \<^verbatim>\<open>MS_Engine\<close> (\<^verbatim>\<open>modsecurity.h\<close>, \<^verbatim>\<open>intervention.h\<close>, \<^verbatim>\<open>debug_log.h\<close>, \<^verbatim>\<open>audit_log.h\<close>): phases and their order,
    release of interventions, audit log parts.
  \<^item> \<^verbatim>\<open>MS_Properties\<close> (\<^verbatim>\<open>rules_set_properties.h\<close>, \<^verbatim>\<open>rules_exceptions.h\<close>): merging refines the precedence
    of the first value that is set (locale \<open>first_set_wins\<close>, interpreted for each kind of setting; the code page table,
    for which the source has precedence, is stated apart), the
    errors it reports, what is concatenated.
  \<^item> \<^verbatim>\<open>MS_Actions\<close> (\<^verbatim>\<open>actions/action.h\<close>): splitting of action texts.
  \<^item> \<^verbatim>\<open>MS_Collection\<close> (\<^verbatim>\<open>collection/*.h\<close>): which addresses of compartments and keys share an entry, for
    any back end.
  \<^item> \<^verbatim>\<open>MS_Transaction\<close>, \<^verbatim>\<open>MS_Transaction_Facts\<close> (\<^verbatim>\<open>transaction.h\<close>): debug macros, the anchored variables
    and their names, the name proxies, markers, data members.
  \<^item> \<^verbatim>\<open>MS_Rules\<close> (\<^verbatim>\<open>rule*.h\<close>, \<^verbatim>\<open>rules*.h\<close>): rule classes, markers, messages, rule lists; appending and inserting
    with duplicate detection by binary search.
  \<^item> \<^verbatim>\<open>MS_Example\<close> (\<^verbatim>\<open>reading_logs_via_rule_message.h\<close>): a multi-threaded client as a step relation;
    every schedule ends with the same result, and every transaction runs the documented phases in order.
  \<^item> \<^verbatim>\<open>MS_C_Api\<close>: the functions \<^verbatim>\<open>msc_*\<close> as an interface.
  \<^item> \<^verbatim>\<open>Go_Lib\<close>: what is used of Go's standard library, with buffered channels (locale \<open>fifo_channel\<close>)
    and JSON values;
    \<^verbatim>\<open>Go_Net\<close>: networks in CIDR notation; \<^verbatim>\<open>Wafie_Lib\<close> (\<^verbatim>\<open>wafielib.h\<close>): structs, library interface, C memory
    through cgo, header arrays in it.
  \<^item> \<^verbatim>\<open>Xproc_ModSec\<close> (\<^verbatim>\<open>modsec.go\<close>, \<^verbatim>\<open>assets.go\<close>): the request struct in C memory, responses to interventions.
  \<^item> \<^verbatim>\<open>Xproc_Server\<close> (\<^verbatim>\<open>server.go\<close>): the message loop; which streams panic, the life cycle of the
    transaction, the answers.
  \<^item> \<^verbatim>\<open>Xproc_Watcher\<close> (\<^verbatim>\<open>modsec.go\<close>): rounds of the rule-set watcher; what is written, loaded, removed.
  \<^item> \<^verbatim>\<open>Seclang\<close> (\<^verbatim>\<open>parser.go\<close>, \<^verbatim>\<open>types.go\<close>): parser and printer of rules with their round trip, the table of
    actions (locale \<open>action_table\<close>).
  \<^item> \<^verbatim>\<open>Modsec_Filter\<close> (\<^verbatim>\<open>modsecfilter/filter.go\<close>, \<^verbatim>\<open>config.go\<close>): the callbacks of a stream; which C objects a
    stream allocates, releases and leaves behind, and the decision on the headers.
  \<^item> \<^verbatim>\<open>Wafie_Api\<close> (\<^verbatim>\<open>api/proto/wafie/v1\<close>): the messages that the Go programs exchange, the
    numbers of their enumerations (locale \<open>open_enum\<close>, interpreted for each of them), and polling for a new
    version of the protections (locale \<open>version_poller\<close>, interpreted for gateway and relay).
  \<^item> \<^verbatim>\<open>Gateway_State\<close> (\<^verbatim>\<open>state.go\<close>, \<^verbatim>\<open>utils.go\<close> of the control plane): listeners, clusters and filters; when building
    them panics, that they refer to each other consistently, and that the id of a protection reaches the
    external processor.
  \<^item> \<^verbatim>\<open>Gateway_ControlPlane\<close> (\<^verbatim>\<open>cp.go\<close>): the polling loop, the channel and the snapshot loop as a step relation;
    no version is lost or overtaken, pending versions can be published, what a failed request leads to.
  \<^item> \<^verbatim>\<open>Apisrv_Protection\<close> (\<^verbatim>\<open>apisrv/internal/models/protection.go\<close>): merging a change request into the desired
    state (lists with keys: locale \<open>keyed_entries\<close>), its panics, validation, conversion to messages, and the
    repository operations over an abstract database.
  \<^item> \<^verbatim>\<open>Relay_Controller\<close> (\<^verbatim>\<open>relay/pkg/control\<close>): which pods get a relay, with which options, that these agree
    with the listeners of the gateway; starting and stopping instances.
  \<^item> \<^verbatim>\<open>Discovery\<close> (\<^verbatim>\<open>discovery/pkg/discovery\<close>): normalisation of ingress objects with its outcomes,
    synchronisation of the endpoints of known services.
  \<^item> \<^verbatim>\<open>Relay_Socat\<close> (\<^verbatim>\<open>relay/pkg/relay\<close>, \<^verbatim>\<open>relay/pkg/apisrv\<close>): the relay process; what starting brings about,
    when stopping panics, what the health monitor does, what a gateway without an address leads to.
  \<^item> \<^verbatim>\<open>Apisrv_Crs\<close> (\<^verbatim>\<open>models/crs.go\<close>): ids and texts of created rules, cloning of profiles, rendering of rule sets.
  \<^item> \<^verbatim>\<open>Apisrv_Route\<close> (\<^verbatim>\<open>models/upstream.go\<close>, \<^verbatim>\<open>ingress.go\<close>, \<^verbatim>\<open>application.go\<close>, \<^verbatim>\<open>port.go\<close>, \<^verbatim>\<open>apiserver/route.go\<close>): creating and
    updating routes over a database with conflict clauses; the allocation of proxy ports, whose
    uniqueness is an invariant of all reachable databases, and what is kept of older routes; listing.
  \<^item> \<^verbatim>\<open>Apisrv_State\<close> (\<^verbatim>\<open>models/stateversion.go\<close>, \<^verbatim>\<open>apiserver/stateversion.go\<close>, \<^verbatim>\<open>assets/sql/triggers.sql\<close>): the version that
    gateway and relay controller poll, and the triggers of the database that renew it; every request is
    a sequence of statements (locale \<open>route_statements\<close>), so that an unchanged version means unchanged ports and
    addresses.
  \<^item> \<^verbatim>\<open>Apisrv_Event\<close> (\<^verbatim>\<open>models/event.go\<close>): the queries behind lists, pages and statistics of the event log, over JSON
    documents; which events are listed, in which order, and what is counted.
  \<^item> \<^verbatim>\<open>Apisrv_Setup\<close> (\<^verbatim>\<open>models/dbsetup.go\<close>, \<^verbatim>\<open>assets/modsec/modsec.go\<close>, \<^verbatim>\<open>assets/sql/sql.go\<close>, \<open>AfterCreate\<close>): connecting, migrating and
    seeding, the embedded rule files, and the rules that a new protection gets.
  \<^item> \<^verbatim>\<open>Apisrv_Service\<close> (\<^verbatim>\<open>apiserver/crs.go\<close>, \<^verbatim>\<open>application.go\<close>, \<^verbatim>\<open>protection.go\<close>, \<^verbatim>\<open>healthcheck.go\<close>): the services with their
    error codes, and the decoding of base64.
  \<^item> \<^verbatim>\<open>Discovery_Sync\<close> (\<^verbatim>\<open>endpointslice/cache.go\<close>, \<open>ListRoutes\<close>): the loops of the discovery agent with their channels as a step
    relation; which services are synchronised.
  \<^item> This theory: what the gateway makes of the protections of the API server; that relays reach the listener of
    their own protection, from the allocation of ports through listing, gateway and relay controller; what
    becomes of the endpoints of a service that loses its pods; which updates of a route make gateway and relay
    controller act, and which they never see.

  Bounds.  No definition uses fuel: loops are recursions over lists or with a decreasing measure, the
  threads of the client are a step relation with a measure that counts the remaining steps, and the
  message loop of the processor is a recursion over what the stream has delivered so far (\<open>Waiting\<close> is
  the outcome when nothing more has come yet).  The width of \<open>size_t\<close> and of \<open>int\<close> is 64 and 32 bits.

  Not modelled: requests that the API server handles concurrently (\<open>served\<close> is a sequence of requests, each of which
  is executed as a whole: two that overlap between the query for a free proxy port and the insertion of the row, \<^verbatim>\<open>port.go\<close>,
  could get the same port, as no unique index excludes it); bytes above 127 as arguments of \<open>tolower\<close>, which C does not define
  where \<open>char\<close> is signed and the model leaves unchanged; the registration of the services; the encoding of columns as JSON; start-up code, command lines and
  deployment files, which only do input and output; the informers of Kubernetes, which are a library.
  Members of the engine that the headers only declare are parameters.  The headers under
  \<^verbatim>\<open>src/modsecfilter/include\<close> repeat those under \<^verbatim>\<open>src/xproc\<close> and are modelled once.  Data races on the
  watcher's protection cache, which the stream handlers read, are outside the model: the cache is
  constant during a stream.
\<close>

section \<open>The API server and the gateway\<close>

text \<open>
  The gateway can build its resources from what the API server lists exactly if every listed protection
  comes with an application whose first ingress has an upstream: the desired state, which the gateway
  also dereferences, is always there, whatever is stored.
\<close>

theorem listed_protections_can_be_built_iff:
  "(\<exists>r. buildResources marshals sock (map (\<lambda>(app, row). Protection_ToProto app row) rows) = Inr r) \<longleftrightarrow>
     (\<forall>(app, row) \<in> set rows. \<exists>a ing ings u. app = Some a \<and> app_Ingress a = ing # ings \<and> ing_Upstream ing = Some u)"
proof -
  have c: "complete_protection (Protection_ToProto app row) \<longleftrightarrow>
      (\<exists>a ing ings u. app = Some a \<and> app_Ingress a = ing # ings \<and> ing_Upstream ing = Some u)" for app row
    by (auto simp: complete_protection_def Protection_ToProto_def split: option.splits list.splits)
  have "(\<exists>r. buildResources marshals sock ps = Inr r) \<longleftrightarrow> list_all complete_protection ps" for ps
    using buildResources_complete [of marshals sock ps] buildResources_total [of ps marshals sock] by metis
  then show ?thesis by (auto simp: list_all_iff c)
qed

theorem listed_protections_can_be_built_iff_witness:
  "(\<exists>r. buildResources (\<lambda>_. True) ''/run/wafie.sock'' [Protection_ToProto (prot_Application shop_protection) new_row] = Inr r)
   \<and> \<not> (\<exists>r. buildResources (\<lambda>_. True) ''/run/wafie.sock'' [Protection_ToProto None new_row] = Inr r)"
  using listed_protections_can_be_built_iff [of "\<lambda>_. True" "''/run/wafie.sock''" "[(prot_Application shop_protection, new_row)]"]
    listed_protections_can_be_built_iff [of "\<lambda>_. True" "''/run/wafie.sock''" "[(None, new_row)]"]
  by (auto simp: shop_protection_def)

section \<open>From the ports of the API server to the relays\<close>

lemma listener_port_row:
  assumes "route_db_ok repo view" and "ListProtections repo (Some opts) db = Inr rows" and "lo_IncludeApps opts = Some True"
    and "x \<in> set rows" and "gw_listener marshals k (listed_message visit x) = Inr (Some l)"
  shows "\<exists>q \<in> set (tb_ports (view db)). is_container q \<and> po_IngressID q = ir_ID (fst (hd (ar_Ingresses (snd x))))
    \<and> po_ProxyListeningPort q = ls_Port l"
proof -
  obtain p app where x: "x = (p, app)" by (cases x)
  let ?m = "listed_message visit x"
  from assms(5) obtain r where r: "protectionContainerPort ?m = Inr r" by (auto simp: gw_listener_def bind_res_eq_Inr_iff)
  with assms(5) obtain port where port: "protectionContainerPort ?m = Inr (Inr port)" "ls_Port l = ProxyListeningPort port"
    by (cases r) (auto simp: gw_listener_def bind_res_eq_Inr_iff)
  from port(1) obtain u where u: "protection_upstream (listed_message visit x) = Inr u"
      "find is_container_port (Ports u) = Some port"
    by (auto simp: protectionContainerPort_def bind_res_eq_Inr_iff split: option.splits)
  then obtain i up gs where app: "ar_Ingresses app = (i, up) # gs" "u = Upstream_ToProto visit up"
    by (cases "ar_Ingresses app")
      (auto simp: protection_upstream_eq_Inr listed_message_def x Protection_ToProto_def Application_ToProto_def Ingress_ToProto_def
        split: if_splits)
  from u(2) have "port \<in> set (Ports u)" "PortType port = PORT_TYPE_CONTAINER_PORT"
    by (auto simp: find_Some_iff is_container_port_def)
  then obtain q where q: "q \<in> set (us_Ports up)" "port = Port_ToProto q" "port_type_of_number (po_PortType q) = PORT_TYPE_CONTAINER_PORT"
    by (auto simp: app(2) Upstream_ToProto_def Port_ToProto_def)
  from q(3) have "is_container q" by (metis CONTAINER_PORT_def port_type.number_of_number)
  moreover have "q \<in> set (tb_ports (view db)) \<and> po_IngressID q = ir_ID i"
    using listed_ports [OF assms(1-3), of p app i up q] assms(4) x app(1) q(1) by simp
  ultimately show ?thesis using port(2) q(2) app(1) x by (auto simp: Port_ToProto_def)
qed

text \<open>
  C6: Every relay reaches the listener of its own protection.  Start with a database without ports, let the
  API server serve any requests, and let gateway and relays work with the protections that it then
  lists.  If no two of them share their first ingress, a relay of a protection that is on
  forwards to a port at which the gateway has the listener of this protection and no other one.
\<close>

theorem relay_reaches_its_own_listener:
  assumes "route_db_ok repo view" and "tb_ports (view db0) = []" and "served repo db0 db"
    and "ListProtections repo (Some opts) db = Inr rows" and "lo_IncludeApps opts = Some True"
    and "distinct (map (\<lambda>x. ir_ID (fst (hd (ar_Ingresses (snd x))))) rows)"
    and "buildResources marshals sock (map (listed_message visit) rows) = Inr (ls, cs)"
    and "i < length rows" and "prot_Mode (listed_message visit (rows ! i)) = PROTECTION_MODE_ON"
    and "getRelayInstanceSpecs env node (listed_message visit (rows ! i)) = Inr specs" and "spec \<in> set specs"
  shows "\<exists>l. ls ! i = Some l \<and> opt_ProxyListeningPort (relayOptions spec) = dec_nat (unat (ls_Port l))
    \<and> (\<forall>j l'. j < length ls \<longrightarrow> ls ! j = Some l' \<longrightarrow> ls_Port l' = ls_Port l \<longrightarrow> j = i)"
proof -
  from relays_forward_to_the_listener [OF assms(7), of i env node specs spec] assms(8-11) obtain l where
    l: "ls ! i = Some l" "opt_ProxyListeningPort (relayOptions spec) = dec_nat (unat (ls_Port l))" by auto
  from assms(7) have "listeners_from marshals 0 (map (listed_message visit) rows) = Inr ls"
    by (auto simp: buildResources_def gw_listeners_def bind_res_eq_Inr_iff)
  from listeners_from_nth [OF this] have n: "length ls = length rows"
      "\<forall>k < length rows. gw_listener marshals k (listed_message visit (rows ! k)) = Inr (ls ! k)" by auto
  have ok: "ports_ok (tb_ports (view db))" using served_ports_ok [OF assms(1,3)] assms(2) by (simp add: ports_ok_def)
  then have inj: "inj_on po_ProxyListeningPort {q \<in> set (tb_ports (view db)). is_container q}"
    by (simp add: ports_ok_def distinct_map)
  have "j = i" if "j < length ls" "ls ! j = Some l'" "ls_Port l' = ls_Port l" for j l'
  proof -
    let ?first = "\<lambda>x. ir_ID (fst (hd (ar_Ingresses (snd x))))"
    have row: "\<exists>q \<in> set (tb_ports (view db)). is_container q \<and> po_IngressID q = ?first (rows ! k) \<and> po_ProxyListeningPort q = ls_Port m"
      if "k < length rows" "ls ! k = Some m" for k m
      using listener_port_row [OF assms(1,4,5)] n(2) that nth_mem by metis
    from row [of i l] row [of j l'] assms(8) l(1) that n(1) obtain q q' where
      "q \<in> set (tb_ports (view db))" "is_container q" "po_IngressID q = ?first (rows ! i)" "po_ProxyListeningPort q = ls_Port l"
      "q' \<in> set (tb_ports (view db))" "is_container q'" "po_IngressID q' = ?first (rows ! j)" "po_ProxyListeningPort q' = ls_Port l"
      by auto
    with inj have "?first (rows ! j) = ?first (rows ! i)" by (metis (mono_tags, lifting) inj_onD mem_Collect_eq)
    with assms(6,8) that(1) n(1) show ?thesis by (simp add: distinct_conv_nth) metis
  qed
  with l show ?thesis by blast
qed

definition all_apps :: ListProtectionsOptions where
  "all_apps = \<lparr>lo_ProtectionMode = None, lo_ModSecMode = None, lo_IncludeApps = Some True\<rparr>"

lemma shop_listed:
  "\<exists>t x. CreateRoute tables_db (\<lambda>_. None) (\<lambda>k. 7) (shop_route ''shop.ns.svc'') empty_tables = Inr (None, t)
    \<and> ListProtections tables_db (Some all_apps) t = Inr [x] \<and> complete_protection (listed_message (\<lambda>m. m) x)
    \<and> prot_Mode (listed_message (\<lambda>m. m) x) = PROTECTION_MODE_ON
    \<and> (\<exists>spec. getRelayInstanceSpecs one_pod_env ''n1'' (listed_message (\<lambda>m. m) x) = Inr [spec])"
proof -
  have cid: "parseContainerId ''containerd://c1'' = Inr (''c1'', ContainerdCRISock)"
    using parseContainerId_url(1) [of "''c1''"] by simp
  have ns: "discoverNetnsPath one_pod_env ContainerdCRISock ''c1'' = Inr (Inr ''/proc/c1'')"
    by (simp add: discoverNetnsPath_def getContainerNetworkNs_def as_object_def as_array_def decode_map_def string_field_def one_pod_env_def)
  have pod: "get_pod one_pod_env ns ''shop-0'' = Some (''shop-0'', [''containerd://c1''])" for ns
    by (simp add: one_pod_env_def)
  show ?thesis
    by (simp add: route_defs tables_db_def shop_route_def empty_tables_def Let_def all_apps_def ListProtections_def load_app_ports_def
        load_ports_def listed_message_def Protection_ToProto_def Application_ToProto_def Ingress_ToProto_def Upstream_ToProto_def
        Port_ToProto_def Endpoint_ToProto_def NewEndpointFromRequest_def put_entry_def MirrorPolicy_ToProto_def
        complete_protection_def new_row_def mode_of_number_def port_type_of_number_def
        getRelayInstanceSpecs_def protection_app_def protection_upstream_def endpoint_spec_def pod
        discoverRelayOptions_def protectionContainerPort_def is_container_port_def NewRelayInstanceSpec_def cid ns)
qed

theorem relay_reaches_its_own_listener_witness:
  "\<exists>t x ls cs spec l. CreateRoute tables_db (\<lambda>_. None) (\<lambda>k. 7) (shop_route ''shop.ns.svc'') empty_tables = Inr (None, t)
    \<and> ListProtections tables_db (Some all_apps) t = Inr [x]
    \<and> buildResources (\<lambda>_. True) ''/run/wafie.sock'' [listed_message (\<lambda>m. m) x] = Inr (ls, cs)
    \<and> getRelayInstanceSpecs one_pod_env ''n1'' (listed_message (\<lambda>m. m) x) = Inr [spec]
    \<and> ls ! 0 = Some l \<and> opt_ProxyListeningPort (relayOptions spec) = dec_nat (unat (ls_Port l))"
proof -
  from shop_listed obtain t x spec where
    t: "CreateRoute tables_db (\<lambda>_. None) (\<lambda>k. 7) (shop_route ''shop.ns.svc'') empty_tables = Inr (None, t)"
      "ListProtections tables_db (Some all_apps) t = Inr [x]" "complete_protection (listed_message (\<lambda>m. m) x)"
      "prot_Mode (listed_message (\<lambda>m. m) x) = PROTECTION_MODE_ON"
      "getRelayInstanceSpecs one_pod_env ''n1'' (listed_message (\<lambda>m. m) x) = Inr [spec]" by blast
  have served: "served tables_db empty_tables t"
    by (rule served.create [OF served.start _ t(1)]) (simp add: maxPort_def minPort_def)
  have "list_all complete_protection [listed_message (\<lambda>m. m) x]" using t(3) by simp
  from buildResources_total [OF this, of "\<lambda>_. True" "''/run/wafie.sock''"] obtain ls cs where
    b: "buildResources (\<lambda>_. True) ''/run/wafie.sock'' [listed_message (\<lambda>m. m) x] = Inr (ls, cs)" by metis
  have "\<exists>l. ls ! 0 = Some l \<and> opt_ProxyListeningPort (relayOptions spec) = dec_nat (unat (ls_Port l))
    \<and> (\<forall>j l'. j < length ls \<longrightarrow> ls ! j = Some l' \<longrightarrow> ls_Port l' = ls_Port l \<longrightarrow> j = 0)"
    by (rule relay_reaches_its_own_listener [OF tables_db_ok _ served t(2), of "\<lambda>_. True" "''/run/wafie.sock''" "\<lambda>m. m" ls cs 0 one_pod_env "''n1''" "[spec]"])
      (use t b in \<open>auto simp: empty_tables_def all_apps_def\<close>)
  with t b show ?thesis by blast
qed

section \<open>From discovery to the endpoints of the API server\<close>

text \<open>
  C28: A service that loses all its pods keeps its endpoints.  The discovery agent gets a slice of a known service
  without endpoints and sends an update.  If the validation of messages has no objection to it and the database
  does not fail to execute the statement, the API server accepts the update, and still has the endpoints that it had.
\<close>

theorem emptied_service_keeps_its_endpoints:
  assumes "route_db_ok repo view" and "shouldProtect services (svc_fqdn sl)" and "slice_Endpoints sl = []"
    and "tb_upstreams (view db) (svc_fqdn sl) = Some old"
    and "validate (Some (update_message (svc_fqdn sl, []))) = None"
    and "\<forall>m e u. fst (save_upstream repo m e u db) = None"
  shows "sync_step (services, out) (Slice sl) = Inr (services, out @ [(svc_fqdn sl, [])])
    \<and> (\<exists>db' row. UpdateRoute repo validate (Some (update_message (svc_fqdn sl, []))) db = Inr (None, db')
        \<and> tb_upstreams (view db') (svc_fqdn sl) = Some row \<and> us_Endpoints row = us_Endpoints old)"
proof
  show "sync_step (services, out) (Slice sl) = Inr (services, out @ [(svc_fqdn sl, [])])"
    using assms(2,3) by (simp add: slice_endpoints_def)
  let ?u = "NewUpstreamFromRequest (update_message (svc_fqdn sl, []))"
  obtain db' where "save_upstream repo (us_MirrorPolicy ?u = None) (us_Endpoints ?u = None) (Upstream_BeforeSave ?u) db = (None, db')"
    using assms(6) by (metis prod.collapse)
  then have db': "UpdateRoute repo validate (Some (update_message (svc_fqdn sl, []))) db = Inr (None, db')"
    using assms(5) by (simp add: UpdateRoute_def Upstream_Save_def Let_def deref_def)
  from update_without_endpoints_keeps_them [OF assms(1) db'] assms(4)
  have "\<exists>row. tb_upstreams (view db') (svc_fqdn sl) = Some row \<and> us_Endpoints row = us_Endpoints old"
    by (auto simp: update_message_def)
  with db' show "\<exists>db' row. UpdateRoute repo validate (Some (update_message (svc_fqdn sl, []))) db = Inr (None, db')
        \<and> tb_upstreams (view db') (svc_fqdn sl) = Some row \<and> us_Endpoints row = us_Endpoints old" by blast
qed

theorem emptied_service_keeps_its_endpoints_witness:
  "\<exists>t t' row eps. sync_step ([''shop.ns.svc''], []) (Slice shop_slice) = Inr ([''shop.ns.svc''], [(''shop.ns.svc'', [])])
    \<and> UpdateRoute tables_db (\<lambda>_. None) (Some (update_message (''shop.ns.svc'', []))) t = Inr (None, t')
    \<and> tb_upstreams t' ''shop.ns.svc'' = Some row \<and> us_Endpoints row = Some eps \<and> eps \<noteq> []"
proof -
  have f: "svc_fqdn shop_slice = ''shop.ns.svc''" by (simp add: svc_fqdn_def shop_slice_def)
  define t where "t = empty_tables\<lparr>tb_upstreams := [''shop.ns.svc'' \<mapsto> \<lparr>us_ID = ''shop.ns.svc'',
    us_Endpoints = Some [(''10.1.0.5'', \<lparr>er_NodeName = ''n1'', er_Kind = ''Pod'', er_Name = ''shop-0'', er_Namespace = ''ns''\<rparr>)],
    us_MirrorPolicy = None, us_UpstreamRouteType = 2, us_Ports = []\<rparr>]\<rparr>"
  have s: "\<forall>m e u. fst (save_upstream tables_db m e u t) = None" by (simp add: tables_db_def)
  from emptied_service_keeps_its_endpoints [OF tables_db_ok _ _ _ _ s, of "[''shop.ns.svc'']" shop_slice _ "\<lambda>_. None" "[]"] f
  show ?thesis by (auto simp: t_def shouldProtect_def shop_slice_def)
qed

section \<open>From the API server to gateway and relay controller\<close>

text \<open>
  C10: When an update is published.  The API server accepts an update with endpoints for a known upstream, and a gateway
  that knows the version from before asks again: it builds resources from the protections that are
  then listed exactly if the addresses of the endpoints are not those that were stored.
\<close>

theorem gateway_rebuilds_iff_addresses_change:
  assumes "route_db_ok repo view" and "inj uuid" and "fresh uuid vs"
    and "UpdateRoute (triggered uuid view repo) validate (Some u) (db, vs) = Inr (None, (db', vs'))"
    and "tb_upstreams (view db) (SvcFqdn u) = Some old" and "us_ID old = SvcFqdn u"
    and "distinct (object_keys (us_Endpoints old))" and "Endpoints u \<noteq> []"
    and "GetStateVersion STATE_TYPE_ID_PROTECTION vs = Some (stateVersion p)"
    and "buildResources marshals sock ps = Inr r"
  shows "\<exists>p'. watch_round marshals sock (GetStateVersion STATE_TYPE_ID_PROTECTION vs') (Some ps) p = Inr p'
    \<and> GetStateVersion STATE_TYPE_ID_PROTECTION vs' = Some (stateVersion p')
    \<and> built p' = (if Ip ` set (Endpoints u) = addresses old then built p else built p @ [r])"
proof (cases "Ip ` set (Endpoints u) = addresses old")
  case True
  with UpdateRoute_version(1) [OF assms(1,4-8)] have "vs' = vs" by simp
  with assms(9) True gateway_poll.same_version [of "Some (stateVersion p)" p marshals sock] show ?thesis by simp
next
  case False
  with UpdateRoute_version(1) [OF assms(1,4-8)] have vs': "vs' = renew_version uuid vs" by simp
  then have v: "GetStateVersion STATE_TYPE_ID_PROTECTION vs' = Some (uuid (vs_drawn vs))"
    using renewed(3) [OF assms(2,3)] by (simp add: GetStateVersion_def GetVersionByTypeId_def)
  with renew_version_changes [OF assms(2,3)] assms(9) vs' have "uuid (vs_drawn vs) \<noteq> stateVersion p" by simp
  with v False assms(10) show ?thesis by (simp add: watch_round_def stateVersionChanged_def)
qed

lemma shop_updated:
  obtains old db vs where "tb_upstreams shop_tables ''shop.ns.svc'' = Some old" and "us_ID old = ''shop.ns.svc''"
    and "object_keys (us_Endpoints old) = [''10.1.0.5'']" and "us_MirrorPolicy old = None"
    and "UpdateRoute (triggered dec_nat (\<lambda>t. t) tables_db) (\<lambda>_. None) (Some (shop_update addr)) (shop_tables, first_versions) = Inr (None, (db, vs))"
proof -
  obtain old where old: "tb_upstreams shop_tables ''shop.ns.svc'' = Some old" "us_ID old = ''shop.ns.svc''"
      "object_keys (us_Endpoints old) = [''10.1.0.5'']" "us_MirrorPolicy old = None"
    by (simp add: shop_tables_def object_keys_def)
  moreover obtain db vs where "UpdateRoute (triggered dec_nat (\<lambda>t. t) tables_db) (\<lambda>_. None) (Some (shop_update addr)) (shop_tables, first_versions)
      = Inr (None, (db, vs))"
    by (auto simp: UpdateRoute_def Upstream_Save_def Let_def triggered_def tables_db_def split: option.splits)
  ultimately show ?thesis by (rule that)
qed

lemma shop_update_simps [simp]:
  "SvcFqdn (shop_update addr) = ''shop.ns.svc''" "map Ip (Endpoints (shop_update addr)) = [addr]" "Endpoints (shop_update addr) \<noteq> []"
  "Ip ` set (Endpoints (shop_update addr)) = {addr}" "up_MirrorPolicy (shop_update addr) \<noteq> None"
  by (simp_all add: shop_update_def)

lemma first_version [simp]: "GetStateVersion STATE_TYPE_ID_PROTECTION first_versions = Some []"
  by (simp add: GetStateVersion_def GetVersionByTypeId_def first_versions_def)

theorem gateway_rebuilds_iff_addresses_change_witness:
  "\<exists>db vs p. UpdateRoute (triggered dec_nat (\<lambda>t. t) tables_db) (\<lambda>_. None) (Some (shop_update ''10.1.0.6'')) (shop_tables, first_versions)
      = Inr (None, (db, vs))
    \<and> watch_round (\<lambda>_. True) ''/run/wafie.sock'' (GetStateVersion STATE_TYPE_ID_PROTECTION vs) (Some [])
        (NewEnvoyControlPlane :: nat EnvoyControlPlane) = Inr p
    \<and> built p = [empty_resources]"
proof -
  obtain old db vs where u: "tb_upstreams shop_tables ''shop.ns.svc'' = Some old" "us_ID old = ''shop.ns.svc''"
      "object_keys (us_Endpoints old) = [''10.1.0.5'']"
      "UpdateRoute (triggered dec_nat (\<lambda>t. t) tables_db) (\<lambda>_. None) (Some (shop_update ''10.1.0.6'')) (shop_tables, first_versions) = Inr (None, (db, vs))"
    by (rule shop_updated)
  have "GetStateVersion STATE_TYPE_ID_PROTECTION first_versions = Some (stateVersion (NewEnvoyControlPlane :: nat EnvoyControlPlane))"
    by (simp add: NewEnvoyControlPlane_def)
  from gateway_rebuilds_iff_addresses_change [OF tables_db_ok inj_dec_nat first_versions_fresh u(4) _ _ _ _ this build_empty, of old] u
  show ?thesis by (auto simp: addresses_def NewEnvoyControlPlane_def)
qed

text \<open>
  C30: A changed mirror policy is not published.  The API server accepts an update that changes the mirror policy of an
  upstream and keeps the addresses, and stores the new policy.  But the version stays the same: the gateway, which
  mirrors the traffic according to this policy, and the relay controller do nothing in any number of rounds, whatever the
  API server lists, until something else renews the version.
\<close>

theorem mirror_policy_is_not_published:
  assumes "route_db_ok repo view"
    and "UpdateRoute (triggered uuid view repo) validate (Some u) (db, vs) = Inr (None, (db', vs'))"
    and "tb_upstreams (view db) (SvcFqdn u) = Some old" and "us_ID old = SvcFqdn u"
    and "distinct (object_keys (us_Endpoints old))" and "Endpoints u \<noteq> []" and "Ip ` set (Endpoints u) = addresses old"
    and "up_MirrorPolicy u = Some policy"
    and "GetStateVersion STATE_TYPE_ID_PROTECTION vs = Some (stateVersion p)"
    and "GetStateVersion STATE_TYPE_ID_PROTECTION vs = Some (fst st)"
  shows "(\<exists>new. tb_upstreams (view db') (SvcFqdn u) = Some new \<and> us_MirrorPolicy new = NewMirrorPolicyFromRequest (Some policy))
    \<and> fold_res (\<lambda>p listed. watch_round marshals sock (GetStateVersion STATE_TYPE_ID_PROTECTION vs') listed p) p rounds = Inr p
    \<and> fold_res (\<lambda>st listed. controller_round env node (GetStateVersion STATE_TYPE_ID_PROTECTION vs') listed st) st rounds = Inr st"
proof -
  note v = UpdateRoute_version [OF assms(1-6)]
  from v(1) assms(7) have vs': "vs' = vs" by simp
  have "fold_res (\<lambda>p listed. watch_round marshals sock (GetStateVersion STATE_TYPE_ID_PROTECTION vs') listed p) p rounds = Inr p"
    using gateway_poll.same_version [of "Some (stateVersion p)" p marshals sock]
    by (induction rounds) (simp_all add: vs' assms(9))
  moreover have "fold_res (\<lambda>st listed. controller_round env node (GetStateVersion STATE_TYPE_ID_PROTECTION vs') listed st) st rounds = Inr st"
    using relay_poll.same_version [of "Some (fst st)" st env node]
    by (induction rounds) (simp_all add: vs' assms(10))
  ultimately show ?thesis using v(2) assms(8) by auto
qed

theorem mirror_policy_is_not_published_witness:
  "\<exists>db vs new policy. UpdateRoute (triggered dec_nat (\<lambda>t. t) tables_db) (\<lambda>_. None) (Some (shop_update ''10.1.0.5'')) (shop_tables, first_versions)
      = Inr (None, (db, vs))
    \<and> tb_upstreams db ''shop.ns.svc'' = Some new \<and> us_MirrorPolicy new = NewMirrorPolicyFromRequest (Some policy)
    \<and> map_option us_MirrorPolicy (tb_upstreams shop_tables ''shop.ns.svc'') = Some None
    \<and> fold_res (\<lambda>p listed. watch_round (\<lambda>_. True) ''/run/wafie.sock'' (GetStateVersion STATE_TYPE_ID_PROTECTION vs) listed p)
        (NewEnvoyControlPlane :: nat EnvoyControlPlane) [Some [], Some []] = Inr NewEnvoyControlPlane"
proof -
  obtain old db vs where u: "tb_upstreams shop_tables ''shop.ns.svc'' = Some old" "us_ID old = ''shop.ns.svc''"
      "object_keys (us_Endpoints old) = [''10.1.0.5'']" "us_MirrorPolicy old = None"
      "UpdateRoute (triggered dec_nat (\<lambda>t. t) tables_db) (\<lambda>_. None) (Some (shop_update ''10.1.0.5'')) (shop_tables, first_versions) = Inr (None, (db, vs))"
    by (rule shop_updated)
  obtain policy where policy: "up_MirrorPolicy (shop_update ''10.1.0.5'') = Some policy" by (simp add: shop_update_def)
  have "GetStateVersion STATE_TYPE_ID_PROTECTION first_versions = Some (stateVersion (NewEnvoyControlPlane :: nat EnvoyControlPlane))"
    by (simp add: NewEnvoyControlPlane_def)
  from mirror_policy_is_not_published [OF tables_db_ok u(5) _ _ _ _ _ policy this, of old "([], ())" "\<lambda>_. True" "''/run/wafie.sock''" "[Some [], Some []]"]
    u show ?thesis by (fastforce simp: addresses_def)
qed

end
